(* ===== verification/Prelude.thy ===== *)
theory Prelude
  imports Main "HOL-Library.Sublist"
begin

text \<open>
  Shared ground of the crawler development: the collections of rewrite rules the component
  theories fill, the Go runtime notions every component uses (error values with wrapping, 64-bit
  signed integers, instants and durations, contexts), and the generic lemmas on lists, maps and
  options.

  Conventions. A Go \<^verbatim>\<open>string\<close> or \<^verbatim>\<open>[]byte\<close> is a list of bytes, and an Isabelle \<^typ>\<open>char\<close> is
  one byte. A \<^verbatim>\<open>time.Time\<close> is the number of nanoseconds since the zero time (January 1 of year 1,
  UTC), so \<^verbatim>\<open>IsZero\<close> is equality with 0; a \<^verbatim>\<open>time.Duration\<close> is a number of nanoseconds. An
  operation with an \<^verbatim>\<open>error\<close> result returns a sum, \<^verbatim>\<open>Inl\<close> for the error.
\<close>

subsection \<open>Collections of rewrite rules\<close>

named_theorems store_simps \<open>lookups and updates of the stores\<close>
named_theorems queue_simps \<open>the bounded queue\<close>
named_theorems hub_simps \<open>the progress hub\<close>
named_theorems worker_simps \<open>the crawl pipeline\<close>

subsection \<open>Types of the model\<close>

type_synonym bytes = "char list"
type_synonym timestamp = int
type_synonym duration = int

abbreviation (input) Nanosecond :: duration where "Nanosecond \<equiv> 1"
abbreviation (input) Microsecond :: duration where "Microsecond \<equiv> 1000"
abbreviation (input) Millisecond :: duration where "Millisecond \<equiv> 1000000"
abbreviation (input) Second :: duration where "Second \<equiv> 1000000000"
abbreviation (input) Hour :: duration where "Hour \<equiv> 3600000000000"

definition time_IsZero :: "timestamp \<Rightarrow> bool" where
  "time_IsZero t \<longleftrightarrow> t = 0"

text \<open>Seconds between the zero time and the Unix epoch.\<close>

definition unix_epoch_seconds :: int where
  "unix_epoch_seconds = 62135596800"

definition time_Unix :: "timestamp \<Rightarrow> int" where
  "time_Unix t = t div Second - unix_epoch_seconds"

subsection \<open>Error values\<close>

text \<open>
  \<^verbatim>\<open>errors.New(s)\<close> is \<open>ErrorString s\<close>; \<^verbatim>\<open>fmt.Errorf("p: %w", e)\<close> is \<open>Wrapped p e\<close>, and
  \<open>WrappedIn\<close> is the same with text on both sides; the two
  sentinel errors of package context have constructors of their own, because the code tests for
  them with \<^verbatim>\<open>errors.Is\<close>.
\<close>

datatype error =
    ErrorString string
  | ContextCanceled
  | ContextDeadlineExceeded
  | Wrapped string error
  | WrappedIn string error string

type_synonym 'a result = "error + 'a"

primrec Error :: "error \<Rightarrow> string" where
  "Error (ErrorString s) = s"
| "Error ContextCanceled = ''context canceled''"
| "Error ContextDeadlineExceeded = ''context deadline exceeded''"
| "Error (Wrapped p e) = p @ '': '' @ Error e"
| "Error (WrappedIn p e s) = p @ Error e @ s"

primrec errors_Is :: "error \<Rightarrow> error \<Rightarrow> bool" where
  "errors_Is (ErrorString s) t \<longleftrightarrow> ErrorString s = t"
| "errors_Is ContextCanceled t \<longleftrightarrow> ContextCanceled = t"
| "errors_Is ContextDeadlineExceeded t \<longleftrightarrow> ContextDeadlineExceeded = t"
| "errors_Is (Wrapped p e) t \<longleftrightarrow> Wrapped p e = t \<or> errors_Is e t"
| "errors_Is (WrappedIn p e s) t \<longleftrightarrow> WrappedIn p e s = t \<or> errors_Is e t"

lemma errors_Is_refl [simp]: "errors_Is e e"
  by (cases e) simp_all

lemma errors_Is_Wrapped [intro]: "errors_Is e t \<Longrightarrow> errors_Is (Wrapped p e) t"
  by simp

subsection \<open>64-bit signed integers\<close>

text \<open>
  Go's \<^verbatim>\<open>int\<close>, \<^verbatim>\<open>int64\<close> and \<^verbatim>\<open>time.Duration\<close> are two's complement 64-bit integers on the platforms the
  service runs on; arithmetic wraps silently. \<open>i64\<close> is that wrap-around.
\<close>

definition i64 :: "int \<Rightarrow> int" where
  "i64 x = (x + 2 ^ 63) mod 2 ^ 64 - 2 ^ 63"

definition in_i64 :: "int \<Rightarrow> bool" where
  "in_i64 x \<longleftrightarrow> - (2 ^ 63) \<le> x \<and> x < 2 ^ 63"

lemma in_i64_i64 [simp, intro]: "in_i64 (i64 x)"
proof -
  have "0 \<le> (x + 2 ^ 63) mod 2 ^ 64" and "(x + 2 ^ 63) mod 2 ^ 64 < (2 ^ 64 :: int)"
    by simp_all
  then show ?thesis by (auto simp: i64_def in_i64_def)
qed

lemma i64_id [simp]: "in_i64 x \<Longrightarrow> i64 x = x"
  by (simp add: in_i64_def i64_def mod_pos_pos_trivial)

lemma i64_idem [simp]: "i64 (i64 x) = i64 x"
  by simp

subsection \<open>Contexts\<close>

text \<open>
  A \<^verbatim>\<open>context.Context\<close> of the service is the background context, the application context that the
  shutdown signal cancels, or a context derived by \<^verbatim>\<open>context.WithTimeout\<close>, which records its
  absolute deadline. Whether a context is done at some moment depends on the clock and the signal,
  so \<^verbatim>\<open>ctx.Err()\<close> is an operation of the environment.
\<close>

datatype ctx = Background | AppContext | WithDeadline ctx timestamp

subsection \<open>Lists, maps and options\<close>

lemma map_upd_other [simp]: "k' \<noteq> k \<Longrightarrow> (m(k \<mapsto> v)) k' = m k'"
  by simp

lemma sum_case_Inr_iff:
  "(case r of Inl e \<Rightarrow> Inl e | Inr v \<Rightarrow> f v) = Inr y \<longleftrightarrow> (\<exists>v. r = Inr v \<and> f v = Inr y)"
  by (cases r) auto

lemma find_SomeD: "find P xs = Some x \<Longrightarrow> x \<in> set xs \<and> P x"
  by (induction xs) (auto split: if_splits)

lemma find_None_all: "find P xs = None \<longleftrightarrow> (\<forall>x \<in> set xs. \<not> P x)"
  by (induction xs) auto

lemma sum_list_map_append_single [simp]:
  "sum_list (map f (xs @ [x])) = sum_list (map f xs) + (f x :: 'a :: comm_monoid_add)"
  by (simp add: add.commute)

end
