(* ===== verification/GoStrings.thy ===== *)
theory GoStrings
  imports Prelude
begin

text \<open>
  The parts of Go's packages strings, unicode/utf8, strconv and path that the crawler calls, over
  byte strings: rune decoding, case folding, trimming, prefixes and suffixes, decimal conversion,
  and lexical path cleaning. Case folding of runes beyond ASCII is the parameter \<open>tab\<close> (the
  Unicode tables); everything else is written out.
\<close>

subsection \<open>Bytes and runes\<close>

abbreviation byte :: "nat \<Rightarrow> char" where "byte \<equiv> char_of"
abbreviation code :: "char \<Rightarrow> nat" where "code \<equiv> of_char"

type_synonym rune = nat

definition RuneError :: rune where
  "RuneError = 65533"

definition is_cont :: "nat \<Rightarrow> bool" where
  "is_cont b \<longleftrightarrow> 128 \<le> b \<and> b < 192"

text \<open>\<^verbatim>\<open>utf8.DecodeRune\<close>: the rune at the front of a non-empty string and its width; an invalid
  encoding is the error rune of width 1. Overlong forms, surrogates and values past U+10FFFF are
  invalid.\<close>

definition decode_rune :: "bytes \<Rightarrow> rune \<times> nat" where
  "decode_rune s =
     (case map code s of
        [] \<Rightarrow> (RuneError, 0)
      | b0 # r \<Rightarrow>
          if b0 < 128 then (b0, 1)
          else if 194 \<le> b0 \<and> b0 < 224 then
            (case r of
               b1 # _ \<Rightarrow> if is_cont b1 then ((b0 - 192) * 64 + (b1 - 128), 2) else (RuneError, 1)
             | [] \<Rightarrow> (RuneError, 1))
          else if 224 \<le> b0 \<and> b0 < 240 then
            (case r of
               b1 # b2 # _ \<Rightarrow>
                 if is_cont b1 \<and> is_cont b2 \<and> (b0 = 224 \<longrightarrow> 160 \<le> b1) \<and> (b0 = 237 \<longrightarrow> b1 < 160)
                 then ((b0 - 224) * 4096 + (b1 - 128) * 64 + (b2 - 128), 3) else (RuneError, 1)
             | _ \<Rightarrow> (RuneError, 1))
          else if 240 \<le> b0 \<and> b0 < 245 then
            (case r of
               b1 # b2 # b3 # _ \<Rightarrow>
                 if is_cont b1 \<and> is_cont b2 \<and> is_cont b3 \<and> (b0 = 240 \<longrightarrow> 144 \<le> b1)
                    \<and> (b0 = 244 \<longrightarrow> b1 < 144)
                 then ((b0 - 240) * 262144 + (b1 - 128) * 4096 + (b2 - 128) * 64 + (b3 - 128), 4)
                 else (RuneError, 1)
             | _ \<Rightarrow> (RuneError, 1))
          else (RuneError, 1))"

lemma decode_rune_width: "s \<noteq> [] \<Longrightarrow> 0 < snd (decode_rune s)"
  by (auto simp: decode_rune_def split: list.splits)

text \<open>\<^verbatim>\<open>for _, r := range s\<close>.\<close>

function runes :: "bytes \<Rightarrow> rune list" where
  "runes s = (if s = [] then [] else fst (decode_rune s) # runes (drop (snd (decode_rune s)) s))"
  by pat_completeness auto
termination
  by (relation "measure length") (simp_all add: decode_rune_width diff_less)

declare runes.simps [simp del]

text \<open>\<^verbatim>\<open>utf8.AppendRune\<close>; invalid runes are encoded as the error rune.\<close>

definition encode_rune :: "rune \<Rightarrow> bytes" where
  "encode_rune r =
     (let r = (if 55296 \<le> r \<and> r < 57344 \<or> 1114111 < r then RuneError else r) in
      if r < 128 then [byte r]
      else if r < 2048 then [byte (192 + r div 64), byte (128 + r mod 64)]
      else if r < 65536 then
        [byte (224 + r div 4096), byte (128 + (r div 64) mod 64), byte (128 + r mod 64)]
      else [byte (240 + r div 262144), byte (128 + (r div 4096) mod 64),
            byte (128 + (r div 64) mod 64), byte (128 + r mod 64)])"

definition is_ascii :: "bytes \<Rightarrow> bool" where
  "is_ascii s \<longleftrightarrow> (\<forall>c \<in> set s. code c < 128)"

lemma runes_ascii: "is_ascii s \<Longrightarrow> runes s = map code s"
proof (induction s)
  case Nil
  then show ?case by (simp add: runes.simps)
next
  case (Cons c s)
  have "decode_rune (c # s) = (code c, 1)"
    using Cons.prems by (simp add: decode_rune_def is_ascii_def)
  then show ?case
    using Cons by (subst runes.simps) (simp add: is_ascii_def)
qed

lemma runes_Nil [simp]: "runes [] = []"
  by (simp add: runes.simps)

lemma runes_nonempty: "s \<noteq> [] \<Longrightarrow> runes s \<noteq> []"
  by (subst runes.simps) simp

subsection \<open>Case folding\<close>

text \<open>\<^verbatim>\<open>unicode.ToLower\<close>: ASCII letters are folded here, other runes by the table.\<close>

definition unicode_ToLower :: "(rune \<Rightarrow> rune) \<Rightarrow> rune \<Rightarrow> rune" where
  "unicode_ToLower tab r = (if r < 128 then (if 65 \<le> r \<and> r \<le> 90 then r + 32 else r) else tab r)"

definition ascii_lower :: "char \<Rightarrow> char" where
  "ascii_lower c = (if 65 \<le> code c \<and> code c \<le> (90::nat) then byte (code c + 32) else c)"

text \<open>\<^verbatim>\<open>strings.ToLower\<close>: bytewise on ASCII strings, runewise otherwise.\<close>

definition strings_ToLower :: "(rune \<Rightarrow> rune) \<Rightarrow> bytes \<Rightarrow> bytes" where
  "strings_ToLower tab s =
     (if is_ascii s then map ascii_lower s
      else concat (map (\<lambda>r. encode_rune (unicode_ToLower tab r)) (runes s)))"

lemma code_ascii_lower:
  "code (ascii_lower c) = (if 65 \<le> code c \<and> code c \<le> (90::nat) then code c + 32 else code c :: nat)"
  by (simp add: ascii_lower_def)

lemma ascii_lower_idem [simp]: "ascii_lower (ascii_lower c) = ascii_lower c"
  by (simp add: ascii_lower_def)

lemma is_ascii_map_lower [simp]: "is_ascii (map ascii_lower s) \<longleftrightarrow> is_ascii s"
  by (auto simp: is_ascii_def code_ascii_lower split: if_splits)

lemma strings_ToLower_ascii: "is_ascii s \<Longrightarrow> strings_ToLower tab s = map ascii_lower s"
  by (simp add: strings_ToLower_def)

lemma strings_ToLower_idem_ascii:
  "is_ascii s \<Longrightarrow> strings_ToLower tab (strings_ToLower tab s) = strings_ToLower tab s"
  by (simp add: strings_ToLower_ascii comp_def)

subsection \<open>Trimming\<close>

text \<open>The code points of \<^verbatim>\<open>unicode.IsSpace\<close>.\<close>

definition space_runes :: "rune list" where
  "space_runes = [9, 10, 11, 12, 13, 32, 133, 160, 5760] @ [8192..<8203]
     @ [8232, 8233, 8239, 8287, 12288]"

definition strip_step :: "bytes list \<Rightarrow> bytes \<Rightarrow> bytes option" where
  "strip_step encs s =
     (case find (\<lambda>e. e \<noteq> [] \<and> prefix e s) encs of
        None \<Rightarrow> None
      | Some e \<Rightarrow> Some (drop (length e) s))"

lemma strip_step_shorter: "strip_step encs s = Some s' \<Longrightarrow> length s' < length s"
  by (auto simp: strip_step_def prefix_def dest!: find_SomeD split: option.splits)

text \<open>Remove encodings of the list from the front as long as one matches.\<close>

function strip_left :: "bytes list \<Rightarrow> bytes \<Rightarrow> bytes" where
  "strip_left encs s = (case strip_step encs s of None \<Rightarrow> s | Some s' \<Rightarrow> strip_left encs s')"
  by pat_completeness auto
termination
  by (relation "measure (\<lambda>(encs, s). length s)") (auto dest: strip_step_shorter)

declare strip_left.simps [simp del]

definition strip_right :: "bytes list \<Rightarrow> bytes \<Rightarrow> bytes" where
  "strip_right encs s = rev (strip_left (map rev encs) (rev s))"

definition strings_TrimSpace :: "bytes \<Rightarrow> bytes" where
  "strings_TrimSpace s =
     (let encs = map encode_rune space_runes in strip_right encs (strip_left encs s))"

text \<open>The encodings written out, for evaluation.\<close>

lemma space_encodings [code_unfold]:
  "map encode_rune space_runes =
    [[CHR 0x09], [CHR 0x0A], [CHR 0x0B], [CHR 0x0C], [CHR 0x0D], [CHR 0x20], [CHR 0xC2, CHR
     0x85], [CHR 0xC2, CHR 0xA0], [CHR 0xE1, CHR 0x9A, CHR 0x80], [CHR 0xE2, CHR 0x80, CHR 0x80],
     [CHR 0xE2, CHR 0x80, CHR 0x81], [CHR 0xE2, CHR 0x80, CHR 0x82], [CHR 0xE2, CHR 0x80, CHR
     0x83], [CHR 0xE2, CHR 0x80, CHR 0x84], [CHR 0xE2, CHR 0x80, CHR 0x85], [CHR 0xE2, CHR 0x80,
     CHR 0x86], [CHR 0xE2, CHR 0x80, CHR 0x87], [CHR 0xE2, CHR 0x80, CHR 0x88], [CHR 0xE2, CHR
     0x80, CHR 0x89], [CHR 0xE2, CHR 0x80, CHR 0x8A], [CHR 0xE2, CHR 0x80, CHR 0xA8], [CHR 0xE2,
     CHR 0x80, CHR 0xA9], [CHR 0xE2, CHR 0x80, CHR 0xAF], [CHR 0xE2, CHR 0x81, CHR 0x9F], [CHR
     0xE3, CHR 0x80, CHR 0x80]]"
  by (simp add: space_runes_def encode_rune_def upt_rec Let_def char_of_def bit_0)

lemma strip_left_Nil [simp]: "strip_left encs [] = []"
  by (subst strip_left.simps) (auto simp: strip_step_def dest!: find_SomeD split: option.splits)

lemma TrimSpace_Nil [simp]: "strings_TrimSpace [] = []"
  by (simp add: strings_TrimSpace_def strip_right_def)

text \<open>\<^verbatim>\<open>strings.Trim\<close> with an ASCII cutset.\<close>

definition strings_Trim :: "bytes \<Rightarrow> bytes \<Rightarrow> bytes" where
  "strings_Trim s cutset =
     rev (dropWhile (\<lambda>c. c \<in> set cutset) (rev (dropWhile (\<lambda>c. c \<in> set cutset) s)))"

lemma set_dropWhile_subset: "set (dropWhile P xs) \<subseteq> set xs"
  by (auto dest: set_dropWhileD)

lemma set_strings_Trim: "set (strings_Trim s cutset) \<subseteq> set s"
  using set_dropWhile_subset[of _ "rev (dropWhile (\<lambda>c. c \<in> set cutset) s)"]
    set_dropWhile_subset[of _ s]
  by (fastforce simp: strings_Trim_def)

lemma hd_strings_Trim: "strings_Trim s cs \<noteq> [] \<Longrightarrow> hd (strings_Trim s cs) \<notin> set cs"
proof -
  let ?P = "\<lambda>c. c \<in> set cs"
  let ?l = "dropWhile ?P s"
  assume ne: "strings_Trim s cs \<noteq> []"
  then have l: "?l \<noteq> []" unfolding strings_Trim_def by (cases ?l) simp_all
  obtain ys where ys: "?l = strings_Trim s cs @ ys"
    unfolding strings_Trim_def
    by (metis rev_rev_ident rev_append takeWhile_dropWhile_id)
  with ne have "hd (strings_Trim s cs) = hd ?l" by (simp add: hd_append)
  then show ?thesis using hd_dropWhile[OF l] by simp
qed

lemma last_strings_Trim: "strings_Trim s cs \<noteq> [] \<Longrightarrow> last (strings_Trim s cs) \<notin> set cs"
  unfolding strings_Trim_def last_rev by (metis hd_dropWhile rev.simps(1))

lemma strings_Trim_id:
  assumes "s \<noteq> [] \<Longrightarrow> hd s \<notin> set cs" "s \<noteq> [] \<Longrightarrow> last s \<notin> set cs"
  shows "strings_Trim s cs = s"
proof (cases s)
  case Nil
  then show ?thesis by (simp add: strings_Trim_def)
next
  case (Cons c r)
  then have 1: "dropWhile (\<lambda>c. c \<in> set cs) s = s" using assms(1) by simp
  have "rev s \<noteq> []" "hd (rev s) \<notin> set cs" using Cons assms(2) unfolding hd_rev by simp_all
  then have "dropWhile (\<lambda>c. c \<in> set cs) (rev s) = rev s"
    by (cases "rev s") simp_all
  with 1 show ?thesis by (simp add: strings_Trim_def)
qed

subsection \<open>Prefixes, suffixes, searching\<close>

abbreviation strings_HasPrefix :: "bytes \<Rightarrow> bytes \<Rightarrow> bool" where
  "strings_HasPrefix s p \<equiv> prefix p s"

abbreviation strings_HasSuffix :: "bytes \<Rightarrow> bytes \<Rightarrow> bool" where
  "strings_HasSuffix s p \<equiv> suffix p s"

definition strings_TrimSuffix :: "bytes \<Rightarrow> bytes \<Rightarrow> bytes" where
  "strings_TrimSuffix s p = (if suffix p s then take (length s - length p) s else s)"

fun bytes_Contains :: "bytes \<Rightarrow> bytes \<Rightarrow> bool" where
  "bytes_Contains [] p = (p = [])"
| "bytes_Contains (c # s) p = (prefix p (c # s) \<or> bytes_Contains s p)"

lemma bytes_Contains_iff: "bytes_Contains s p \<longleftrightarrow> sublist p s"
  by (induction s) (auto simp: sublist_Cons_right)

text \<open>\<^verbatim>\<open>bytes.IndexByte\<close>, with \<open>None\<close> for \<^verbatim>\<open>-1\<close>.\<close>

fun index_byte :: "bytes \<Rightarrow> char \<Rightarrow> nat option" where
  "index_byte [] c = None"
| "index_byte (x # s) c = (if x = c then Some 0 else map_option Suc (index_byte s c))"

lemma index_byte_SomeD:
  "index_byte s c = Some i \<Longrightarrow> i < length s \<and> s ! i = c \<and> (\<forall>j < i. s ! j \<noteq> c)"
proof (induction s arbitrary: i)
  case (Cons x s)
  show ?case
  proof (cases "x = c")
    case False
    with Cons.prems obtain k where "i = Suc k" "index_byte s c = Some k" by auto
    with Cons.IH[of k] False show ?thesis by (auto simp: less_Suc_eq_0_disj)
  qed (use Cons.prems in auto)
qed simp

lemma index_byte_None: "index_byte s c = None \<longleftrightarrow> c \<notin> set s"
  by (induction s) auto

text \<open>Simple case folding on the runes that can match an ASCII letter: the letters, the long s and the
  Kelvin sign. \<open>strings_EqualFold\<close> compares with an ASCII string.\<close>

definition fold_rune :: "rune \<Rightarrow> rune" where
  "fold_rune r = (if 97 \<le> r \<and> r \<le> 122 then r - 32 else if r = 0x17F then 83 else if r = 0x212A then 75 else r)"

definition strings_EqualFold :: "bytes \<Rightarrow> bytes \<Rightarrow> bool" where
  "strings_EqualFold s ascii \<longleftrightarrow> map fold_rune (runes s) = map fold_rune (runes ascii)"

subsection \<open>Decimal\<close>

fun itoa_nat :: "nat \<Rightarrow> bytes" where
  "itoa_nat n = (if n < 10 then [byte (48 + n)] else itoa_nat (n div 10) @ [byte (48 + n mod 10)])"

declare itoa_nat.simps [simp del]

definition strconv_Itoa :: "int \<Rightarrow> bytes" where
  "strconv_Itoa i = (if i < 0 then ''-'' @ itoa_nat (nat (- i)) else itoa_nat (nat i))"

lemma itoa_nat_nonempty [simp]: "itoa_nat n \<noteq> []"
  by (subst itoa_nat.simps) simp

lemma itoa_nat_digits: "c \<in> set (itoa_nat n) \<Longrightarrow> 48 \<le> code c \<and> code c \<le> (57::nat)"
proof (induction n rule: itoa_nat.induct)
  case (1 n)
  show ?case
  proof (cases "n < 10")
    case True
    with "1.prems" show ?thesis by (auto simp: itoa_nat.simps[of n])
  next
    case False
    with "1.prems" have "c \<in> set (itoa_nat (n div 10)) \<or> c = byte (48 + n mod 10)"
      by (auto simp: itoa_nat.simps[of n])
    moreover have "48 + n mod 10 < 256" by (simp add: less_imp_le_nat)
    ultimately show ?thesis using "1.IH"[OF False] by auto
  qed
qed

text \<open>\<^verbatim>\<open>strconv.Atoi\<close>: an optional sign, then decimal digits, in the range of a 64-bit integer. The
  decoration of its error (function name and quoted input) is left out.\<close>

definition ErrSyntax :: error where
  "ErrSyntax = ErrorString ''invalid syntax''"

definition ErrRange :: error where
  "ErrRange = ErrorString ''value out of range''"

definition is_digit :: "char \<Rightarrow> bool" where
  "is_digit c \<longleftrightarrow> 48 \<le> code c \<and> code c \<le> (57::nat)"

definition digits_value :: "bytes \<Rightarrow> nat" where
  "digits_value ds = foldl (\<lambda>n c. 10 * n + (code c - 48)) 0 ds"

definition strconv_Atoi :: "bytes \<Rightarrow> int result" where
  "strconv_Atoi s =
     (let neg = strings_HasPrefix s ''-'';
          ds = (if neg \<or> strings_HasPrefix s ''+'' then tl s else s);
          v = (if neg then - int (digits_value ds) else int (digits_value ds))
      in if ds = [] \<or> \<not> list_all is_digit ds then Inl ErrSyntax
         else if in_i64 v then Inr v else Inl ErrRange)"

lemma digits_itoa: "list_all is_digit (itoa_nat n)"
  by (auto simp: list_all_iff is_digit_def dest: itoa_nat_digits)

lemma digits_value_itoa [simp]: "digits_value (itoa_nat n) = n"
proof (induction n rule: itoa_nat.induct)
  case (1 n)
  show ?case
  proof (cases "n < 10")
    case True
    then show ?thesis by (simp add: itoa_nat.simps[of n] digits_value_def)
  next
    case False
    have "digits_value (itoa_nat n) = 10 * digits_value (itoa_nat (n div 10)) + (code (byte (48 + n mod 10) :: char) - 48)"
      using False by (simp add: itoa_nat.simps[of n] digits_value_def)
    moreover have "code (byte (48 + n mod 10) :: char) = (48 + n mod 10 :: nat)"
      by (simp add: less_imp_le_nat)
    ultimately show ?thesis using "1.IH"[OF False] by simp
  qed
qed

lemma Atoi_Itoa: "in_i64 i \<Longrightarrow> strconv_Atoi (strconv_Itoa i) = Inr i"
proof -
  assume i: "in_i64 i"
  have hd: "is_digit (hd (itoa_nat n))" for n
    using digits_itoa[of n] by (cases "itoa_nat n") auto
  have "\<not> prefix ''-'' (itoa_nat n)" "\<not> prefix ''+'' (itoa_nat n)" for n
    using hd[of n] by (cases "itoa_nat n"; simp add: is_digit_def; force)+
  with i show ?thesis by (auto simp: strconv_Atoi_def strconv_Itoa_def digits_itoa Let_def)
qed

text \<open>A number padded with zeros on the left to the given width, as in \<^verbatim>\<open>time.Format\<close>.\<close>

definition pad :: "nat \<Rightarrow> nat \<Rightarrow> bytes" where
  "pad w n = (let s = itoa_nat n in replicate (w - length s) (CHR ''0'') @ s)"

subsection \<open>Splitting and joining\<close>

fun split_on :: "char \<Rightarrow> bytes \<Rightarrow> bytes list" where
  "split_on c [] = [[]]"
| "split_on c (x # s) =
     (if x = c then [] # split_on c s
      else (case split_on c s of [] \<Rightarrow> [[x]] | w # ws \<Rightarrow> (x # w) # ws))"

fun join_with :: "char \<Rightarrow> bytes list \<Rightarrow> bytes" where
  "join_with c [] = []"
| "join_with c [w] = w"
| "join_with c (w # ws) = w @ c # join_with c ws"

lemma split_on_nonempty [simp]: "split_on c s \<noteq> []"
  by (induction s) (auto split: list.splits)

lemma join_split [simp]: "join_with c (split_on c s) = s"
proof (induction s)
  case (Cons x s)
  then show ?case
    by (cases "split_on c s"; cases "tl (split_on c s)") auto
qed simp

lemma split_on_no_sep: "w \<in> set (split_on c s) \<Longrightarrow> c \<notin> set w"
  by (induction s arbitrary: w) (auto split: list.splits if_splits)

lemma split_on_id: "c \<notin> set w \<Longrightarrow> split_on c w = [w]"
  by (induction w) auto

lemma split_on_append_sep:
  "c \<notin> set w \<Longrightarrow> split_on c (w @ c # s) = w # split_on c s"
  by (induction w) auto

lemma split_join:
  "ws \<noteq> [] \<Longrightarrow> \<forall>w \<in> set ws. c \<notin> set w \<Longrightarrow> split_on c (join_with c ws) = ws"
  by (induction c ws rule: join_with.induct) (auto simp: split_on_id split_on_append_sep)

lemma join_with_Cons: "ws \<noteq> [] \<Longrightarrow> join_with c (w # ws) = w @ c # join_with c ws"
  by (cases ws) auto

lemma join_with_append:
  "xs \<noteq> [] \<Longrightarrow> ys \<noteq> [] \<Longrightarrow> join_with c (xs @ ys) = join_with c xs @ c # join_with c ys"
  by (induction c xs rule: join_with.induct) (auto simp: join_with_Cons)

end
