(* ===== verification/GoPath.thy ===== *)
theory GoPath
  imports GoStrings
begin

text \<open>
  Lexical path processing: \<^verbatim>\<open>path.Clean\<close> and \<^verbatim>\<open>path.Join\<close> (package path/filepath agrees with
  package path on Unix), as a fold over the slash-separated elements, with the normal form of a
  cleaned path, and the calendar fields that the blob layout formats.
\<close>

subsection \<open>Cleaning\<close>

definition rooted :: "bytes \<Rightarrow> bool" where
  "rooted p \<longleftrightarrow> (\<exists>t. p = CHR ''/'' # t)"

lemma rooted_code [simp, code]: "rooted [] = False" "rooted (c # t) = (c = CHR ''/'')"
  by (auto simp: rooted_def)

text \<open>One element of the path, with the output so far as a stack (last element first): empty and
  dot elements vanish, a dot-dot element removes the last element, or is kept when there is none to
  remove and the path is relative.\<close>

definition clean_step :: "bool \<Rightarrow> bytes \<Rightarrow> bytes list \<Rightarrow> bytes list" where
  "clean_step r e st =
     (if e = '''' \<or> e = ''.'' then st
      else if e = ''..'' then
        (case st of
           [] \<Rightarrow> if r then [] else [''..'']
         | x # xs \<Rightarrow> if x = ''..'' then ''..'' # st else xs)
      else e # st)"

definition clean_segs :: "bytes \<Rightarrow> bytes list" where
  "clean_segs p = rev (fold (clean_step (rooted p)) (split_on (CHR ''/'') p) [])"

definition path_Clean :: "bytes \<Rightarrow> bytes" where
  "path_Clean p =
     (if p = '''' then ''.''
      else if rooted p then CHR ''/'' # join_with (CHR ''/'') (clean_segs p)
      else if clean_segs p = [] then ''.''
      else join_with (CHR ''/'') (clean_segs p))"

definition path_Join :: "bytes list \<Rightarrow> bytes" where
  "path_Join elems =
     (let es = filter (\<lambda>e. e \<noteq> '''') elems
      in if es = [] then '''' else path_Clean (join_with (CHR ''/'') es))"

text \<open>\<^verbatim>\<open>filepath.Dir\<close> of a cleaned path: everything up to the last element.\<close>

definition path_Dir :: "bytes \<Rightarrow> bytes" where
  "path_Dir p = path_Clean (rev (dropWhile (\<lambda>c. c \<noteq> CHR ''/'') (rev p)))"

subsection \<open>Normal form\<close>

text \<open>A proper element: a real file or directory name.\<close>

definition proper :: "bytes \<Rightarrow> bool" where
  "proper e \<longleftrightarrow> e \<noteq> '''' \<and> e \<noteq> ''.'' \<and> e \<noteq> ''..'' \<and> CHR ''/'' \<notin> set e"

text \<open>Cleaned elements, last first: proper ones, then dot-dot ones, which a rooted path has not.\<close>

fun normal_stack :: "bool \<Rightarrow> bytes list \<Rightarrow> bool" where
  "normal_stack r [] = True"
| "normal_stack r (e # st) =
     ((proper e \<and> normal_stack r st) \<or> (e = ''..'' \<and> \<not> r \<and> set st \<subseteq> {''..''}))"

lemma normal_stack_dotdots: "\<not> r \<Longrightarrow> set st \<subseteq> {''..''} \<Longrightarrow> normal_stack r st"
  by (induction st) auto

lemma normal_stack_clean_step:
  "CHR ''/'' \<notin> set e \<Longrightarrow> normal_stack r st \<Longrightarrow> normal_stack r (clean_step r e st)"
  by (cases st) (auto simp: clean_step_def proper_def intro: normal_stack_dotdots)

lemma normal_stack_fold:
  "\<forall>e \<in> set es. CHR ''/'' \<notin> set e \<Longrightarrow> normal_stack r st \<Longrightarrow> normal_stack r (fold (clean_step r) es st)"
  by (induction es arbitrary: st) (auto simp: normal_stack_clean_step)

lemma normal_clean_segs: "normal_stack (rooted p) (rev (clean_segs p))"
proof -
  have "\<forall>e \<in> set (split_on (CHR ''/'') p). CHR ''/'' \<notin> set e"
    using split_on_no_sep by blast
  then show ?thesis by (simp add: clean_segs_def normal_stack_fold)
qed

lemma normal_stack_no_slash: "normal_stack r st \<Longrightarrow> e \<in> set st \<Longrightarrow> CHR ''/'' \<notin> set e \<and> e \<noteq> ''''"
  by (induction st) (auto simp: proper_def)

lemma clean_segs_no_slash: "e \<in> set (clean_segs p) \<Longrightarrow> CHR ''/'' \<notin> set e \<and> e \<noteq> ''''"
  using normal_stack_no_slash[OF normal_clean_segs[of p], of e] by simp

text \<open>Elements above a proper element of a normal stack are proper.\<close>

lemma normal_stack_above:
  "normal_stack r (xs @ y # ys) \<Longrightarrow> y \<noteq> ''..'' \<Longrightarrow> \<forall>x \<in> set xs. proper x"
  by (induction xs) auto

lemma normal_stack_suffix: "normal_stack r (xs @ ys) \<Longrightarrow> normal_stack r ys"
  by (induction xs) (auto intro: normal_stack_dotdots)

lemma clean_step_normal: "normal_stack r (e # st) \<Longrightarrow> clean_step r e st = e # st"
  by (cases st) (auto simp: clean_step_def proper_def)

lemma fold_clean_normal:
  "normal_stack r (rev es) \<Longrightarrow> fold (clean_step r) es [] = rev es"
proof (induction es rule: rev_induct)
  case (snoc e es)
  then have "normal_stack r (rev es)"
    using normal_stack_suffix[of r "[e]" "rev es"] by simp
  with snoc show ?case by (simp add: clean_step_normal)
qed simp

lemma fold_clean_skip_empty: "fold (clean_step r) (''''#es) st = fold (clean_step r) es st"
  by (simp add: clean_step_def)

subsection \<open>Cleaning is idempotent\<close>

lemma join_not_rooted:
  assumes "ws \<noteq> []" "\<forall>w \<in> set ws. CHR ''/'' \<notin> set w \<and> w \<noteq> ''''"
  shows "\<not> rooted (join_with (CHR ''/'') ws)"
proof -
  obtain w ws' where ws: "ws = w # ws'" using assms(1) by (cases ws) auto
  then obtain c v where "w = c # v" "c \<noteq> CHR ''/''" using assms(2) by (cases w) auto
  then show ?thesis using ws by (cases ws') simp_all
qed

lemma join_nonempty:
  assumes "ws \<noteq> []" "\<forall>w \<in> set ws. w \<noteq> ''''"
  shows "join_with c ws \<noteq> ''''"
  using assms by (induction c ws rule: join_with.induct) auto

lemma rooted_path_Clean [simp]: "rooted (path_Clean p) = rooted p"
  using join_not_rooted[of "clean_segs p"] clean_segs_no_slash[of _ p]
  by (cases p) (auto simp: path_Clean_def)

lemma path_Clean_nonempty [simp]: "path_Clean p \<noteq> ''''"
  using join_nonempty[of "clean_segs p"] clean_segs_no_slash[of _ p]
  by (auto simp: path_Clean_def)

lemma clean_segs_join:
  assumes "normal_stack False (rev es)" "es \<noteq> []"
  shows "clean_segs (join_with (CHR ''/'') es) = es"
proof -
  have ns: "\<forall>w \<in> set es. CHR ''/'' \<notin> set w \<and> w \<noteq> ''''"
    using normal_stack_no_slash[OF assms(1)] by auto
  then have "split_on (CHR ''/'') (join_with (CHR ''/'') es) = es"
    using assms(2) by (intro split_join) auto
  moreover have "\<not> rooted (join_with (CHR ''/'') es)"
    using join_not_rooted[OF assms(2) ns] .
  ultimately show ?thesis
    using fold_clean_normal[OF assms(1)] by (simp add: clean_segs_def)
qed

lemma clean_segs_rooted_join:
  assumes "normal_stack True (rev es)"
  shows "clean_segs (CHR ''/'' # join_with (CHR ''/'') es) = es"
proof (cases "es = []")
  case True
  then show ?thesis by (simp add: clean_segs_def clean_step_def)
next
  case False
  have "\<forall>w \<in> set es. CHR ''/'' \<notin> set w"
    using normal_stack_no_slash[OF assms] by auto
  then have "split_on (CHR ''/'') (join_with (CHR ''/'') es) = es"
    using False by (intro split_join)
  then show ?thesis
    using fold_clean_normal[OF assms] by (simp add: clean_segs_def clean_step_def)
qed

lemma clean_segs_path_Clean [simp]: "clean_segs (path_Clean p) = clean_segs p"
proof (cases "p = ''''")
  case True
  then show ?thesis by (simp add: path_Clean_def clean_segs_def clean_step_def)
next
  case False
  note nf = normal_clean_segs[of p]
  show ?thesis
  proof (cases "rooted p")
    case True
    with nf False show ?thesis by (auto simp: path_Clean_def intro: clean_segs_rooted_join)
  next
    case nr: False
    show ?thesis
    proof (cases "clean_segs p = []")
      case True
      with False nr show ?thesis by (simp add: path_Clean_def clean_segs_def clean_step_def)
    next
      case ne: False
      with nf nr False show ?thesis by (auto simp: path_Clean_def intro: clean_segs_join)
    qed
  qed
qed

lemma path_Clean_segs:
  "path_Clean p =
     (if rooted p then CHR ''/'' # join_with (CHR ''/'') (clean_segs p)
      else if clean_segs p = [] then ''.''
      else join_with (CHR ''/'') (clean_segs p))"
  by (auto simp: path_Clean_def clean_segs_def clean_step_def)

lemma path_Clean_idem [simp]: "path_Clean (path_Clean p) = path_Clean p"
  by (simp add: path_Clean_segs[of "path_Clean p"]) (simp add: path_Clean_segs[of p])

subsection \<open>Prefixes of cleaned paths\<close>

lemma split_on_append: "split_on c (x @ c # y) = split_on c x @ split_on c y"
  by (induction x) (auto split: list.splits)

lemma join_prefix_segs:
  assumes "bs \<noteq> []" "fs \<noteq> []" "\<forall>w \<in> set bs \<union> set fs. c \<notin> set w"
    and "prefix (join_with c bs @ [c]) (join_with c fs)"
  shows "\<exists>rel. rel \<noteq> [] \<and> fs = bs @ rel"
proof -
  from assms(4) obtain t where t: "join_with c fs = join_with c bs @ c # t"
    by (auto simp: prefix_def)
  have "fs = split_on c (join_with c fs)" using assms by (simp add: split_join)
  also have "\<dots> = split_on c (join_with c bs) @ split_on c t" by (simp add: t split_on_append)
  also have "split_on c (join_with c bs) = bs" using assms by (simp add: split_join)
  finally show ?thesis by (metis split_on_nonempty)
qed

text \<open>The lexical containment check of the local blob store, on cleaned elements.\<close>

lemma clean_prefix_contained:
  assumes pre: "prefix (path_Clean b @ ''/'') (path_Clean f)"
    and base: "clean_segs b \<noteq> []" and last: "last (clean_segs b) \<noteq> ''..''"
    and same: "rooted f = rooted b"
  shows "\<exists>rel. rel \<noteq> [] \<and> clean_segs f = clean_segs b @ rel \<and> (\<forall>e \<in> set rel. proper e)"
proof -
  have ne: "clean_segs f \<noteq> []"
  proof
    assume "clean_segs f = []"
    then have "length (path_Clean f) = 1" by (auto simp: path_Clean_segs)
    moreover have "path_Clean b \<noteq> ''''" by simp
    ultimately show False using prefix_length_le[OF pre] by (cases "path_Clean b") auto
  qed
  have "prefix (join_with (CHR ''/'') (clean_segs b) @ ''/'') (join_with (CHR ''/'') (clean_segs f))"
    using pre base ne same by (auto simp: path_Clean_segs split: if_splits)
  then obtain rel where rel: "rel \<noteq> []" "clean_segs f = clean_segs b @ rel"
    using join_prefix_segs[OF base ne] clean_segs_no_slash by (metis UnE)
  have "rev (clean_segs f) = rev rel @ last (clean_segs b) # rev (butlast (clean_segs b))"
    using rel base by (metis append_Cons append_Nil append_butlast_last_id rev_append rev_rev_ident
        rev.simps(2) append.assoc)
  with normal_clean_segs[of f] have "normal_stack (rooted f)
      (rev rel @ last (clean_segs b) # rev (butlast (clean_segs b)))" by simp
  from normal_stack_above[OF this last] rel show ?thesis by auto
qed

text \<open>The directory of a cleaned path has the elements of the path but the last.\<close>

lemma upto_slash:
  assumes "CHR ''/'' \<notin> set e"
  shows "rev (dropWhile (\<lambda>c. c \<noteq> CHR ''/'') (rev (x @ CHR ''/'' # e))) = x @ ''/''"
proof -
  have "dropWhile (\<lambda>c. c \<noteq> CHR ''/'') (rev e @ CHR ''/'' # rev x) = dropWhile (\<lambda>c. c \<noteq> CHR ''/'') (CHR ''/'' # rev x)"
    by (rule dropWhile_append2) (use assms in auto)
  then show ?thesis by simp
qed

lemma clean_segs_slash:
  assumes "x \<noteq> []"
  shows "clean_segs (x @ ''/'') = clean_segs x \<and> rooted (x @ ''/'') = rooted x"
proof -
  have "rooted (x @ ''/'') = rooted x" using assms by (cases x) simp_all
  then show ?thesis by (simp add: clean_segs_def split_on_append clean_step_def)
qed

lemma clean_segs_Dir:
  assumes "clean_segs f \<noteq> []"
  shows "clean_segs (path_Dir (path_Clean f)) = butlast (clean_segs f) \<and> rooted (path_Dir (path_Clean f)) = rooted f"
proof -
  let ?j = "join_with (CHR ''/'')"
  obtain es e where se: "clean_segs f = es @ [e]" using assms by (metis rev_exhaust)
  have e: "CHR ''/'' \<notin> set e" using clean_segs_no_slash[of e f] se by simp
  have nf: "normal_stack (rooted f) (rev es)"
    using normal_clean_segs[of f] normal_stack_suffix[of "rooted f" "[e]" "rev es"] by (simp add: se)
  have j: "es \<noteq> [] \<Longrightarrow> ?j (es @ [e]) = ?j es @ CHR ''/'' # e" by (simp add: join_with_append)
  show ?thesis
  proof (cases "rooted f")
    case True
    have "path_Clean f = (CHR ''/'' # ?j es) @ CHR ''/'' # e \<and> es \<noteq> [] \<or> path_Clean f = [] @ CHR ''/'' # e \<and> es = []"
      using True j by (cases "es = []") (auto simp: path_Clean_segs[of f] se)
    then have "path_Dir (path_Clean f) = path_Clean (if es = [] then ''/'' else (CHR ''/'' # ?j es) @ ''/'')"
      using upto_slash[OF e, of "CHR ''/'' # ?j es"] upto_slash[OF e, of "[]"] by (auto simp: path_Dir_def)
    then show ?thesis
      using True nf clean_segs_rooted_join[of es] clean_segs_slash[of "CHR ''/'' # ?j es"] clean_segs_rooted_join[of "[]"]
      by (auto simp: se split: if_splits)
  next
    case False
    have ns: "\<forall>w \<in> set es. CHR ''/'' \<notin> set w \<and> w \<noteq> ''''" using clean_segs_no_slash[of _ f] se by simp
    show ?thesis
    proof (cases "es = []")
      case True
      then have "path_Clean f = e" using False by (simp add: path_Clean_segs[of f] se)
      then have "dropWhile (\<lambda>c. c \<noteq> CHR ''/'') (rev (path_Clean f)) = []" using e by auto
      then have "path_Dir (path_Clean f) = path_Clean []" by (simp only: path_Dir_def rev.simps)
      moreover have "clean_segs [] = []" by (simp add: clean_segs_def clean_step_def)
      ultimately show ?thesis using True False by (simp add: se)
    next
      case ne: False
      then have "path_Clean f = ?j es @ CHR ''/'' # e" using False j by (simp add: path_Clean_segs[of f] se)
      then have "path_Dir (path_Clean f) = path_Clean (?j es @ ''/'')" using upto_slash[OF e] by (simp add: path_Dir_def)
      then show ?thesis
        using False ne nf clean_segs_join[of es] clean_segs_slash[of "?j es"] join_nonempty[OF ne] join_not_rooted[OF ne ns] ns
        by (simp add: se)
    qed
  qed
qed

subsection \<open>Calendar fields\<close>

text \<open>The proleptic Gregorian date of a day number counted from January 1 of year 1, by the
  era/day-of-era computation with years that start in March.\<close>

definition civil :: "int \<Rightarrow> int \<times> int \<times> int" where
  "civil days =
     (let z = days + 306;
          era = z div 146097;
          doe = z mod 146097;
          yoe = (doe - doe div 1460 + doe div 36524 - doe div 146096) div 365;
          doy = doe - (365 * yoe + yoe div 4 - yoe div 100);
          mp = (5 * doy + 2) div 153;
          d = doy - (153 * mp + 2) div 5 + 1;
          m = (if mp < 10 then mp + 3 else mp - 9);
          y = yoe + era * 400
      in (if m \<le> 2 then y + 1 else y, m, d))"

definition time_Date :: "timestamp \<Rightarrow> int \<times> int \<times> int" where
  "time_Date t = civil (t div (24 * Hour))"

definition time_Hour :: "timestamp \<Rightarrow> int" where
  "time_Hour t = (t mod (24 * Hour)) div Hour"

text \<open>The three layouts the worker uses, for years from 1 on.\<close>

definition format_yyyymm :: "timestamp \<Rightarrow> bytes" where
  "format_yyyymm t = (case time_Date t of (y, m, d) \<Rightarrow> pad 4 (nat y) @ pad 2 (nat m))"

definition format_dd :: "timestamp \<Rightarrow> bytes" where
  "format_dd t = (case time_Date t of (y, m, d) \<Rightarrow> pad 2 (nat d))"

definition format_hh :: "timestamp \<Rightarrow> bytes" where
  "format_hh t = pad 2 (nat (time_Hour t))"

text \<open>\<^verbatim>\<open>t.Truncate(d)\<close> rounds down to a multiple of \<^verbatim>\<open>d\<close> since the zero time.\<close>

definition time_Truncate :: "timestamp \<Rightarrow> duration \<Rightarrow> timestamp" where
  "time_Truncate t d = (if d \<le> 0 then t else t - t mod d)"

end
