(* ===== verification/GoUrl.thy ===== *)
theory GoUrl
  imports GoStrings "HOL-Library.List_Lexorder" "HOL-Library.Char_ord"
begin

text \<open>
  The parts of Go's package net/url (Go 1.24) that the crawler calls: parsing, printing, host and
  query handling, with percent encoding per component. The main lemma is that parsing an encoded
  query gives back its pairs in key order.
\<close>

subsection \<open>Percent encoding\<close>

datatype encoding =
  encodePath | encodeHost | encodeZone | encodeUserPassword | encodeQueryComponent | encodeFragment

definition is_alnum :: "char \<Rightarrow> bool" where
  "is_alnum c \<longleftrightarrow> (let n = code c :: nat in
     97 \<le> n \<and> n \<le> 122 \<or> 65 \<le> n \<and> n \<le> 90 \<or> 48 \<le> n \<and> n \<le> 57)"

definition shouldEscape :: "char \<Rightarrow> encoding \<Rightarrow> bool" where
  "shouldEscape c mode =
     (if is_alnum c then False
      else if (mode = encodeHost \<or> mode = encodeZone)
         \<and> c \<in> set (''!$&()*+,;=:[]<>'' @ [CHR 0x27, CHR 0x22]) then False
      else if c \<in> set ''-_.~'' then False
      else if c \<in> set ''$&+,/:;=?@'' \<and> mode = encodePath then c = CHR ''?''
      else if c \<in> set ''$&+,/:;=?@'' \<and> mode = encodeUserPassword then c \<in> set ''@/?:''
      else if c \<in> set ''$&+,/:;=?@'' \<and> mode = encodeQueryComponent then True
      else if c \<in> set ''$&+,/:;=?@'' \<and> mode = encodeFragment then False
      else if mode = encodeFragment \<and> c \<in> set ''!()*'' then False
      else True)"

definition unhex :: "char \<Rightarrow> nat option" where
  "unhex c = (let n = code c :: nat in
     if 48 \<le> n \<and> n \<le> 57 then Some (n - 48)
     else if 97 \<le> n \<and> n \<le> 102 then Some (n - 87)
     else if 65 \<le> n \<and> n \<le> 70 then Some (n - 55)
     else None)"

definition upperhex :: "nat \<Rightarrow> char" where
  "upperhex n = (if n < 10 then byte (48 + n) else byte (55 + n))"

definition escape_char :: "encoding \<Rightarrow> char \<Rightarrow> bytes" where
  "escape_char mode c =
     (if shouldEscape c mode then
        (if c = CHR '' '' \<and> mode = encodeQueryComponent then ''+''
         else [CHR 0x25, upperhex (code c div 16), upperhex (code c mod 16)])
      else [c])"

definition url_escape :: "bytes \<Rightarrow> encoding \<Rightarrow> bytes" where
  "url_escape s mode = concat (map (escape_char mode) s)"

text \<open>\<open>None\<close> stands for the \<^verbatim>\<open>EscapeError\<close> and \<^verbatim>\<open>InvalidHostError\<close> results.\<close>

fun url_unescape :: "encoding \<Rightarrow> bytes \<Rightarrow> bytes option" where
  "url_unescape mode [] = Some []"
| "url_unescape mode (c # s) =
     (if c = CHR 0x25 then
        (case s of
           a # b # r \<Rightarrow>
             (case (unhex a, unhex b) of
                (Some h, Some l) \<Rightarrow>
                  let v = byte (16 * h + l); is25 = (a = CHR ''2'' \<and> b = CHR ''5'') in
                  if mode = encodeHost \<and> h < 8 \<and> \<not> is25 then None
                  else if mode = encodeZone \<and> \<not> is25 \<and> v \<noteq> CHR '' '' \<and> shouldEscape v encodeHost
                  then None
                  else map_option ((#) v) (url_unescape mode r)
              | _ \<Rightarrow> None)
         | _ \<Rightarrow> None)
      else if c = CHR ''+'' \<and> mode = encodeQueryComponent
      then map_option ((#) (CHR '' '')) (url_unescape mode s)
      else if (mode = encodeHost \<or> mode = encodeZone) \<and> code c < (128::nat) \<and> shouldEscape c mode
      then None
      else map_option ((#) c) (url_unescape mode s))"

subsection \<open>Cutting\<close>

definition strings_Cut :: "bytes \<Rightarrow> char \<Rightarrow> bytes \<times> bytes \<times> bool" where
  "strings_Cut s c =
     (case index_byte s c of
        None \<Rightarrow> (s, '''', False)
      | Some i \<Rightarrow> (take i s, drop (Suc i) s, True))"

definition last_index :: "bytes \<Rightarrow> char \<Rightarrow> nat option" where
  "last_index s c = map_option (\<lambda>i. length s - 1 - i) (index_byte (rev s) c)"

subsection \<open>URLs\<close>

record url =
  Scheme :: bytes
  Opaque :: bytes
  User :: "(bytes \<times> bytes option) option"
  Host :: bytes
  Path :: bytes
  RawPath :: bytes
  OmitHost :: bool
  ForceQuery :: bool
  RawQuery :: bytes
  Fragment :: bytes
  RawFragment :: bytes

definition empty_url :: url where
  "empty_url = \<lparr>Scheme = '''', Opaque = '''', User = None, Host = '''', Path = '''', RawPath = '''',
     OmitHost = False, ForceQuery = False, RawQuery = '''', Fragment = '''', RawFragment = ''''\<rparr>"

definition validOptionalPort :: "bytes \<Rightarrow> bool" where
  "validOptionalPort port =
     (case port of
        [] \<Rightarrow> True
      | c # ds \<Rightarrow> c = CHR '':'' \<and> list_all (\<lambda>d. 48 \<le> code d \<and> code d \<le> (57::nat)) ds)"

definition validUserinfo :: "bytes \<Rightarrow> bool" where
  "validUserinfo s \<longleftrightarrow>
     list_all (\<lambda>c. is_alnum c \<or> c \<in> set (''-._:~!$&()*+,;=@'' @ [CHR 0x25, CHR 0x27])) s"

text \<open>\<^verbatim>\<open>getScheme\<close>: \<open>None\<close> is the missing-scheme error; otherwise the scheme and the rest.\<close>

fun getScheme_from :: "bytes \<Rightarrow> nat \<Rightarrow> bytes \<Rightarrow> (bytes \<times> bytes) option" where
  "getScheme_from raw i [] = Some ('''', raw)"
| "getScheme_from raw i (c # s) =
     (if 97 \<le> code c \<and> code c \<le> (122::nat) \<or> 65 \<le> code c \<and> code c \<le> (90::nat)
      then getScheme_from raw (Suc i) s
      else if 48 \<le> code c \<and> code c \<le> (57::nat) \<or> c \<in> set ''+-.''
      then (if i = 0 then Some ('''', raw) else getScheme_from raw (Suc i) s)
      else if c = CHR '':''
      then (if i = 0 then None else Some (take i raw, s))
      else Some ('''', raw))"

definition getScheme :: "bytes \<Rightarrow> (bytes \<times> bytes) option" where
  "getScheme raw = getScheme_from raw 0 raw"

definition find_sub :: "bytes \<Rightarrow> bytes \<Rightarrow> nat option" where
  "find_sub s p = find (\<lambda>i. prefix p (drop i s)) [0..<Suc (length s)]"

definition parseHost :: "bytes \<Rightarrow> bytes option" where
  "parseHost host =
     (if prefix ''['' host then
        (case last_index host (CHR '']'') of
           None \<Rightarrow> None
         | Some i \<Rightarrow>
             if \<not> validOptionalPort (drop (Suc i) host) then None
             else
               (case find_sub (take i host) [CHR 0x25, CHR ''2'', CHR ''5''] of
                  Some z \<Rightarrow>
                    (case (url_unescape encodeHost (take z host),
                           url_unescape encodeZone (drop z (take i host)),
                           url_unescape encodeHost (drop i host)) of
                       (Some h1, Some h2, Some h3) \<Rightarrow> Some (h1 @ h2 @ h3)
                     | _ \<Rightarrow> None)
                | None \<Rightarrow> url_unescape encodeHost host))
      else
        (case last_index host (CHR '':'') of
           Some i \<Rightarrow> if validOptionalPort (drop i host) then url_unescape encodeHost host else None
         | None \<Rightarrow> url_unescape encodeHost host))"

definition parseAuthority :: "bytes \<Rightarrow> ((bytes \<times> bytes option) option \<times> bytes) option" where
  "parseAuthority auth =
     (case last_index auth (CHR ''@'') of
        None \<Rightarrow> map_option (\<lambda>h. (None, h)) (parseHost auth)
      | Some i \<Rightarrow>
          (case parseHost (drop (Suc i) auth) of
             None \<Rightarrow> None
           | Some h \<Rightarrow>
               let ui = take i auth in
               if \<not> validUserinfo ui then None
               else if CHR '':'' \<notin> set ui then
                 map_option (\<lambda>u. (Some (u, None), h)) (url_unescape encodeUserPassword ui)
               else
                 (case strings_Cut ui (CHR '':'') of
                    (u, p, _) \<Rightarrow>
                      (case (url_unescape encodeUserPassword u, url_unescape encodeUserPassword p) of
                         (Some u', Some p') \<Rightarrow> Some (Some (u', Some p'), h)
                       | _ \<Rightarrow> None))))"

definition setPath :: "url \<Rightarrow> bytes \<Rightarrow> url option" where
  "setPath u p =
     (case url_unescape encodePath p of
        None \<Rightarrow> None
      | Some path \<Rightarrow>
          Some (u\<lparr>Path := path, RawPath := (if p = url_escape path encodePath then '''' else p)\<rparr>))"

definition setFragment :: "url \<Rightarrow> bytes \<Rightarrow> url option" where
  "setFragment u f =
     (case url_unescape encodeFragment f of
        None \<Rightarrow> None
      | Some frag \<Rightarrow>
          Some (u\<lparr>Fragment := frag,
                  RawFragment := (if f = url_escape frag encodeFragment then '''' else f)\<rparr>))"

definition parse_no_fragment :: "bytes \<Rightarrow> url option" where
  "parse_no_fragment raw =
     (if \<exists>c \<in> set raw. code c < (32::nat) \<or> code c = (127::nat) then None
      else if raw = ''*'' then Some (empty_url\<lparr>Path := ''*''\<rparr>)
      else
        (case getScheme raw of
           None \<Rightarrow> None
         | Some (sch, rest0) \<Rightarrow>
             let scheme = map ascii_lower sch;
                 force = (suffix ''?'' rest0 \<and> length (filter (\<lambda>c. c = CHR ''?'') rest0) = 1);
                 (rest, query) = (if force then (butlast rest0, '''')
                                  else (case strings_Cut rest0 (CHR ''?'') of (a, b, _) \<Rightarrow> (a, b)));
                 u = empty_url\<lparr>Scheme := scheme, ForceQuery := force, RawQuery := query\<rparr>
             in
             if \<not> prefix ''/'' rest \<and> scheme \<noteq> '''' then Some (u\<lparr>Opaque := rest\<rparr>)
             else if \<not> prefix ''/'' rest \<and> CHR '':'' \<in> set (fst (strings_Cut rest (CHR ''/'')))
             then None
             else if (scheme \<noteq> '''' \<or> \<not> prefix ''///'' rest) \<and> prefix ''//'' rest then
               (let a = drop 2 rest;
                    i = (case index_byte a (CHR ''/'') of None \<Rightarrow> length a | Some i \<Rightarrow> i) in
                case parseAuthority (take i a) of
                  None \<Rightarrow> None
                | Some (usr, h) \<Rightarrow> setPath (u\<lparr>User := usr, Host := h\<rparr>) (drop i a))
             else
               setPath (u\<lparr>OmitHost := (scheme \<noteq> '''' \<and> prefix ''/'' rest)\<rparr>) rest))"

definition url_Parse :: "bytes \<Rightarrow> url option" where
  "url_Parse raw =
     (case strings_Cut raw (CHR ''#'') of
        (u, frag, _) \<Rightarrow>
          (case parse_no_fragment u of
             None \<Rightarrow> None
           | Some x \<Rightarrow> if frag = '''' then Some x else setFragment x frag))"

subsection \<open>Printing\<close>

definition validEncoded :: "bytes \<Rightarrow> encoding \<Rightarrow> bool" where
  "validEncoded s mode \<longleftrightarrow>
     list_all (\<lambda>c. c \<in> set (''!$&()*+,;=:@[]'' @ [CHR 0x25, CHR 0x27]) \<or> \<not> shouldEscape c mode) s"

definition EscapedPath :: "url \<Rightarrow> bytes" where
  "EscapedPath u =
     (if RawPath u \<noteq> '''' \<and> validEncoded (RawPath u) encodePath
         \<and> url_unescape encodePath (RawPath u) = Some (Path u) then RawPath u
      else if Path u = ''*'' then ''*''
      else url_escape (Path u) encodePath)"

definition EscapedFragment :: "url \<Rightarrow> bytes" where
  "EscapedFragment u =
     (if RawFragment u \<noteq> '''' \<and> validEncoded (RawFragment u) encodeFragment
         \<and> url_unescape encodeFragment (RawFragment u) = Some (Fragment u) then RawFragment u
      else url_escape (Fragment u) encodeFragment)"

definition Userinfo_String :: "bytes \<times> bytes option \<Rightarrow> bytes" where
  "Userinfo_String ui =
     (case ui of
        (n, None) \<Rightarrow> url_escape n encodeUserPassword
      | (n, Some p) \<Rightarrow> url_escape n encodeUserPassword @ '':'' @ url_escape p encodeUserPassword)"

definition url_String :: "url \<Rightarrow> bytes" where
  "url_String u =
     (let s0 = (if Scheme u \<noteq> '''' then Scheme u @ '':'' else '''');
          body =
            (if Opaque u \<noteq> '''' then s0 @ Opaque u
             else
               let s1 =
                     (if Scheme u \<noteq> '''' \<or> Host u \<noteq> '''' \<or> User u \<noteq> None then
                        (if OmitHost u \<and> Host u = '''' \<and> User u = None then s0
                         else s0
                           @ (if Host u \<noteq> '''' \<or> Path u \<noteq> '''' \<or> User u \<noteq> None then ''//'' else '''')
                           @ (case User u of None \<Rightarrow> '''' | Some ui \<Rightarrow> Userinfo_String ui @ ''@'')
                           @ url_escape (Host u) encodeHost)
                      else s0);
                   p = EscapedPath u;
                   s2 = (if p \<noteq> '''' \<and> \<not> prefix ''/'' p \<and> Host u \<noteq> '''' then s1 @ ''/'' else s1);
                   s3 = (if s2 = '''' \<and> CHR '':'' \<in> set (fst (strings_Cut p (CHR ''/'')))
                         then ''./'' else s2)
               in s3 @ p)
      in body
         @ (if ForceQuery u \<or> RawQuery u \<noteq> '''' then CHR ''?'' # RawQuery u else '''')
         @ (if Fragment u \<noteq> '''' then CHR ''#'' # EscapedFragment u else ''''))"

definition url_Hostname :: "url \<Rightarrow> bytes" where
  "url_Hostname u =
     (let h = (case last_index (Host u) (CHR '':'') of
                 Some i \<Rightarrow> if validOptionalPort (drop i (Host u)) then take i (Host u) else Host u
               | None \<Rightarrow> Host u)
      in if prefix ''['' h \<and> suffix '']'' h then butlast (tl h) else h)"

subsection \<open>Queries\<close>

text \<open>\<^verbatim>\<open>url.Values\<close> as the list of key/value pairs in order of arrival; the values of one key keep
  their order, which is all the Go map records.\<close>

type_synonym url_values = "(bytes \<times> bytes) list"

definition query_pair :: "bytes \<Rightarrow> url_values" where
  "query_pair part =
     (if CHR '';'' \<in> set part \<or> part = '''' then []
      else
        (case strings_Cut part (CHR ''='') of
           (k, v, _) \<Rightarrow>
             (case (url_unescape encodeQueryComponent k, url_unescape encodeQueryComponent v) of
                (Some k', Some v') \<Rightarrow> [(k', v')]
              | _ \<Rightarrow> [])))"

definition ParseQuery :: "bytes \<Rightarrow> url_values" where
  "ParseQuery q = concat (map query_pair (split_on (CHR ''&'') q))"

definition url_Query :: "url \<Rightarrow> url_values" where
  "url_Query u = ParseQuery (RawQuery u)"

definition Values_Get :: "url_values \<Rightarrow> bytes \<Rightarrow> bytes" where
  "Values_Get q k = (case find (\<lambda>p. fst p = k) q of None \<Rightarrow> '''' | Some p \<Rightarrow> snd p)"

definition encode_pair :: "bytes \<times> bytes \<Rightarrow> bytes" where
  "encode_pair p =
     url_escape (fst p) encodeQueryComponent @ CHR ''='' # url_escape (snd p) encodeQueryComponent"

text \<open>\<^verbatim>\<open>Values.Encode\<close>: keys in ascending byte order, the values of a key in their order.\<close>

definition Values_Encode :: "url_values \<Rightarrow> bytes" where
  "Values_Encode q = join_with (CHR ''&'') (map encode_pair (sort_key fst q))"

subsection \<open>Decoding an encoded query\<close>

lemma unhex_upperhex: "n < 16 \<Longrightarrow> unhex (upperhex n) = Some n"
  by (auto simp: unhex_def upperhex_def Let_def)

lemma code_div16_less: "code (c :: char) div 16 < (16 :: nat)"
  by (simp add: div_less_iff_less_mult)

lemma unescape_escape_char:
  assumes "mode \<noteq> encodeHost" "mode \<noteq> encodeZone"
  shows "url_unescape mode (escape_char mode c @ s) = map_option ((#) c) (url_unescape mode s)"
proof (cases "shouldEscape c mode")
  case True
  show ?thesis
  proof (cases "c = CHR '' '' \<and> mode = encodeQueryComponent")
    case False
    have "byte (16 * (code c div 16) + code c mod 16) = c" by simp
    with True False assms show ?thesis
      by (auto simp: escape_char_def unhex_upperhex code_div16_less Let_def)
  qed (use True in \<open>simp add: escape_char_def\<close>)
next
  case False
  then have "c \<noteq> CHR 0x25" "c \<noteq> CHR ''+'' \<or> mode \<noteq> encodeQueryComponent"
    by (auto simp: shouldEscape_def is_alnum_def Let_def)
  with False assms show ?thesis by (auto simp: escape_char_def)
qed

lemma unescape_escape:
  "mode \<noteq> encodeHost \<Longrightarrow> mode \<noteq> encodeZone \<Longrightarrow> url_unescape mode (url_escape s mode) = Some s"
  by (induction s) (simp_all add: url_escape_def unescape_escape_char)

lemma query_unescape_escape [simp]:
  "url_unescape encodeQueryComponent (url_escape s encodeQueryComponent) = Some s"
  by (simp add: unescape_escape)

text \<open>The characters of an encoded string: the percent sign, the plus sign of a query, and those the
  component keeps.\<close>

lemma upperhex_alnum: "n < 16 \<Longrightarrow> is_alnum (upperhex n)"
  by (auto simp: upperhex_def is_alnum_def Let_def)

lemma escape_charset:
  assumes "x \<in> set (url_escape s mode)"
  shows "\<not> shouldEscape x mode \<or> x = CHR 0x25 \<or> x = CHR ''+'' \<and> mode = encodeQueryComponent"
proof -
  have "is_alnum (upperhex (code c div 16))" "is_alnum (upperhex (code c mod 16))" for c :: char
    by (simp_all add: upperhex_alnum code_div16_less)
  then have "\<not> shouldEscape (upperhex (code c div 16)) mode" "\<not> shouldEscape (upperhex (code c mod 16)) mode" for c :: char
    by (simp_all add: shouldEscape_def)
  with assms show ?thesis
    by (auto simp: url_escape_def escape_char_def split: if_splits)
qed

lemma query_escape_plain:
  assumes "x \<in> set (url_escape s encodeQueryComponent)"
  shows "x \<noteq> CHR ''&'' \<and> x \<noteq> CHR ''='' \<and> x \<noteq> CHR '';''"
  using escape_charset[OF assms] by (auto simp: shouldEscape_def is_alnum_def Let_def)

lemma index_byte_first: "c \<notin> set x \<Longrightarrow> index_byte (x @ c # y) c = Some (length x)"
  by (induction x) auto

lemma query_pair_encode [simp]: "query_pair (encode_pair p) = [p]"
proof -
  let ?k = "url_escape (fst p) encodeQueryComponent"
  let ?v = "url_escape (snd p) encodeQueryComponent"
  have "CHR '';'' \<notin> set (encode_pair p)" and ne: "CHR ''='' \<notin> set ?k"
    using query_escape_plain[of _ "fst p"] query_escape_plain[of _ "snd p"]
    by (auto simp: encode_pair_def)
  moreover have "strings_Cut (encode_pair p) (CHR ''='') = (?k, ?v, True)"
    using index_byte_first[OF ne] by (simp add: strings_Cut_def encode_pair_def)
  ultimately show ?thesis by (simp add: query_pair_def) (simp add: encode_pair_def)
qed

lemma ParseQuery_Encode: "ParseQuery (Values_Encode q) = sort_key fst q"
proof (cases "q = []")
  case True
  then show ?thesis by (simp add: ParseQuery_def Values_Encode_def query_pair_def)
next
  case False
  let ?ws = "map encode_pair (sort_key fst q)"
  have "sort_key fst q \<noteq> []" using False by (metis length_0_conv length_sort)
  moreover have "\<forall>w \<in> set ?ws. CHR ''&'' \<notin> set w"
    using query_escape_plain by (auto simp: encode_pair_def)
  ultimately have "split_on (CHR ''&'') (join_with (CHR ''&'') ?ws) = ?ws"
    by (intro split_join) auto
  then show ?thesis by (simp add: ParseQuery_def Values_Encode_def comp_def concat_map_singleton)
qed

lemma Values_Encode_ParseQuery_idem:
  "Values_Encode (ParseQuery (Values_Encode q)) = Values_Encode q"
  by (simp add: ParseQuery_Encode) (simp add: Values_Encode_def sort_key_id_if_sorted)

end
