(* ===== verification/CrawlerTypes.thy ===== *)
theory CrawlerTypes
  imports GoPath GoUrl
begin

text \<open>
  Package internal/crawler: the data shared by every subsystem (types.go and the queue item of
  interfaces.go) and URL normalisation (url.go). Field names carry a prefix where two Go structs
  use the same name. A nil-able Go map is an option of an association list with distinct keys.
\<close>

subsection \<open>Job data\<close>

datatype JobStatus =
  JobStatusQueued | JobStatusRunning | JobStatusSucceeded | JobStatusFailed | JobStatusCanceled

fun JobStatus_string :: "JobStatus \<Rightarrow> bytes" where
  "JobStatus_string JobStatusQueued = ''queued''"
| "JobStatus_string JobStatusRunning = ''running''"
| "JobStatus_string JobStatusSucceeded = ''succeeded''"
| "JobStatus_string JobStatusFailed = ''failed''"
| "JobStatus_string JobStatusCanceled = ''canceled''"

record JobParameters =
  URLs :: "bytes list"
  MaxDepth :: int
  MaxPages :: int
  BudgetSeconds :: int
  HeadlessAllowed :: bool
  HeadlessProvided :: bool
  RespectRobots :: bool
  RespectRobotsProvided :: bool
  PerDomainCaps :: "(bytes \<times> int) list option"
  Tags :: "(bytes \<times> bytes) list option"
  AllowDomains :: "bytes list"
  DenyDomains :: "bytes list"

record JobCounters =
  PagesSucceeded :: int
  PagesFailed :: int
  Retries :: int

definition zero_counters :: JobCounters where
  "zero_counters = \<lparr>PagesSucceeded = 0, PagesFailed = 0, Retries = 0\<rparr>"

record Job =
  job_ID :: bytes
  job_Status :: JobStatus
  job_Submitted :: timestamp
  job_Started :: "timestamp option"
  job_Finished :: "timestamp option"
  job_ErrorText :: bytes
  job_Parameters :: JobParameters
  job_Counters :: JobCounters

subsection \<open>Pages, retrievals, fetches\<close>

type_synonym http_header = "(bytes \<times> bytes list) list option"

record PageRecord =
  page_ID :: bytes
  page_JobID :: bytes
  page_JobStartedAt :: timestamp
  page_URL :: bytes
  page_StatusCode :: int
  page_UsedHeadless :: bool
  page_FetchedAt :: timestamp
  page_DurationMs :: int
  page_ContentHash :: bytes
  page_Headers :: http_header
  page_BlobURI :: bytes
  page_Metrics :: "(bytes \<times> int) list option"

record RetrievalRecord =
  rr_ID :: bytes
  rr_JobID :: bytes
  rr_JobStartedAt :: timestamp
  rr_URL :: bytes
  rr_Hash :: bytes
  rr_BlobURI :: bytes
  rr_Headers :: http_header
  rr_StatusCode :: int
  rr_ContentType :: bytes
  rr_SizeBytes :: int
  rr_RetrievedAt :: timestamp
  rr_PartitionTS :: timestamp
  rr_ParentID :: "bytes option"
  rr_ParentTimestamp :: "timestamp option"

record FetchRequest =
  req_JobID :: bytes
  req_JobStartedAt :: timestamp
  req_URL :: bytes
  req_Depth :: int
  req_UseHeadless :: bool
  req_Headers :: http_header
  req_RespectRobots :: bool
  req_RespectRobotsProvided :: bool

datatype RobotsStatus = RobotsStatusUnknown | RobotsStatusIndeterminate

record FetchResponse =
  resp_URL :: bytes
  resp_StatusCode :: int
  resp_Headers :: http_header
  resp_Body :: bytes
  resp_Duration :: duration
  resp_UsedHeadless :: bool
  resp_Screenshot :: bytes
  resp_JobID :: bytes
  resp_JobStartedAt :: timestamp
  resp_RobotsStatus :: RobotsStatus
  resp_RobotsReason :: bytes

definition zero_FetchResponse :: FetchResponse where
  "zero_FetchResponse =
     \<lparr>resp_URL = '''', resp_StatusCode = 0, resp_Headers = None, resp_Body = '''',
      resp_Duration = 0, resp_UsedHeadless = False, resp_Screenshot = '''', resp_JobID = '''',
      resp_JobStartedAt = 0, resp_RobotsStatus = RobotsStatusUnknown, resp_RobotsReason = ''''\<rparr>"

record JobResult =
  res_Job :: Job
  res_Pages :: "PageRecord list"

record QueueItem =
  item_JobID :: bytes
  item_JobStartedAt :: timestamp
  item_Params :: JobParameters
  item_Attempt :: int
  item_Submitted :: int

subsection \<open>URL normalisation\<close>

text \<open>The field updates of \<^verbatim>\<open>NormalizeURL\<close>, between parsing and printing.\<close>

definition normalize_fields :: "(rune \<Rightarrow> rune) \<Rightarrow> url \<Rightarrow> url" where
  "normalize_fields tab u0 =
     (let u1 = u0\<lparr>Scheme := strings_ToLower tab (Scheme u0)\<rparr>;
          u2 = u1\<lparr>Host := strings_ToLower tab (Host u1)\<rparr>;
          u3 = (if Scheme u2 = ''http'' \<and> strings_HasSuffix (Host u2) '':80''
                then u2\<lparr>Host := strings_TrimSuffix (Host u2) '':80''\<rparr> else u2);
          u4 = (if Scheme u3 = ''https'' \<and> strings_HasSuffix (Host u3) '':443''
                then u3\<lparr>Host := strings_TrimSuffix (Host u3) '':443''\<rparr> else u3);
          u5 = u4\<lparr>Fragment := ''''\<rparr>
      in u5\<lparr>RawQuery := Values_Encode (url_Query u5)\<rparr>)"

text \<open>\<open>None\<close> is the parse error, which the callers only log.\<close>

definition NormalizeURL :: "(rune \<Rightarrow> rune) \<Rightarrow> bytes \<Rightarrow> bytes option" where
  "NormalizeURL tab rawURL =
     (case url_Parse rawURL of
        None \<Rightarrow> None
      | Some u \<Rightarrow> Some (url_String (normalize_fields tab u)))"

subsection \<open>Lemmas on normalisation\<close>

lemma normalize_fields_simps [simp]:
  "Scheme (normalize_fields tab u) = strings_ToLower tab (Scheme u)"
  "Fragment (normalize_fields tab u) = ''''"
  "RawQuery (normalize_fields tab u) = Values_Encode (url_Query u)"
  "Path (normalize_fields tab u) = Path u" "RawPath (normalize_fields tab u) = RawPath u"
  "User (normalize_fields tab u) = User u" "Opaque (normalize_fields tab u) = Opaque u"
  "OmitHost (normalize_fields tab u) = OmitHost u"
  "ForceQuery (normalize_fields tab u) = ForceQuery u"
  "RawFragment (normalize_fields tab u) = RawFragment u"
  by (simp_all add: normalize_fields_def url_Query_def Let_def)

definition default_port :: "bytes \<Rightarrow> bytes" where
  "default_port scheme =
     (if scheme = ''http'' then '':80'' else if scheme = ''https'' then '':443'' else '''')"

lemma Host_normalize_fields:
  "Host (normalize_fields tab u) =
     (let h = strings_ToLower tab (Host u); s = strings_ToLower tab (Scheme u)
      in strings_TrimSuffix h (default_port s))"
  by (simp add: normalize_fields_def url_Query_def Let_def default_port_def strings_TrimSuffix_def)

lemma set_TrimSuffix_ascii: "is_ascii s \<Longrightarrow> is_ascii (strings_TrimSuffix s p)"
  by (auto simp: is_ascii_def strings_TrimSuffix_def dest: in_set_takeD)

lemma strings_ToLower_fix:
  "is_ascii s \<Longrightarrow> strings_ToLower tab (strings_TrimSuffix (strings_ToLower tab s) p)
     = strings_TrimSuffix (strings_ToLower tab s) p"
  by (simp add: strings_ToLower_ascii set_TrimSuffix_ascii)
     (simp add: strings_TrimSuffix_def take_map comp_def)

lemma url_Query_normalize_fields: "url_Query (normalize_fields tab u) = sort_key fst (url_Query u)"
  by (simp add: url_Query_def[of "normalize_fields tab u"] ParseQuery_Encode)

text \<open>
  Normalising twice is normalising once, provided the host that is left does not end in the
  scheme's default port a second time (the URL grammar of Go accepts a host such as
  \<^verbatim>\<open>a:80:80\<close>).
\<close>

lemma normalize_fields_idem:
  assumes "is_ascii (Scheme u)" "is_ascii (Host u)"
    and "default_port (strings_ToLower tab (Scheme u)) \<noteq> '''' \<Longrightarrow>
      \<not> suffix (default_port (strings_ToLower tab (Scheme u))) (Host (normalize_fields tab u))"
  shows "normalize_fields tab (normalize_fields tab u) = normalize_fields tab u"
proof -
  let ?v = "normalize_fields tab u"
  have s: "strings_ToLower tab (Scheme ?v) = Scheme ?v"
    using assms(1) by (simp add: strings_ToLower_idem_ascii)
  have l: "strings_ToLower tab (Host ?v) = Host ?v"
    using assms(2) by (simp add: Host_normalize_fields Let_def strings_ToLower_fix)
  have "Host (normalize_fields tab ?v) = Host ?v"
    using assms(3) s l
    by (cases "default_port (strings_ToLower tab (Scheme u)) = []")
      (simp_all add: Host_normalize_fields[of tab ?v] Let_def strings_TrimSuffix_def)
  then show ?thesis
    using s by (intro url.equality)
      (simp_all add: url_Query_normalize_fields Values_Encode_def sort_key_id_if_sorted)
qed

end
