(* ===== verification/Progress.thy ===== *)
theory Progress
  imports CrawlerTypes
begin

text \<open>
  Progress events (internal/progress/event.go): the event record, its validation, and the coarse
  grouping of HTTP status codes. \<^verbatim>\<open>Stage\<close> and \<^verbatim>\<open>StatusClass\<close> are Go string types, so they are byte
  strings here; a job identifier is 16 bytes.
\<close>

type_synonym uuid = bytes
type_synonym Stage = bytes
type_synonym StatusClass = bytes

abbreviation StageJobStart :: Stage where "StageJobStart \<equiv> ''JOB_START''"
abbreviation StageJobHB :: Stage where "StageJobHB \<equiv> ''JOB_HEARTBEAT''"
abbreviation StageJobDone :: Stage where "StageJobDone \<equiv> ''JOB_DONE''"
abbreviation StageJobError :: Stage where "StageJobError \<equiv> ''JOB_ERROR''"
abbreviation StageFetchStart :: Stage where "StageFetchStart \<equiv> ''FETCH_START''"
abbreviation StageFetchDone :: Stage where "StageFetchDone \<equiv> ''FETCH_DONE''"

abbreviation Status2xx :: StatusClass where "Status2xx \<equiv> ''2xx''"
abbreviation Status3xx :: StatusClass where "Status3xx \<equiv> ''3xx''"
abbreviation Status4xx :: StatusClass where "Status4xx \<equiv> ''4xx''"
abbreviation Status5xx :: StatusClass where "Status5xx \<equiv> ''5xx''"
abbreviation StatusOther :: StatusClass where "StatusOther \<equiv> ''other''"

definition uuid_Nil :: uuid where
  "uuid_Nil = replicate 16 (CHR 0x00)"

record Event =
  evt_JobID :: uuid
  evt_TS :: timestamp
  evt_Stage :: Stage
  evt_Site :: bytes
  evt_URL :: bytes
  evt_Bytes :: int
  evt_Visits :: int
  evt_StatusClass :: StatusClass
  evt_Dur :: duration
  evt_Note :: bytes

text \<open>The zero value of the struct with the given identifier, time and stage.\<close>

definition new_Event :: "uuid \<Rightarrow> timestamp \<Rightarrow> Stage \<Rightarrow> Event" where
  "new_Event i t st = \<lparr>evt_JobID = i, evt_TS = t, evt_Stage = st, evt_Site = '''', evt_URL = '''',
     evt_Bytes = 0, evt_Visits = 0, evt_StatusClass = '''', evt_Dur = 0, evt_Note = ''''\<rparr>"

definition Validate_duration :: "Event \<Rightarrow> unit result" where
  "Validate_duration e =
     (if evt_Dur e < 0 then Inl (ErrorString ''duration must be >= 0'') else Inr ())"

definition Event_Validate :: "Event \<Rightarrow> unit result" where
  "Event_Validate e =
     (if evt_JobID e = uuid_Nil then Inl (ErrorString ''job id is required'')
      else if time_IsZero (evt_TS e) then Inl (ErrorString ''timestamp is required'')
      else if evt_Stage e \<in> {StageJobStart, StageJobHB, StageJobDone, StageJobError}
      then Validate_duration e
      else if evt_Stage e = StageFetchStart then
        (if evt_Site e = '''' then Inl (ErrorString ''fetch start requires site'')
         else Validate_duration e)
      else if evt_Stage e = StageFetchDone then
        (if evt_Site e = '''' then Inl (ErrorString ''fetch done requires site'')
         else if evt_StatusClass e = '''' then Inl (ErrorString ''fetch done requires status class'')
         else Validate_duration e)
      else Inl (ErrorString (''unknown stage '' @ [CHR 0x22] @ evt_Stage e @ [CHR 0x22])))"

definition JobUUID :: "Event \<Rightarrow> uuid" where
  "JobUUID e = evt_JobID e"

definition UUIDToBytes :: "uuid \<Rightarrow> uuid" where
  "UUIDToBytes i = take 16 i @ replicate (16 - length i) (CHR 0x00)"

definition ClassifyStatus :: "int \<Rightarrow> StatusClass" where
  "ClassifyStatus c =
     (if 200 \<le> c \<and> c < 300 then Status2xx
      else if 300 \<le> c \<and> c < 400 then Status3xx
      else if 400 \<le> c \<and> c < 500 then Status4xx
      else if 500 \<le> c \<and> c < 600 then Status5xx
      else StatusOther)"

lemma UUIDToBytes_id [simp]: "length i = 16 \<Longrightarrow> UUIDToBytes i = i"
  by (simp add: UUIDToBytes_def)

lemma Validate_ok_iff:
  "Event_Validate e = Inr () \<longleftrightarrow>
     evt_JobID e \<noteq> uuid_Nil \<and> evt_TS e \<noteq> 0 \<and> 0 \<le> evt_Dur e
     \<and> (evt_Stage e \<in> {StageJobStart, StageJobHB, StageJobDone, StageJobError}
        \<or> evt_Stage e = StageFetchStart \<and> evt_Site e \<noteq> ''''
        \<or> evt_Stage e = StageFetchDone \<and> evt_Site e \<noteq> '''' \<and> evt_StatusClass e \<noteq> '''')"
  by (auto simp: Event_Validate_def Validate_duration_def time_IsZero_def split: if_splits)

lemma ClassifyStatus_nonempty [simp]: "ClassifyStatus c \<noteq> ''''"
  by (simp add: ClassifyStatus_def)

lemma ClassifyStatus_other_iff: "ClassifyStatus c = StatusOther \<longleftrightarrow> c < 200 \<or> 600 \<le> c"
  by (auto simp: ClassifyStatus_def)

end
