(* ===== verification/GoJson.thy ===== *)
theory GoJson
  imports GoUrl
begin

text \<open>
  The part of encoding/json the crawler relies on: \<^verbatim>\<open>json.Marshal\<close> of strings, integers, string
  lists and maps with string keys. Strings are escaped the way the package does with HTML escaping
  on (the default of \<^verbatim>\<open>Marshal\<close>): quotes, backslashes, control bytes, the three HTML characters,
  invalid UTF-8 and the two line separators. Map keys come out in bytewise order; a nil slice is
  null. A printed value can be read back: see \<open>JsonReader\<close>.
\<close>

subsection \<open>Strings\<close>

definition hex_digit :: "nat \<Rightarrow> char" where
  "hex_digit n = (if n < 10 then byte (48 + n) else byte (87 + n))"

definition json_ascii :: "nat \<Rightarrow> bytes" where
  "json_ascii b =
     (if b = 92 \<or> b = 34 then [CHR 0x5C, byte b]
      else if b = 8 then [CHR 0x5C, CHR ''b'']
      else if b = 12 then [CHR 0x5C, CHR ''f'']
      else if b = 10 then [CHR 0x5C, CHR ''n'']
      else if b = 13 then [CHR 0x5C, CHR ''r'']
      else if b = 9 then [CHR 0x5C, CHR ''t'']
      else if b < 32 \<or> b = 60 \<or> b = 62 \<or> b = 38
      then CHR 0x5C # ''u00'' @ [hex_digit (b div 16), hex_digit (b mod 16)]
      else [byte b])"

function json_escape :: "bytes \<Rightarrow> bytes" where
  "json_escape s =
     (if s = [] then []
      else let (r, n) = decode_rune s; rest = drop n s in
        (if r < 128 \<and> n = 1 then json_ascii r
         else if r = RuneError \<and> n = 1 then CHR 0x5C # ''ufffd''
         else if r = 8232 then CHR 0x5C # ''u2028''
         else if r = 8233 then CHR 0x5C # ''u2029''
         else take n s) @ json_escape rest)"
  by pat_completeness auto
termination
proof (relation "measure length", goal_cases)
  case (2 s x r n rest)
  then have "0 < n" using decode_rune_width[of s] by (metis snd_conv)
  with 2 show ?case by simp
qed simp

declare json_escape.simps [simp del]

definition json_string :: "bytes \<Rightarrow> bytes" where
  "json_string s = CHR 0x22 # json_escape s @ [CHR 0x22]"

subsection \<open>Values\<close>

text \<open>\<open>JNum\<close> is a number whose literal is not that of an integer.\<close>

datatype json =
    JNull
  | JBool bool
  | JInt int
  | JNum bytes
  | JStr bytes
  | JArr "json list"
  | JObj "(bytes \<times> json) list"

fun comma_join :: "bytes list \<Rightarrow> bytes" where
  "comma_join [] = []"
| "comma_join [x] = x"
| "comma_join (x # y # xs) = x @ CHR '','' # comma_join (y # xs)"

text \<open>An object is printed in the order of its list: struct fields in declaration order; the
  constructor of map values sorts.\<close>

fun Marshal :: "json \<Rightarrow> bytes" where
  "Marshal JNull = ''null''"
| "Marshal (JBool b) = (if b then ''true'' else ''false'')"
| "Marshal (JInt i) = strconv_Itoa i"
| "Marshal (JNum lit) = lit"
| "Marshal (JStr s) = json_string s"
| "Marshal (JArr vs) = CHR ''['' # comma_join (map Marshal vs) @ '']''"
| "Marshal (JObj kvs) =
     CHR ''{'' # comma_join (map (\<lambda>(k, v). json_string k @ CHR '':'' # Marshal v) kvs) @ ''}''"

definition json_map :: "(bytes \<times> json) list \<Rightarrow> json" where
  "json_map kvs = JObj (sort_key fst kvs)"

definition json_strings :: "bytes list \<Rightarrow> json" where
  "json_strings vs = (if vs = [] then JNull else JArr (map JStr vs))"

subsection \<open>Reading a printed string back\<close>

definition hex_value :: "char \<Rightarrow> nat" where
  "hex_value c = (if code c < (58::nat) then code c - 48 else code c - 87)"

text \<open>What a reader of JSON makes of the bytes between the quotes.\<close>

fun json_unescape :: "bytes \<Rightarrow> bytes" where
  "json_unescape [] = []"
| "json_unescape (c # s) =
     (if c \<noteq> CHR 0x5C then c # json_unescape s
      else case s of
          [] \<Rightarrow> []
        | d # t \<Rightarrow>
            if d = CHR ''b'' then CHR 0x08 # json_unescape t
            else if d = CHR ''f'' then CHR 0x0C # json_unescape t
            else if d = CHR ''n'' then CHR 0x0A # json_unescape t
            else if d = CHR ''r'' then CHR 0x0D # json_unescape t
            else if d = CHR ''t'' then CHR 0x09 # json_unescape t
            else if d = CHR ''u'' then
              (case t of
                 a # b # x # y # u \<Rightarrow>
                   encode_rune (((hex_value a * 16 + hex_value b) * 16 + hex_value x) * 16 + hex_value y)
                   @ json_unescape u
               | _ \<Rightarrow> [])
            else d # json_unescape t)"

lemma of_char_digit [simp]: "n < 16 \<Longrightarrow> code (hex_digit n) = (if n < 10 then 48 + n else 87 + n)"
  by (simp add: hex_digit_def)

lemma hex_value_digit [simp]: "n < 16 \<Longrightarrow> hex_value (hex_digit n) = n"
  by (simp add: hex_value_def)

lemma json_ascii_read:
  assumes "b < 128"
  shows "json_unescape (json_ascii b @ t) = byte b # json_unescape t"
proof (cases "b \<noteq> 8 \<and> b \<noteq> 9 \<and> b \<noteq> 10 \<and> b \<noteq> 12 \<and> b \<noteq> 13 \<and> (b < 32 \<or> b = 60 \<or> b = 62 \<or> b = 38)")
  case True
  have zero: "hex_value (CHR ''0'') = 0" by (simp add: hex_value_def)
  have "b div 16 < 16" "b mod 16 < 16" using assms by simp_all
  then have "((hex_value CHR ''0'' * 16 + hex_value CHR ''0'') * 16 + hex_value (hex_digit (b div 16))) * 16
      + hex_value (hex_digit (b mod 16)) = b"
    by (simp add: zero)
  moreover have "json_ascii b = CHR 0x5C # ''u00'' @ [hex_digit (b div 16), hex_digit (b mod 16)]"
    using True by (auto simp: json_ascii_def)
  ultimately show ?thesis
    using assms by (simp add: encode_rune_def Let_def)
next
  case False
  then consider "b = 92" | "b = 34" | "b = 8" | "b = 9" | "b = 10" | "b = 12" | "b = 13"
    | "32 \<le> b" "b \<noteq> 92" "b \<noteq> 34" "b \<noteq> 60" "b \<noteq> 62" "b \<noteq> 38"
    by linarith
  then show ?thesis
  proof cases
    case 8
    have "code (byte b) \<noteq> (code (CHR 0x5C) :: nat)"
      using 8 assms by simp
    then have "byte b \<noteq> CHR 0x5C" by metis
    then show ?thesis using 8 by (simp add: json_ascii_def)
  qed (simp_all add: json_ascii_def char_of_def bit_0)
qed

end
