(* ===== verification/Worker.thy ===== *)
theory Worker
  imports Progress GoJson "HOL-Library.State_Monad"
begin

text \<open>
  The crawl pipeline of internal/worker/worker.go. The services a worker holds (stores, publisher,
  fetchers, policy, clock, ...) are the operations of a record over an arbitrary world type; the
  worker's methods are programs of the state monad over that world, in the order of the source.

  Three fields stand for the Go runtime: \<open>CtxErr\<close> is \<^verbatim>\<open>ctx.Err()\<close>, \<open>SysNow\<close> the clock that
  \<^verbatim>\<open>context.WithTimeout\<close> reads, and \<open>SleepOrDone\<close> the select between \<^verbatim>\<open>ctx.Done()\<close> and
  \<^verbatim>\<open>time.After\<close>. \<open>ParseUUID\<close> stands for the parser of github.com/google/uuid and \<open>w_tab\<close> for the
  Unicode case table. An interface that the code compares with nil is an option; logging and tracing
  spans have no effect on the world and are left out.
\<close>

subsection \<open>Errors in the state monad\<close>

text \<open>\<^verbatim>\<open>x, err := m; if err != nil { return wrap(err) }\<close>, then the rest with the value.\<close>

definition check_err ::
    "('w, 'a result) state \<Rightarrow> (error \<Rightarrow> error) \<Rightarrow> ('a \<Rightarrow> ('w, 'b result) state) \<Rightarrow> ('w, 'b result) state" where
  "check_err m wrap k = do {
     r \<leftarrow> m;
     (case r of Inl e \<Rightarrow> State_Monad.return (Inl (wrap e)) | Inr x \<Rightarrow> k x)
   }"

definition when_do :: "bool \<Rightarrow> ('w, unit) state \<Rightarrow> ('w, unit) state" where
  "when_do b m = (if b then m else State_Monad.return ())"

subsection \<open>Configuration and services\<close>

record Config =
  ContentType :: bytes
  BlobPrefix :: bytes
  Topic :: bytes
  JobTimeout :: duration
  RequestTimeout :: duration
  MaxRetries :: int
  RetryBackoffBase :: duration

definition New_config :: "Config \<Rightarrow> Config" where
  "New_config cfg =
     (let cfg = (if ContentType cfg = '''' then cfg\<lparr>ContentType := ''text/html; charset=utf-8''\<rparr> else cfg);
          cfg = (if RequestTimeout cfg \<le> 0 then cfg\<lparr>RequestTimeout := 15 * Second\<rparr> else cfg);
          cfg = (if JobTimeout cfg \<le> 0 then cfg\<lparr>JobTimeout := RequestTimeout cfg\<rparr> else cfg);
          cfg = (if MaxRetries cfg \<le> 0 then cfg\<lparr>MaxRetries := 3\<rparr> else cfg)
      in if RetryBackoffBase cfg \<le> 0 then cfg\<lparr>RetryBackoffBase := 1 * Second\<rparr> else cfg)"

type_synonym payload = "(bytes \<times> bytes) list"

record 'w JobStoreOps =
  js_UpdateJobStatus :: "ctx \<Rightarrow> bytes \<Rightarrow> JobStatus \<Rightarrow> bytes \<Rightarrow> JobCounters \<Rightarrow> ('w, unit result) state"
  js_RecordPage :: "ctx \<Rightarrow> PageRecord \<Rightarrow> ('w, unit result) state"

record 'w PolicyOps =
  AllowFetch :: "bytes \<Rightarrow> bytes \<Rightarrow> int \<Rightarrow> ('w, bool) state"
  AllowHeadless :: "bytes \<Rightarrow> bytes \<Rightarrow> int \<Rightarrow> ('w, bool) state"
  policy_Wait :: "ctx \<Rightarrow> bytes \<Rightarrow> ('w, unit result) state"

record 'w Worker =
  queue_Dequeue :: "ctx \<Rightarrow> ('w, QueueItem result) state"
  jobStore :: "'w JobStoreOps option"
  blob_PutObject :: "ctx \<Rightarrow> bytes \<Rightarrow> bytes \<Rightarrow> bytes \<Rightarrow> ('w, bytes result) state"
  StoreRetrieval :: "(ctx \<Rightarrow> RetrievalRecord \<Rightarrow> ('w, unit result) state) option"
  Publish :: "(ctx \<Rightarrow> bytes \<Rightarrow> payload \<Rightarrow> ('w, bytes result) state) option"
  Hash :: "bytes \<Rightarrow> ('w, bytes result) state"
  clock_Now :: "('w, timestamp) state"
  probeFetcher :: "(ctx \<Rightarrow> FetchRequest \<Rightarrow> ('w, FetchResponse result) state) option"
  headlessFetcher :: "(ctx \<Rightarrow> FetchRequest \<Rightarrow> ('w, FetchResponse result) state) option"
  detector :: "(FetchResponse \<Rightarrow> bool) option"
  policy :: "'w PolicyOps option"
  NewID :: "('w, bytes result) state option"
  w_cfg :: Config
  Emit :: "(Event \<Rightarrow> ('w, unit) state) option"
  tele_ObserveCrawl :: "bytes \<Rightarrow> bytes \<Rightarrow> int \<Rightarrow> ('w, unit) state"
  tele_ObserveJob :: "bytes \<Rightarrow> ('w, unit) state"
  tele_IncActiveWorkers :: "('w, unit) state"
  tele_DecActiveWorkers :: "('w, unit) state"
  CtxErr :: "ctx \<Rightarrow> ('w, error option) state"
  SysNow :: "('w, timestamp) state"
  SleepOrDone :: "ctx \<Rightarrow> duration \<Rightarrow> ('w, error option) state"
  ParseUUID :: "bytes \<Rightarrow> uuid option"
  w_tab :: "rune \<Rightarrow> rune"

subsection \<open>Pure helpers\<close>

definition extractHost :: "bytes \<Rightarrow> bytes" where
  "extractHost rawURL =
     (case url_Parse rawURL of
        None \<Rightarrow> ''unknown''
      | Some u \<Rightarrow> if Host u = '''' then ''unknown'' else Host u)"

definition sanitize_rune :: "rune \<Rightarrow> char" where
  "sanitize_rune r =
     (if 97 \<le> r \<and> r \<le> 122 then byte r
      else if 48 \<le> r \<and> r \<le> 57 then byte r
      else if r = 46 \<or> r = 45 then byte r
      else if r = 58 then CHR ''_''
      else CHR ''-'')"

definition sanitizeHost :: "(rune \<Rightarrow> rune) \<Rightarrow> bytes \<Rightarrow> bytes" where
  "sanitizeHost tab host =
     (let host = strings_ToLower tab (strings_TrimSpace host) in
      if host = '''' then ''unknown''
      else let result = strings_Trim (map sanitize_rune (runes host)) ''-_'' in
           if result = '''' then ''unknown'' else result)"

definition buildBlobPath :: "(rune \<Rightarrow> rune) \<Rightarrow> Config \<Rightarrow> timestamp \<Rightarrow> bytes \<Rightarrow> bytes \<Rightarrow> bytes" where
  "buildBlobPath tab cfg ts host pageID =
     (let prefix = strings_Trim (BlobPrefix cfg) ''/'';
          hostSegment = ''host='' @ sanitizeHost tab host;
          idSegment = ''id='' @ pageID;
          datePath = format_yyyymm ts @ ''/'' @ format_dd ts @ ''/'' @ format_hh ts;
          base = datePath @ ''/'' @ hostSegment @ ''/'' @ idSegment
      in if prefix = '''' then base else path_Join [prefix, base])"

definition normalizeHeaders :: "http_header \<Rightarrow> (bytes \<times> bytes list) list" where
  "normalizeHeaders h = (case h of None \<Rightarrow> [] | Some kvs \<Rightarrow> kvs)"

definition contentTypeFromResponse :: "FetchResponse \<Rightarrow> bytes \<Rightarrow> bytes" where
  "contentTypeFromResponse resp fallback =
     (case resp_Headers resp of
        None \<Rightarrow> fallback
      | Some h \<Rightarrow>
          (case map_of h ''Content-Type'' of
             Some (ct # _) \<Rightarrow> if ct \<noteq> '''' then ct else fallback
           | _ \<Rightarrow> fallback))"

fun stageFromStatus :: "JobStatus \<Rightarrow> Stage" where
  "stageFromStatus JobStatusSucceeded = StageJobDone"
| "stageFromStatus JobStatusFailed = StageJobError"
| "stageFromStatus JobStatusCanceled = StageJobError"
| "stageFromStatus _ = ''''"

definition parseJobUUID :: "'w Worker \<Rightarrow> bytes \<Rightarrow> uuid \<times> bool" where
  "parseJobUUID W jobID =
     (if jobID = '''' then (uuid_Nil, False)
      else case ParseUUID W jobID of None \<Rightarrow> (uuid_Nil, False) | Some i \<Rightarrow> (i, True))"

text \<open>\<^verbatim>\<open>Duration.Milliseconds\<close> truncates toward zero, \<^verbatim>\<open>Time.Sub\<close> saturates.\<close>

definition Milliseconds :: "duration \<Rightarrow> int" where
  "Milliseconds d = (if d < 0 then - ((- d) div Millisecond) else d div Millisecond)"

definition time_Sub :: "timestamp \<Rightarrow> timestamp \<Rightarrow> duration" where
  "time_Sub t u = max (- (2 ^ 63)) (min (2 ^ 63 - 1) (t - u))"

subsection \<open>Contexts\<close>

definition WithTimeout :: "'w Worker \<Rightarrow> ctx \<Rightarrow> duration \<Rightarrow> ('w, ctx) state" where
  "WithTimeout W parent d = do { t \<leftarrow> SysNow W; State_Monad.return (WithDeadline parent (t + d)) }"

definition jobContext :: "'w Worker \<Rightarrow> ctx \<Rightarrow> JobParameters \<Rightarrow> ('w, ctx) state" where
  "jobContext W parent params =
     (let budget = i64 (BudgetSeconds params * Second);
          budget = (if budget \<le> 0 then JobTimeout (w_cfg W) else budget)
      in if 0 < budget then WithTimeout W parent budget else State_Monad.return parent)"

definition pageContext :: "'w Worker \<Rightarrow> ctx \<Rightarrow> ('w, ctx) state" where
  "pageContext W parent =
     (if 0 < RequestTimeout (w_cfg W) then WithTimeout W parent (RequestTimeout (w_cfg W))
      else State_Monad.return parent)"

definition statusContext :: "'w Worker \<Rightarrow> ('w, ctx) state" where
  "statusContext W = WithTimeout W Background (5 * Second)"

definition updateJobStatus ::
    "'w Worker \<Rightarrow> bytes \<Rightarrow> JobStatus \<Rightarrow> bytes \<Rightarrow> JobCounters \<Rightarrow> ('w, unit result) state" where
  "updateJobStatus W jobID status errText counters =
     (case jobStore W of
        None \<Rightarrow> State_Monad.return (Inl (ErrorString ''job store is not configured''))
      | Some js \<Rightarrow> do {
          updateCtx \<leftarrow> statusContext W;
          check_err (js_UpdateJobStatus js updateCtx jobID status errText counters)
            (Wrapped ''update job status'') (\<lambda>_. State_Monad.return (Inr ()))
        })"

subsection \<open>Progress events\<close>

definition emitEvent :: "'w Worker \<Rightarrow> uuid \<Rightarrow> Stage \<Rightarrow> (Event \<Rightarrow> ('w, Event) state) \<Rightarrow> ('w, unit) state" where
  "emitEvent W jobUUID stage mutate =
     (case Emit W of
        None \<Rightarrow> State_Monad.return ()
      | Some emit \<Rightarrow>
          if stage = '''' \<or> jobUUID = uuid_Nil then State_Monad.return ()
          else do {
            t \<leftarrow> clock_Now W;
            evt \<leftarrow> mutate (new_Event (UUIDToBytes jobUUID) t stage);
            emit evt
          })"

definition emitJobCompletion ::
    "'w Worker \<Rightarrow> uuid \<Rightarrow> JobStatus \<Rightarrow> timestamp \<Rightarrow> bytes \<Rightarrow> ('w, unit) state" where
  "emitJobCompletion W jobUUID status started note =
     (let stage = stageFromStatus status in
      if stage = '''' then State_Monad.return ()
      else emitEvent W jobUUID stage (\<lambda>evt. do {
        t \<leftarrow> clock_Now W;
        let evt = evt\<lparr>evt_Dur := time_Sub t started\<rparr>;
        State_Monad.return (if note \<noteq> '''' then evt\<lparr>evt_Note := note\<rparr> else evt)
      }))"

definition emitFetchEvent :: "'w Worker \<Rightarrow> uuid \<Rightarrow> bytes \<Rightarrow> FetchResponse \<Rightarrow> ('w, unit) state" where
  "emitFetchEvent W jobUUID url resp =
     (let site = extractHost url in
      emitEvent W jobUUID StageFetchDone (\<lambda>evt. State_Monad.return
        (evt\<lparr>evt_Site := site, evt_URL := url, evt_Bytes := int (length (resp_Body resp)), evt_Visits := 1,
             evt_StatusClass := ClassifyStatus (resp_StatusCode resp), evt_Dur := resp_Duration resp\<rparr>)))"

definition recordPage :: "'w Worker \<Rightarrow> bytes \<Rightarrow> bool \<Rightarrow> int \<Rightarrow> ('w, unit) state" where
  "recordPage W url success n =
     tele_ObserveCrawl W url (if success then ''success'' else ''error'') n"

subsection \<open>Fetching\<close>

definition allowFetch :: "'w Worker \<Rightarrow> bytes \<Rightarrow> bytes \<Rightarrow> int \<Rightarrow> ('w, bool) state" where
  "allowFetch W jobID url depth =
     (case policy W of None \<Rightarrow> State_Monad.return True | Some p \<Rightarrow> AllowFetch p jobID url depth)"

definition allowHeadless :: "'w Worker \<Rightarrow> bytes \<Rightarrow> bytes \<Rightarrow> int \<Rightarrow> ('w, bool) state" where
  "allowHeadless W jobID url depth =
     (case policy W of None \<Rightarrow> State_Monad.return True | Some p \<Rightarrow> AllowHeadless p jobID url depth)"

definition fetch_request :: "QueueItem \<Rightarrow> bytes \<Rightarrow> bool \<Rightarrow> FetchRequest" where
  "fetch_request item url headless =
     \<lparr>req_JobID = item_JobID item, req_JobStartedAt = item_JobStartedAt item, req_URL = url, req_Depth = 0,
      req_UseHeadless = headless, req_Headers = None,
      req_RespectRobots = RespectRobots (item_Params item),
      req_RespectRobotsProvided = RespectRobotsProvided (item_Params item)\<rparr>"

text \<open>\<open>probe\<close> is the worker's probe fetcher, known to be present when a job gets this far.\<close>

definition fetchProbe ::
    "'w Worker \<Rightarrow> (ctx \<Rightarrow> FetchRequest \<Rightarrow> ('w, FetchResponse result) state) \<Rightarrow> ctx \<Rightarrow> QueueItem \<Rightarrow> bytes \<Rightarrow>
     ('w, FetchResponse result) state" where
  "fetchProbe W probe ctx item url = do {
     pageCtx \<leftarrow> pageContext W ctx;
     r \<leftarrow> probe pageCtx (fetch_request item url False);
     (case r of
        Inl e \<Rightarrow> do {
          recordPage W url False 0;
          State_Monad.return (Inl (Wrapped ''probe fetch'' e))
        }
      | Inr resp \<Rightarrow> State_Monad.return (Inr resp))
   }"

text \<open>The loop over the attempts: \<open>n\<close> attempts remain, \<open>err\<close> is the error of the previous one.\<close>

fun retry_loop ::
    "'w Worker \<Rightarrow> (ctx \<Rightarrow> FetchRequest \<Rightarrow> ('w, FetchResponse result) state) \<Rightarrow> ctx \<Rightarrow> QueueItem \<Rightarrow> bytes \<Rightarrow>
     nat \<Rightarrow> int \<Rightarrow> error option \<Rightarrow> ('w, FetchResponse result) state" where
  "retry_loop W probe ctx item url 0 attempt err =
     State_Monad.return (case err of None \<Rightarrow> Inr zero_FetchResponse | Some e \<Rightarrow> Inl e)"
| "retry_loop W probe ctx item url (Suc n) attempt err = do {
     done \<leftarrow> (if 0 < attempt then SleepOrDone W ctx (i64 (RetryBackoffBase (w_cfg W) * attempt))
              else State_Monad.return None);
     (case done of
        Some e \<Rightarrow> State_Monad.return (Inl (Wrapped ''context done'' e))
      | None \<Rightarrow> do {
          r \<leftarrow> fetchProbe W probe ctx item url;
          (case r of
             Inr resp \<Rightarrow> State_Monad.return (Inr resp)
           | Inl e \<Rightarrow>
               if errors_Is e ContextCanceled \<or> errors_Is e ContextDeadlineExceeded
               then State_Monad.return (Inl e)
               else retry_loop W probe ctx item url n (attempt + 1) (Some e))
        })
   }"

definition fetchProbeWithRetry ::
    "'w Worker \<Rightarrow> (ctx \<Rightarrow> FetchRequest \<Rightarrow> ('w, FetchResponse result) state) \<Rightarrow> ctx \<Rightarrow> QueueItem \<Rightarrow> bytes \<Rightarrow>
     ('w, FetchResponse result) state" where
  "fetchProbeWithRetry W probe ctx item url =
     retry_loop W probe ctx item url (nat (MaxRetries (w_cfg W) + 1)) 0 None"

definition maybePromote ::
    "'w Worker \<Rightarrow> ctx \<Rightarrow> QueueItem \<Rightarrow> bytes \<Rightarrow> FetchResponse \<Rightarrow> ('w, FetchResponse \<times> bool) state" where
  "maybePromote W ctx item url resp =
     (case (HeadlessAllowed (item_Params item), detector W, headlessFetcher W) of
        (True, Some shouldPromote, Some headless) \<Rightarrow> do {
          allowed \<leftarrow> allowHeadless W (item_JobID item) url 0;
          if \<not> allowed \<or> \<not> shouldPromote resp then State_Monad.return (resp, False)
          else do {
            headlessCtx \<leftarrow> pageContext W ctx;
            r \<leftarrow> headless headlessCtx (fetch_request item url True);
            (case r of
               Inl _ \<Rightarrow> State_Monad.return (resp, False)
             | Inr hr \<Rightarrow> State_Monad.return (hr\<lparr>resp_UsedHeadless := True\<rparr>, True))
          }
        }
      | _ \<Rightarrow> State_Monad.return (resp, False))"

subsection \<open>Persisting and publishing\<close>

definition newPageID :: "'w Worker \<Rightarrow> ('w, bytes result) state" where
  "newPageID W =
     (case NewID W of
        None \<Rightarrow> State_Monad.return (Inl (ErrorString ''id generator is not configured''))
      | Some gen \<Rightarrow> check_err gen (Wrapped ''generate page id'') (\<lambda>i. State_Monad.return (Inr i)))"

definition putJSON :: "'w Worker \<Rightarrow> ctx \<Rightarrow> bytes \<Rightarrow> json \<Rightarrow> ('w, bytes result) state" where
  "putJSON W ctx objectPath payload =
     check_err (blob_PutObject W ctx objectPath ''application/json'' (Marshal payload))
       (Wrapped ''put object'') (\<lambda>uri. State_Monad.return (Inr uri))"

definition headers_json :: "http_header \<Rightarrow> json" where
  "headers_json h = json_map (map (\<lambda>(k, vs). (k, json_strings vs)) (normalizeHeaders h))"

definition pageMetaPayload :: "FetchResponse \<Rightarrow> bytes \<Rightarrow> bytes \<Rightarrow> bytes \<Rightarrow> json" where
  "pageMetaPayload resp hash contentType jobID =
     JObj [(''url'', JStr (resp_URL resp)), (''status'', JInt (resp_StatusCode resp)),
           (''size'', JInt (int (length (resp_Body resp)))), (''sha256'', JStr hash),
           (''content_type'', JStr contentType), (''parent_id'', JStr ''''), (''job_uuid'', JStr jobID)]"

definition page_record ::
    "bytes \<Rightarrow> bytes \<Rightarrow> timestamp \<Rightarrow> timestamp \<Rightarrow> bytes \<Rightarrow> bytes \<Rightarrow> FetchResponse \<Rightarrow> PageRecord" where
  "page_record pageID jobID jobStartedAt storedAt hash uri resp =
     \<lparr>page_ID = pageID, page_JobID = jobID, page_JobStartedAt = jobStartedAt, page_URL = resp_URL resp,
      page_StatusCode = resp_StatusCode resp, page_UsedHeadless = resp_UsedHeadless resp,
      page_FetchedAt = storedAt, page_DurationMs = Milliseconds (resp_Duration resp),
      page_ContentHash = hash, page_Headers = resp_Headers resp, page_BlobURI = uri,
      page_Metrics = None\<rparr>"

definition retrieval_record :: "PageRecord \<Rightarrow> bytes \<Rightarrow> int \<Rightarrow> RetrievalRecord" where
  "retrieval_record page contentType sizeBytes =
     \<lparr>rr_ID = page_ID page, rr_JobID = page_JobID page, rr_JobStartedAt = page_JobStartedAt page,
      rr_URL = page_URL page, rr_Hash = page_ContentHash page, rr_BlobURI = page_BlobURI page,
      rr_Headers = page_Headers page, rr_StatusCode = page_StatusCode page, rr_ContentType = contentType,
      rr_SizeBytes = sizeBytes, rr_RetrievedAt = page_FetchedAt page,
      rr_PartitionTS = time_Truncate (page_FetchedAt page) Hour, rr_ParentID = None,
      rr_ParentTimestamp = None\<rparr>"

definition storeRetrieval :: "'w Worker \<Rightarrow> ctx \<Rightarrow> PageRecord \<Rightarrow> bytes \<Rightarrow> int \<Rightarrow> ('w, unit result) state" where
  "storeRetrieval W ctx page contentType sizeBytes =
     (case StoreRetrieval W of
        None \<Rightarrow> State_Monad.return (Inr ())
      | Some store \<Rightarrow>
          check_err (store ctx (retrieval_record page contentType sizeBytes)) (Wrapped ''store retrieval'')
            (\<lambda>_. State_Monad.return (Inr ())))"

definition publish_payload :: "bytes \<Rightarrow> bytes \<Rightarrow> bytes \<Rightarrow> bytes \<Rightarrow> bytes \<Rightarrow> bytes \<Rightarrow> payload" where
  "publish_payload pageID jobID site url htmlURI metaURI =
     [(''crawl_id'', pageID), (''job_id'', jobID), (''site'', site), (''url'', url),
      (''html_blob'', htmlURI), (''meta_blob'', metaURI), (''schema_version'', ''1'')]"

definition publishResult ::
    "'w Worker \<Rightarrow> ctx \<Rightarrow> bytes \<Rightarrow> bytes \<Rightarrow> bytes \<Rightarrow> bytes \<Rightarrow> bytes \<Rightarrow> bytes \<Rightarrow> ('w, unit result) state" where
  "publishResult W ctx jobID site url htmlURI metaURI pageID =
     (case Publish W of
        None \<Rightarrow> State_Monad.return (Inr ())
      | Some pub \<Rightarrow>
          if Topic (w_cfg W) = '''' then State_Monad.return (Inr ())
          else check_err (pub ctx (Topic (w_cfg W)) (publish_payload pageID jobID site url htmlURI metaURI))
                 (Wrapped ''publish payload'') (\<lambda>_. State_Monad.return (Inr ())))"

definition putScreenshot :: "'w Worker \<Rightarrow> ctx \<Rightarrow> bytes \<Rightarrow> bytes \<Rightarrow> ('w, unit result) state" where
  "putScreenshot W ctx basePath shot =
     (if shot = [] then State_Monad.return (Inr ())
      else check_err (blob_PutObject W ctx (path_Join [basePath, ''screenshot.png'']) ''image/png'' shot)
             (Wrapped ''put screenshot'') (\<lambda>_. State_Monad.return (Inr ())))"

text \<open>The last part of \<^verbatim>\<open>persistAndPublish\<close>, once the three text artifacts are stored: screenshot, page
  record, retrieval row, message. The job store is present: a job without one ends at its first
  status update.\<close>

definition recordAndPublish ::
    "'w Worker \<Rightarrow> 'w JobStoreOps \<Rightarrow> ctx \<Rightarrow> bytes \<Rightarrow> bytes \<Rightarrow> FetchResponse \<Rightarrow> bytes \<Rightarrow> bytes \<Rightarrow> bytes \<Rightarrow>
     PageRecord \<Rightarrow> ('w, unit result) state" where
  "recordAndPublish W js ctx jobID url resp basePath contentType metaURI page =
     check_err (putScreenshot W ctx basePath (resp_Screenshot resp)) id (\<lambda>_.
     check_err (js_RecordPage js ctx page) (Wrapped ''record page'') (\<lambda>_.
     check_err (storeRetrieval W ctx page contentType (int (length (resp_Body resp)))) id (\<lambda>_.
     publishResult W ctx jobID (extractHost (resp_URL resp)) url (page_BlobURI page) metaURI (page_ID page))))"

definition persistAndPublish ::
    "'w Worker \<Rightarrow> 'w JobStoreOps \<Rightarrow> ctx \<Rightarrow> bytes \<Rightarrow> timestamp \<Rightarrow> bytes \<Rightarrow> FetchResponse \<Rightarrow>
     ('w, unit result) state" where
  "persistAndPublish W js ctx jobID jobStartedAt url resp =
     check_err (Hash W (resp_Body resp)) (Wrapped ''hash body'') (\<lambda>hash.
     check_err (newPageID W) (Wrapped ''generate page id'') (\<lambda>pageID. do {
       storedAt \<leftarrow> clock_Now W;
       let site = extractHost (resp_URL resp);
       let basePath = buildBlobPath (w_tab W) (w_cfg W) storedAt site pageID;
       check_err (blob_PutObject W ctx (path_Join [basePath, ''raw.html'']) (ContentType (w_cfg W)) (resp_Body resp))
         (Wrapped ''put raw object'') (\<lambda>uri.
       check_err (putJSON W ctx (path_Join [basePath, ''headers.json'']) (headers_json (resp_Headers resp)))
         (Wrapped ''put headers'') (\<lambda>_. do {
         let contentType = contentTypeFromResponse resp (ContentType (w_cfg W));
         check_err (putJSON W ctx (path_Join [basePath, ''meta.json''])
             (pageMetaPayload resp hash contentType jobID))
           (Wrapped ''put meta'') (\<lambda>metaURI.
         recordAndPublish W js ctx jobID url resp basePath contentType metaURI
           (page_record pageID jobID jobStartedAt storedAt hash uri resp))
       }))
     }))"

subsection \<open>One URL, one job, the loop\<close>

text \<open>The end of \<^verbatim>\<open>handleURL\<close>: persist the final response, count the page, report it.\<close>

definition finishURL ::
    "'w Worker \<Rightarrow> 'w JobStoreOps \<Rightarrow> ctx \<Rightarrow> QueueItem \<Rightarrow> uuid \<Rightarrow> bool \<Rightarrow> bytes \<Rightarrow> FetchResponse \<Rightarrow> JobCounters \<Rightarrow>
     ('w, error option \<times> JobCounters) state" where
  "finishURL W js ctx item jobUUID hasUUID targetURL finalResp counters = do {
     persisted \<leftarrow> persistAndPublish W js ctx (item_JobID item) (item_JobStartedAt item) targetURL finalResp;
     (case persisted of
        Inl e \<Rightarrow> do {
          recordPage W targetURL False (int (length (resp_Body finalResp)));
          State_Monad.return (Some e, counters\<lparr>PagesFailed := i64 (PagesFailed counters + 1)\<rparr>)
        }
      | Inr _ \<Rightarrow> do {
          recordPage W targetURL True (int (length (resp_Body finalResp)));
          when_do hasUUID (emitFetchEvent W jobUUID targetURL finalResp);
          State_Monad.return (None, counters\<lparr>PagesSucceeded := i64 (PagesSucceeded counters + 1)\<rparr>)
        })
   }"

definition handleURL ::
    "'w Worker \<Rightarrow> (ctx \<Rightarrow> FetchRequest \<Rightarrow> ('w, FetchResponse result) state) \<Rightarrow> 'w JobStoreOps \<Rightarrow> ctx \<Rightarrow>
     QueueItem \<Rightarrow> uuid \<Rightarrow> bool \<Rightarrow> bytes \<Rightarrow> JobCounters \<Rightarrow> ('w, error option \<times> JobCounters) state" where
  "handleURL W probe js ctx item jobUUID hasUUID targetURL counters = do {
     let targetURL = (case NormalizeURL (w_tab W) targetURL of None \<Rightarrow> targetURL | Some u \<Rightarrow> u);
     allowed \<leftarrow> allowFetch W (item_JobID item) targetURL 0;
     if \<not> allowed then State_Monad.return (None, counters)
     else do {
       waited \<leftarrow> (case policy W of
                   None \<Rightarrow> State_Monad.return (Inr ())
                 | Some p \<Rightarrow> policy_Wait p ctx targetURL);
       (case waited of
          Inl e \<Rightarrow> State_Monad.return (Some (Wrapped ''rate limiter wait'' e), counters)
        | Inr _ \<Rightarrow> do {
            fetched \<leftarrow> fetchProbeWithRetry W probe ctx item targetURL;
            (case fetched of
               Inl e \<Rightarrow> State_Monad.return
                 (Some e, counters\<lparr>PagesFailed := i64 (PagesFailed counters + 1)\<rparr>)
             | Inr resp \<Rightarrow> do {
                 (promotedResp, promoted) \<leftarrow> maybePromote W ctx item targetURL resp;
                 let finalResp = (if promoted then promotedResp else resp);
                 finishURL W js ctx item jobUUID hasUUID targetURL finalResp counters
               })
          })
     }
   }"

definition deriveFinalStatus ::
    "'w Worker \<Rightarrow> ctx \<Rightarrow> JobCounters \<Rightarrow> bytes \<Rightarrow> ('w, JobStatus \<times> bytes) state" where
  "deriveFinalStatus W ctx counters errText =
     (let errText = (if PagesSucceeded counters = 0 \<and> errText = '''' then ''no pages were fetched'' else errText)
      in do {
        e \<leftarrow> CtxErr W ctx;
        State_Monad.return
          (if e \<noteq> None then (JobStatusCanceled, errText)
           else if PagesSucceeded counters = 0 then (JobStatusFailed, errText)
           else (JobStatusSucceeded, errText))
      })"

text \<open>The loop of \<^verbatim>\<open>processJob\<close> over the URLs, with the counters and the last error text.\<close>

fun url_loop ::
    "'w Worker \<Rightarrow> (ctx \<Rightarrow> FetchRequest \<Rightarrow> ('w, FetchResponse result) state) \<Rightarrow> 'w JobStoreOps \<Rightarrow> ctx \<Rightarrow>
     QueueItem \<Rightarrow> uuid \<Rightarrow> bool \<Rightarrow> bytes list \<Rightarrow> JobCounters \<Rightarrow> bytes \<Rightarrow> ('w, JobCounters \<times> bytes) state" where
  "url_loop W probe js jobCtx item jobUUID hasUUID [] counters errText = State_Monad.return (counters, errText)"
| "url_loop W probe js jobCtx item jobUUID hasUUID (targetURL # urls) counters errText = do {
     done \<leftarrow> CtxErr W jobCtx;
     (case done of
        Some e \<Rightarrow> State_Monad.return (counters, Error e)
      | None \<Rightarrow> do {
          (err, counters) \<leftarrow> handleURL W probe js jobCtx item jobUUID hasUUID targetURL counters;
          url_loop W probe js jobCtx item jobUUID hasUUID urls counters
            (case err of None \<Rightarrow> errText | Some e \<Rightarrow> Error e)
        })
   }"

definition finish_job ::
    "'w Worker \<Rightarrow> ctx \<Rightarrow> bytes \<Rightarrow> uuid \<Rightarrow> bool \<Rightarrow> timestamp \<Rightarrow> JobCounters \<Rightarrow> bytes \<Rightarrow> ('w, unit) state" where
  "finish_job W jobCtx jobID jobUUID hasUUID start counters errText = do {
     (status, errText) \<leftarrow> deriveFinalStatus W jobCtx counters errText;
     _ \<leftarrow> updateJobStatus W jobID status errText counters;
     tele_ObserveJob W (JobStatus_string status);
     when_do hasUUID (emitJobCompletion W jobUUID status start errText)
   }"

text \<open>The body of \<^verbatim>\<open>processJob\<close> after the start event; \<open>item\<close> carries the start time.\<close>

definition runJob :: "'w Worker \<Rightarrow> ctx \<Rightarrow> QueueItem \<Rightarrow> uuid \<Rightarrow> bool \<Rightarrow> timestamp \<Rightarrow> ('w, unit) state" where
  "runJob W jobCtx item jobUUID hasUUID start =
     (case probeFetcher W of
        None \<Rightarrow> do {
          let failMsg = ''no probe fetcher configured'';
          _ \<leftarrow> updateJobStatus W (item_JobID item) JobStatusFailed failMsg zero_counters;
          when_do hasUUID (emitJobCompletion W jobUUID JobStatusFailed start failMsg)
        }
      | Some probe \<Rightarrow> do {
          updated \<leftarrow> updateJobStatus W (item_JobID item) JobStatusRunning '''' zero_counters;
          (case (updated, jobStore W) of
             (Inr _, Some js) \<Rightarrow> do {
               (counters, errText) \<leftarrow>
                 url_loop W probe js jobCtx item jobUUID hasUUID (URLs (item_Params item)) zero_counters '''';
               finish_job W jobCtx (item_JobID item) jobUUID hasUUID start counters errText
             }
           | _ \<Rightarrow> State_Monad.return ())
        })"

definition processJob :: "'w Worker \<Rightarrow> ctx \<Rightarrow> QueueItem \<Rightarrow> ('w, unit) state" where
  "processJob W ctx item = do {
     tele_IncActiveWorkers W;
     jobCtx \<leftarrow> jobContext W ctx (item_Params item);
     start \<leftarrow> clock_Now W;
     let item = item\<lparr>item_JobStartedAt := start\<rparr>;
     let (jobUUID, hasUUID) = parseJobUUID W (item_JobID item);
     when_do hasUUID (emitEvent W jobUUID StageJobStart (\<lambda>evt. State_Monad.return (evt\<lparr>evt_TS := start\<rparr>)));
     runJob W jobCtx item jobUUID hasUUID start;
     tele_DecActiveWorkers W
   }"

text \<open>\<^verbatim>\<open>Worker.Run\<close> loops until its context is done. \<open>fuel\<close> bounds the number of rounds; the result tells
  whether the loop returned.\<close>

fun Run :: "'w Worker \<Rightarrow> nat \<Rightarrow> ctx \<Rightarrow> ('w, bool) state" where
  "Run W 0 ctx = State_Monad.return False"
| "Run W (Suc fuel) ctx = do {
     r \<leftarrow> queue_Dequeue W ctx;
     (case r of
        Inl _ \<Rightarrow> do {
          e \<leftarrow> CtxErr W ctx;
          if e \<noteq> None then State_Monad.return True else Run W fuel ctx
        }
      | Inr item \<Rightarrow> do { processJob W ctx item; Run W fuel ctx })
   }"

end
