(* ===== verification/WorkerTrace.thy ===== *)
theory WorkerTrace
  imports Worker
begin

text \<open>
  A trace logic for the crawl pipeline. \<open>traced\<close> wraps every service of a worker so that each call is
  appended, with its arguments and its result, to a log that travels beside the world; the erasure
  lemmas show that the wrapped pipeline computes what the plain one computes. \<open>trace_spec\<close> states a
  property of the result and of the calls a program makes, and that a view of the world is the fold
  of those calls.

  The locale \<open>services\<close> is what the pipeline needs of its services for such statements: each call
  moves the view as its log entry says. The specifications of the worker's methods are proved once
  inside it. It is interpreted for arbitrary services with a trivial view, and for the in-memory
  services in the theory of the memory world.
\<close>

subsection \<open>Calls\<close>

datatype call =
    CallDequeue "QueueItem result"
  | CallCtxErr ctx "error option"
  | CallSysNow timestamp
  | CallSleep ctx duration "error option"
  | CallNow timestamp
  | CallUpdateJobStatus bytes JobStatus bytes JobCounters "unit result"
  | CallRecordPage PageRecord "unit result"
  | CallPutObject bytes bytes bytes "bytes result"
  | CallStoreRetrieval RetrievalRecord "unit result"
  | CallPublish bytes payload "bytes result"
  | CallHash bytes "bytes result"
  | CallNewID "bytes result"
  | CallProbe ctx FetchRequest "FetchResponse result"
  | CallHeadless ctx FetchRequest "FetchResponse result"
  | CallAllowFetch bytes bytes bool
  | CallAllowHeadless bytes bytes bool
  | CallWait ctx bytes "unit result"
  | CallEmit Event
  | CallObserveCrawl bytes bytes int
  | CallObserveJob bytes
  | CallIncActive
  | CallDecActive

definition logged :: "('w, 'a) state \<Rightarrow> ('a \<Rightarrow> call) \<Rightarrow> ('w \<times> call list, 'a) state" where
  "logged m c = State (\<lambda>(w, tr). case run_state m w of (r, w') \<Rightarrow> (r, (w', tr @ [c r])))"

definition traced_store :: "'w JobStoreOps \<Rightarrow> ('w \<times> call list) JobStoreOps" where
  "traced_store js =
     \<lparr>js_UpdateJobStatus = (\<lambda>ctx j s e c. logged (js_UpdateJobStatus js ctx j s e c) (CallUpdateJobStatus j s e c)),
      js_RecordPage = (\<lambda>ctx p. logged (js_RecordPage js ctx p) (CallRecordPage p))\<rparr>"

definition traced_policy :: "'w PolicyOps \<Rightarrow> ('w \<times> call list) PolicyOps" where
  "traced_policy p =
     \<lparr>AllowFetch = (\<lambda>j u d. logged (AllowFetch p j u d) (CallAllowFetch j u)),
      AllowHeadless = (\<lambda>j u d. logged (AllowHeadless p j u d) (CallAllowHeadless j u)),
      policy_Wait = (\<lambda>ctx u. logged (policy_Wait p ctx u) (CallWait ctx u))\<rparr>"

definition traced :: "'w Worker \<Rightarrow> ('w \<times> call list) Worker" where
  "traced W =
     \<lparr>queue_Dequeue = (\<lambda>ctx. logged (queue_Dequeue W ctx) CallDequeue),
      jobStore = map_option traced_store (jobStore W),
      blob_PutObject = (\<lambda>ctx p ct d. logged (blob_PutObject W ctx p ct d) (CallPutObject p ct d)),
      StoreRetrieval = map_option (\<lambda>f ctx r. logged (f ctx r) (CallStoreRetrieval r)) (StoreRetrieval W),
      Publish = map_option (\<lambda>f ctx tp pl. logged (f ctx tp pl) (CallPublish tp pl)) (Publish W),
      Hash = (\<lambda>d. logged (Hash W d) (CallHash d)),
      clock_Now = logged (clock_Now W) CallNow,
      probeFetcher = map_option (\<lambda>f ctx r. logged (f ctx r) (CallProbe ctx r)) (probeFetcher W),
      headlessFetcher = map_option (\<lambda>f ctx r. logged (f ctx r) (CallHeadless ctx r)) (headlessFetcher W),
      detector = detector W,
      policy = map_option traced_policy (policy W),
      NewID = map_option (\<lambda>g. logged g CallNewID) (NewID W),
      w_cfg = w_cfg W,
      Emit = map_option (\<lambda>f e. logged (f e) (\<lambda>_. CallEmit e)) (Emit W),
      tele_ObserveCrawl = (\<lambda>u s n. logged (tele_ObserveCrawl W u s n) (\<lambda>_. CallObserveCrawl u s n)),
      tele_ObserveJob = (\<lambda>s. logged (tele_ObserveJob W s) (\<lambda>_. CallObserveJob s)),
      tele_IncActiveWorkers = logged (tele_IncActiveWorkers W) (\<lambda>_. CallIncActive),
      tele_DecActiveWorkers = logged (tele_DecActiveWorkers W) (\<lambda>_. CallDecActive),
      CtxErr = (\<lambda>ctx. logged (CtxErr W ctx) (CallCtxErr ctx)),
      SysNow = logged (SysNow W) CallSysNow,
      SleepOrDone = (\<lambda>ctx d. logged (SleepOrDone W ctx d) (CallSleep ctx d)),
      ParseUUID = ParseUUID W,
      w_tab = w_tab W\<rparr>"

lemma traced_simps [simp]:
  "queue_Dequeue (traced W) ctx = logged (queue_Dequeue W ctx) CallDequeue"
  "jobStore (traced W) = map_option traced_store (jobStore W)"
  "blob_PutObject (traced W) ctx p ct d = logged (blob_PutObject W ctx p ct d) (CallPutObject p ct d)"
  "StoreRetrieval (traced W) = map_option (\<lambda>f ctx r. logged (f ctx r) (CallStoreRetrieval r)) (StoreRetrieval W)"
  "Publish (traced W) = map_option (\<lambda>f ctx tp pl. logged (f ctx tp pl) (CallPublish tp pl)) (Publish W)"
  "Hash (traced W) d = logged (Hash W d) (CallHash d)"
  "clock_Now (traced W) = logged (clock_Now W) CallNow"
  "probeFetcher (traced W) = map_option (\<lambda>f ctx r. logged (f ctx r) (CallProbe ctx r)) (probeFetcher W)"
  "headlessFetcher (traced W) = map_option (\<lambda>f ctx r. logged (f ctx r) (CallHeadless ctx r)) (headlessFetcher W)"
  "detector (traced W) = detector W"
  "policy (traced W) = map_option traced_policy (policy W)"
  "NewID (traced W) = map_option (\<lambda>g. logged g CallNewID) (NewID W)"
  "w_cfg (traced W) = w_cfg W"
  "Emit (traced W) = map_option (\<lambda>f e. logged (f e) (\<lambda>_. CallEmit e)) (Emit W)"
  "tele_ObserveCrawl (traced W) u s n = logged (tele_ObserveCrawl W u s n) (\<lambda>_. CallObserveCrawl u s n)"
  "tele_ObserveJob (traced W) s = logged (tele_ObserveJob W s) (\<lambda>_. CallObserveJob s)"
  "tele_IncActiveWorkers (traced W) = logged (tele_IncActiveWorkers W) (\<lambda>_. CallIncActive)"
  "tele_DecActiveWorkers (traced W) = logged (tele_DecActiveWorkers W) (\<lambda>_. CallDecActive)"
  "CtxErr (traced W) ctx = logged (CtxErr W ctx) (CallCtxErr ctx)"
  "SysNow (traced W) = logged (SysNow W) CallSysNow"
  "SleepOrDone (traced W) ctx dur = logged (SleepOrDone W ctx dur) (CallSleep ctx dur)"
  "ParseUUID (traced W) = ParseUUID W"
  "w_tab (traced W) = w_tab W"
  by (simp_all add: traced_def)

lemma traced_parts [simp]:
  "js_UpdateJobStatus (traced_store js) ctx j s e c =
     logged (js_UpdateJobStatus js ctx j s e c) (CallUpdateJobStatus j s e c)"
  "js_RecordPage (traced_store js) ctx p = logged (js_RecordPage js ctx p) (CallRecordPage p)"
  "AllowFetch (traced_policy q) j u dep = logged (AllowFetch q j u dep) (CallAllowFetch j u)"
  "AllowHeadless (traced_policy q) j u dep = logged (AllowHeadless q j u dep) (CallAllowHeadless j u)"
  "policy_Wait (traced_policy q) ctx u = logged (policy_Wait q ctx u) (CallWait ctx u)"
  by (simp_all add: traced_store_def traced_policy_def)

subsection \<open>Specifications of programs over the traced world\<close>

text \<open>\<open>follows view app m c\<close>: a run of the service moves the view the way its log entry says.\<close>

definition follows :: "('w \<Rightarrow> 'v) \<Rightarrow> (call \<Rightarrow> 'v \<Rightarrow> 'v) \<Rightarrow> ('w, 'a) state \<Rightarrow> ('a \<Rightarrow> call) \<Rightarrow> bool" where
  "follows view app m c \<longleftrightarrow>
     (\<forall>w. view (snd (run_state m w)) = app (c (fst (run_state m w))) (view w))"

definition trace_spec ::
    "('w \<Rightarrow> 'v) \<Rightarrow> (call \<Rightarrow> 'v \<Rightarrow> 'v) \<Rightarrow> ('w \<times> call list, 'a) state \<Rightarrow> ('a \<Rightarrow> call list \<Rightarrow> bool) \<Rightarrow> bool" where
  "trace_spec view app m P \<longleftrightarrow>
     (\<forall>w tr. \<exists>t. snd (snd (run_state m (w, tr))) = tr @ t
        \<and> view (fst (snd (run_state m (w, tr)))) = fold app t (view w)
        \<and> P (fst (run_state m (w, tr))) t)"

lemma spec_return: "P x [] \<Longrightarrow> trace_spec view app (State_Monad.return x) P"
  by (simp add: trace_spec_def)

lemma spec_conseq:
  "trace_spec view app m Q \<Longrightarrow> (\<And>x t. Q x t \<Longrightarrow> P x t) \<Longrightarrow> trace_spec view app m P"
  unfolding trace_spec_def by meson

lemma spec_bind:
  assumes "trace_spec view app m (\<lambda>x t. trace_spec view app (f x) (\<lambda>y u. P y (t @ u)))"
  shows "trace_spec view app (State_Monad.bind m f) P"
  unfolding trace_spec_def
proof (intro allI)
  fix w tr
  obtain x w1 tr1 where 1: "run_state m (w, tr) = (x, (w1, tr1))" by (metis prod.exhaust)
  with assms obtain t where t: "tr1 = tr @ t" "view w1 = fold app t (view w)"
    and sp: "trace_spec view app (f x) (\<lambda>y u. P y (t @ u))"
    unfolding trace_spec_def[of _ _ m] by (metis fst_conv snd_conv)
  obtain y w2 tr2 where 2: "run_state (f x) (w1, tr1) = (y, (w2, tr2))" by (metis prod.exhaust)
  with sp obtain u where u: "tr2 = tr1 @ u" "view w2 = fold app u (view w1)" "P y (t @ u)"
    unfolding trace_spec_def by (metis fst_conv snd_conv)
  show "\<exists>t. snd (snd (run_state (State_Monad.bind m f) (w, tr))) = tr @ t
      \<and> view (fst (snd (run_state (State_Monad.bind m f) (w, tr)))) = fold app t (view w)
      \<and> P (fst (run_state (State_Monad.bind m f) (w, tr))) t"
    using 1 2 t u by (intro exI[of _ "t @ u"]) simp
qed

lemma spec_logged:
  assumes "follows view app m c" "\<And>r. P r [c r]"
  shows "trace_spec view app (logged m c) P"
  using assms by (simp add: trace_spec_def follows_def logged_def case_prod_beta)

lemma spec_case_prod:
  "(\<And>a b. p = (a, b) \<Longrightarrow> trace_spec view app (f a b) P) \<Longrightarrow> trace_spec view app (case p of (a, b) \<Rightarrow> f a b) P"
  by (cases p) simp

lemma spec_check_err:
  assumes "trace_spec view app m (\<lambda>r t. case r of
      Inl e \<Rightarrow> P (Inl (wrap e)) t
    | Inr x \<Rightarrow> trace_spec view app (k x) (\<lambda>y u. P y (t @ u)))"
  shows "trace_spec view app (check_err m wrap k) P"
  unfolding check_err_def
  by (rule spec_bind, rule spec_conseq[OF assms]) (auto split: sum.splits intro: spec_return)

lemma spec_when: "(b \<Longrightarrow> trace_spec view app m P) \<Longrightarrow> (\<not> b \<Longrightarrow> P () []) \<Longrightarrow> trace_spec view app (when_do b m) P"
  by (auto simp: when_do_def intro: spec_return)

subsection \<open>Erasure\<close>

definition erases :: "('w \<times> call list, 'a) state \<Rightarrow> ('w, 'a) state \<Rightarrow> bool" where
  "erases m' m \<longleftrightarrow>
     (\<forall>w tr. fst (run_state m' (w, tr)) = fst (run_state m w)
        \<and> fst (snd (run_state m' (w, tr))) = snd (run_state m w))"

named_theorems erase_intros \<open>programs over the traced world compute what the plain ones compute\<close>

lemma erases_return [erase_intros]: "erases (State_Monad.return x) (State_Monad.return x)"
  by (simp add: erases_def)

lemma erases_logged [erase_intros]: "erases (logged m c) m"
  by (simp add: erases_def logged_def split: prod.splits)

lemma erases_bind [erase_intros]:
  "erases m' m \<Longrightarrow> (\<And>x. erases (f' x) (f x)) \<Longrightarrow> erases (State_Monad.bind m' f') (State_Monad.bind m f)"
  by (simp add: erases_def split: prod.splits) (metis fst_conv snd_conv surj_pair)

lemma erases_check [erase_intros]:
  "erases m' m \<Longrightarrow> (\<And>x. erases (k' x) (k x)) \<Longrightarrow> erases (check_err m' wrap k') (check_err m wrap k)"
  unfolding check_err_def by (intro erases_bind) (auto intro: erases_return split: sum.splits)

lemma erases_when [erase_intros]: "erases m' m \<Longrightarrow> erases (when_do b m') (when_do b m)"
  by (simp add: when_do_def erases_return)

lemma erases_if [erase_intros]:
  "(b \<Longrightarrow> erases m' m) \<Longrightarrow> (\<not> b \<Longrightarrow> erases n' n) \<Longrightarrow> erases (if b then m' else n') (if b then m else n)"
  by simp

lemma erases_let [erase_intros]: "(\<And>x. erases (f' x) (f x)) \<Longrightarrow> erases (let x = v in f' x) (let x = v in f x)"
  by simp

lemma erases_case_prod [erase_intros]:
  "(\<And>a b. erases (f' a b) (f a b)) \<Longrightarrow> erases (case p of (a, b) \<Rightarrow> f' a b) (case p of (a, b) \<Rightarrow> f a b)"
  by (cases p) simp

lemma erases_case_sum [erase_intros]:
  "(\<And>a. erases (f' a) (f a)) \<Longrightarrow> (\<And>b. erases (g' b) (g b)) \<Longrightarrow>
   erases (case r of Inl a \<Rightarrow> f' a | Inr b \<Rightarrow> g' b) (case r of Inl a \<Rightarrow> f a | Inr b \<Rightarrow> g b)"
  by (cases r) simp_all

lemma erases_case_option [erase_intros]:
  "erases m' m \<Longrightarrow> (\<And>b. erases (g' b) (g b)) \<Longrightarrow>
   erases (case r of None \<Rightarrow> m' | Some b \<Rightarrow> g' b) (case r of None \<Rightarrow> m | Some b \<Rightarrow> g b)"
  by (cases r) simp_all

abbreviation traced_fetcher ::
    "(ctx \<Rightarrow> FetchRequest \<Rightarrow> ('w, FetchResponse result) state) \<Rightarrow>
     ctx \<Rightarrow> FetchRequest \<Rightarrow> ('w \<times> call list, FetchResponse result) state" where
  "traced_fetcher f \<equiv> (\<lambda>ctx r. logged (f ctx r) (CallProbe ctx r))"

lemma erases_contexts [erase_intros]:
  "erases (WithTimeout (traced W) p d) (WithTimeout W p d)"
  "erases (jobContext (traced W) p params) (jobContext W p params)"
  "erases (pageContext (traced W) p) (pageContext W p)"
  "erases (statusContext (traced W)) (statusContext W)"
  unfolding jobContext_def pageContext_def statusContext_def WithTimeout_def Let_def
  by (simp_all add: erase_intros)

lemma erases_updateJobStatus [erase_intros]:
  "erases (updateJobStatus (traced W) j s e c) (updateJobStatus W j s e c)"
  by (cases "jobStore W") (simp_all add: updateJobStatus_def erase_intros)

lemma erases_emitEvent [erase_intros]:
  assumes "\<And>evt. erases (mutate' evt) (mutate evt)"
  shows "erases (emitEvent (traced W) i st mutate') (emitEvent W i st mutate)"
  using assms by (cases "Emit W") (simp_all add: emitEvent_def erase_intros)

lemma erases_events [erase_intros]:
  "erases (emitJobCompletion (traced W) i s t n) (emitJobCompletion W i s t n)"
  "erases (emitFetchEvent (traced W) i u r) (emitFetchEvent W i u r)"
  "erases (recordPage (traced W) u b k) (recordPage W u b k)"
  by (simp_all add: emitJobCompletion_def emitFetchEvent_def recordPage_def Let_def erase_intros)

lemma erases_policy [erase_intros]:
  "erases (allowFetch (traced W) j u d) (allowFetch W j u d)"
  "erases (allowHeadless (traced W) j u d) (allowHeadless W j u d)"
  by (cases "policy W"; simp add: allowFetch_def allowHeadless_def erase_intros)+

lemma erases_fetchProbe [erase_intros]:
  "erases (fetchProbe (traced W) (traced_fetcher f) ctx item u) (fetchProbe W f ctx item u)"
  unfolding fetchProbe_def by (intro erase_intros)

lemma erases_retry [erase_intros]:
  "erases (retry_loop (traced W) (traced_fetcher f) ctx item u n a e) (retry_loop W f ctx item u n a e)"
  by (induction n arbitrary: a e) (auto intro!: erase_intros)

lemma erases_fetchProbeWithRetry [erase_intros]:
  "erases (fetchProbeWithRetry (traced W) (traced_fetcher f) ctx item u) (fetchProbeWithRetry W f ctx item u)"
  unfolding fetchProbeWithRetry_def by (simp add: erase_intros)

lemma erases_maybePromote [erase_intros]:
  "erases (maybePromote (traced W) ctx item u r) (maybePromote W ctx item u r)"
  unfolding maybePromote_def
  by (cases "detector W"; cases "headlessFetcher W"; cases "HeadlessAllowed (item_Params item)")
     (auto intro!: erase_intros)

lemma erases_persist_parts [erase_intros]:
  "erases (newPageID (traced W)) (newPageID W)"
  "erases (putJSON (traced W) ctx p js) (putJSON W ctx p js)"
  "erases (putScreenshot (traced W) ctx p d) (putScreenshot W ctx p d)"
  "erases (storeRetrieval (traced W) ctx pg ct k) (storeRetrieval W ctx pg ct k)"
  "erases (publishResult (traced W) ctx j s u h m i) (publishResult W ctx j s u h m i)"
  by (cases "NewID W"; cases "StoreRetrieval W"; cases "Publish W";
      simp add: newPageID_def putJSON_def putScreenshot_def storeRetrieval_def publishResult_def erase_intros)+

lemma erases_recordAndPublish [erase_intros]:
  "erases (recordAndPublish (traced W) (traced_store js) ctx j u r b ct m p) (recordAndPublish W js ctx j u r b ct m p)"
  unfolding recordAndPublish_def by (simp add: erase_intros)

lemma erases_persistAndPublish [erase_intros]:
  "erases (persistAndPublish (traced W) (traced_store js) ctx j t u r) (persistAndPublish W js ctx j t u r)"
  unfolding persistAndPublish_def by (simp add: erase_intros)

lemma erases_finishURL [erase_intros]:
  "erases (finishURL (traced W) (traced_store js) ctx item i b u r c) (finishURL W js ctx item i b u r c)"
  unfolding finishURL_def by (intro erase_intros)

lemma erases_handleURL [erase_intros]:
  "erases (handleURL (traced W) (traced_fetcher f) (traced_store js) ctx item i b u c)
     (handleURL W f js ctx item i b u c)"
  unfolding handleURL_def
  by (cases "policy W") (auto intro!: erase_intros)

lemma erases_url_loop [erase_intros]:
  "erases (url_loop (traced W) (traced_fetcher f) (traced_store js) ctx item i b us c e)
     (url_loop W f js ctx item i b us c e)"
  by (induction us arbitrary: c e) (auto intro!: erase_intros)

lemma erases_finish_job [erase_intros]:
  "erases (finish_job (traced W) ctx j i b t c e) (finish_job W ctx j i b t c e)"
  unfolding finish_job_def deriveFinalStatus_def Let_def by (simp add: erase_intros split del: if_split)

lemma erases_runJob [erase_intros]:
  "erases (runJob (traced W) ctx item i b t) (runJob W ctx item i b t)"
  unfolding runJob_def
  by (cases "probeFetcher W"; cases "jobStore W") (auto intro!: erase_intros split: sum.splits)

lemma erases_processJob [erase_intros]:
  "erases (processJob (traced W) ctx item) (processJob W ctx item)"
  unfolding processJob_def parseJobUUID_def by (auto intro!: erase_intros)

lemma erases_Run: "erases (Run (traced W) n ctx) (Run W n ctx)"
  by (induction n) (auto intro!: erase_intros)

text \<open>A specified program that erases to a plain one: the plain run and the trace beside it.\<close>

lemma spec_run:
  assumes "trace_spec view app m P" "erases m m0"
  shows "\<exists>r w' t. run_state m (w, []) = (r, w', t) \<and> run_state m0 w = (r, w')
    \<and> view w' = fold app t (view w) \<and> P r t"
proof -
  obtain r w' t where 1: "run_state m (w, []) = (r, w', t)" by (metis prod.exhaust)
  moreover from assms(1) 1 have "view w' = fold app t (view w) \<and> P r t"
    unfolding trace_spec_def by (metis append_Nil fst_conv snd_conv)
  moreover from assms(2) 1 have "run_state m0 w = (r, w')"
    unfolding erases_def by (metis fst_conv snd_conv prod.collapse)
  ultimately show ?thesis by blast
qed

end
