(* ===== verification/JobStore.thy ===== *)
theory JobStore
  imports CrawlerTypes
begin

text \<open>
  The job store. The locale \<open>job_store\<close> is the contract of the interface crawler.JobStore
  (interfaces.go): what a lookup returns after each operation. The in-memory implementation
  (internal/storage/memory/job_store.go), which is the one the service always runs with, is modelled
  operation by operation and interprets the locale. The mutex makes each operation atomic, so an
  interleaving of concurrent callers is a sequence of operations.
\<close>

subsection \<open>The in-memory implementation\<close>

record JobStore =
  js_jobs :: "bytes \<rightharpoonup> Job"
  js_pages :: "bytes \<rightharpoonup> PageRecord list"

definition NewJobStore :: JobStore where
  "NewJobStore = \<lparr>js_jobs = Map.empty, js_pages = Map.empty\<rparr>"

fun isTerminal :: "JobStatus \<Rightarrow> bool" where
  "isTerminal JobStatusSucceeded = True"
| "isTerminal JobStatusFailed = True"
| "isTerminal JobStatusCanceled = True"
| "isTerminal _ = False"

definition pointerTime :: "timestamp \<Rightarrow> timestamp option" where
  "pointerTime t = Some t"

definition CreateJob :: "Job \<Rightarrow> JobStore \<Rightarrow> unit result \<times> JobStore" where
  "CreateJob job s =
     (case js_jobs s (job_ID job) of
        Some _ \<Rightarrow> (Inl (ErrorString ''job already exists''), s)
      | None \<Rightarrow> (Inr (), s\<lparr>js_jobs := (js_jobs s)(job_ID job \<mapsto> job)\<rparr>))"

text \<open>The field updates of \<^verbatim>\<open>UpdateJobStatus\<close>; \<open>now\<close> is the reading of the system clock inside the
  critical section.\<close>

definition apply_status :: "timestamp \<Rightarrow> JobStatus \<Rightarrow> bytes \<Rightarrow> JobCounters \<Rightarrow> Job \<Rightarrow> Job" where
  "apply_status now status errText counters job0 =
     (let job1 = job0\<lparr>job_Status := status, job_ErrorText := errText, job_Counters := counters\<rparr>;
          job2 = (if status = JobStatusRunning \<and> job_Started job1 = None
                  then job1\<lparr>job_Started := pointerTime now\<rparr> else job1)
      in if isTerminal status then job2\<lparr>job_Finished := pointerTime now\<rparr> else job2)"

definition UpdateJobStatus ::
    "timestamp \<Rightarrow> bytes \<Rightarrow> JobStatus \<Rightarrow> bytes \<Rightarrow> JobCounters \<Rightarrow> JobStore \<Rightarrow> unit result \<times> JobStore" where
  "UpdateJobStatus now jobID status errText counters s =
     (case js_jobs s jobID of
        None \<Rightarrow> (Inl (ErrorString ''job not found''), s)
      | Some job \<Rightarrow>
          (Inr (), s\<lparr>js_jobs := (js_jobs s)(jobID \<mapsto> apply_status now status errText counters job)\<rparr>))"

definition RecordPage :: "PageRecord \<Rightarrow> JobStore \<Rightarrow> unit result \<times> JobStore" where
  "RecordPage page s =
     (let old = (case js_pages s (page_JobID page) of None \<Rightarrow> [] | Some ps \<Rightarrow> ps)
      in (Inr (), s\<lparr>js_pages := (js_pages s)(page_JobID page \<mapsto> old @ [page])\<rparr>))"

definition GetJob :: "bytes \<Rightarrow> JobStore \<Rightarrow> Job result" where
  "GetJob jobID s =
     (case js_jobs s jobID of None \<Rightarrow> Inl (ErrorString ''job not found'') | Some job \<Rightarrow> Inr job)"

definition ListPages :: "bytes \<Rightarrow> JobStore \<Rightarrow> PageRecord list result" where
  "ListPages jobID s = Inr (case js_pages s jobID of None \<Rightarrow> [] | Some ps \<Rightarrow> ps)"

subsection \<open>The contract\<close>

text \<open>A stored job after a status update: the status, error text and counters are the given ones,
  identity and parameters are kept, and a terminal status has a finish time.\<close>

definition updated_job :: "JobStatus \<Rightarrow> bytes \<Rightarrow> JobCounters \<Rightarrow> Job \<Rightarrow> Job \<Rightarrow> bool" where
  "updated_job st err cnt j j' \<longleftrightarrow>
     job_Status j' = st \<and> job_ErrorText j' = err \<and> job_Counters j' = cnt
     \<and> job_ID j' = job_ID j \<and> job_Submitted j' = job_Submitted j
     \<and> job_Parameters j' = job_Parameters j
     \<and> (isTerminal st \<longrightarrow> job_Finished j' \<noteq> None)
     \<and> (st = JobStatusRunning \<longrightarrow> job_Started j' \<noteq> None)
     \<and> (job_Started j \<noteq> None \<longrightarrow> job_Started j' = job_Started j)
     \<and> (job_Finished j \<noteq> None \<longrightarrow> job_Finished j' \<noteq> None)"

locale job_store =
  fixes create :: "Job \<Rightarrow> 's \<Rightarrow> unit result \<times> 's"
    and update :: "timestamp \<Rightarrow> bytes \<Rightarrow> JobStatus \<Rightarrow> bytes \<Rightarrow> JobCounters \<Rightarrow> 's \<Rightarrow> unit result \<times> 's"
    and record_page :: "PageRecord \<Rightarrow> 's \<Rightarrow> unit result \<times> 's"
    and get :: "bytes \<Rightarrow> 's \<Rightarrow> Job result"
    and list_pages :: "bytes \<Rightarrow> 's \<Rightarrow> PageRecord list result"
    and jobs_of :: "'s \<Rightarrow> bytes \<rightharpoonup> Job"
    and pages_of :: "'s \<Rightarrow> bytes \<Rightarrow> PageRecord list"
  assumes create_fresh: "jobs_of s (job_ID j) = None \<Longrightarrow>
      fst (create j s) = Inr () \<and> jobs_of (snd (create j s)) = (jobs_of s)(job_ID j \<mapsto> j)
      \<and> pages_of (snd (create j s)) = pages_of s"
    and create_dup: "jobs_of s (job_ID j) \<noteq> None \<Longrightarrow> \<exists>e. create j s = (Inl e, s)"
    and update_found: "jobs_of s i = Some j \<Longrightarrow>
      fst (update t i st err cnt s) = Inr ()
      \<and> (\<exists>j'. updated_job st err cnt j j'
           \<and> jobs_of (snd (update t i st err cnt s)) = (jobs_of s)(i \<mapsto> j'))
      \<and> pages_of (snd (update t i st err cnt s)) = pages_of s"
    and update_missing: "jobs_of s i = None \<Longrightarrow> \<exists>e. update t i st err cnt s = (Inl e, s)"
    and record_page_law: "fst (record_page p s) = Inr ()
      \<and> jobs_of (snd (record_page p s)) = jobs_of s
      \<and> pages_of (snd (record_page p s)) =
          (pages_of s)(page_JobID p := pages_of s (page_JobID p) @ [p])"
    and get_found: "jobs_of s i = Some j \<Longrightarrow> get i s = Inr j"
    and get_missing: "jobs_of s i = None \<Longrightarrow> \<exists>e. get i s = Inl e"
    and list_law: "list_pages i s = Inr (pages_of s i)"
begin

lemma get_after_create:
  "jobs_of s (job_ID j) = None \<Longrightarrow> get (job_ID j) (snd (create j s)) = Inr j"
  by (simp add: create_fresh get_found)

lemma update_status:
  assumes "jobs_of s i = Some j"
  obtains j' where "get i (snd (update t i st err cnt s)) = Inr j'" "updated_job st err cnt j j'"
  using update_found[OF assms, of t st err cnt] by (metis get_found fun_upd_same)

lemma update_other:
  assumes "k \<noteq> i"
  shows "jobs_of (snd (update t i st err cnt s)) k = jobs_of s k"
proof (cases "jobs_of s i")
  case None
  then show ?thesis using update_missing[of s i t st err cnt] by auto
next
  case (Some j)
  then show ?thesis using update_found[OF Some, of t st err cnt] assms by auto
qed

text \<open>Recorded pages of a job are exactly the pages recorded for it, in order.\<close>

lemma record_pages_run:
  "pages_of (fold (\<lambda>p s. snd (record_page p s)) ps s) i =
     pages_of s i @ filter (\<lambda>p. page_JobID p = i) ps"
proof (induction ps arbitrary: s)
  case (Cons p ps)
  then show ?case using record_page_law[of p s] by simp
qed simp

lemma record_pages_keep_jobs:
  "jobs_of (fold (\<lambda>p s. snd (record_page p s)) ps s) = jobs_of s"
  by (induction ps arbitrary: s) (simp_all add: record_page_law)

text \<open>The last status written to a job is the one a reader gets, whoever wrote before.\<close>

lemma last_update_wins:
  assumes "jobs_of s i = Some j"
  shows "\<exists>j'. get i (snd (update t i st err cnt
             (fold (\<lambda>(t, k, st, err, cnt) s. snd (update t k st err cnt s)) us s))) = Inr j'
           \<and> job_Status j' = st \<and> job_Counters j' = cnt \<and> job_ErrorText j' = err
           \<and> job_ID j' = job_ID j"
proof -
  have "\<exists>j1. jobs_of (fold (\<lambda>(t, k, st, err, cnt) s. snd (update t k st err cnt s)) us s) i = Some j1
      \<and> job_ID j1 = job_ID j"
    using assms
  proof (induction us arbitrary: s j)
    case (Cons u us)
    obtain t1 k1 st1 err1 cnt1 where u: "u = (t1, k1, st1, err1, cnt1)" by (cases u)
    let ?s' = "snd (update t1 k1 st1 err1 cnt1 s)"
    obtain j1 where "jobs_of ?s' i = Some j1" "job_ID j1 = job_ID j"
    proof (cases "k1 = i")
      case True
      with update_found[OF Cons.prems, of t1 st1 err1 cnt1] that show ?thesis
        by (auto simp: updated_job_def)
    next
      case False
      with update_other[of i k1] Cons.prems that show ?thesis by metis
    qed
    with Cons.IH[of ?s' j1] u show ?case by simp
  qed simp
  then obtain j1 where j1: "jobs_of (fold (\<lambda>(t, k, st, err, cnt) s. snd (update t k st err cnt s)) us s) i
      = Some j1" "job_ID j1 = job_ID j" by blast
  from update_status[OF j1(1)] obtain j' where
    "get i (snd (update t i st err cnt
       (fold (\<lambda>(t, k, st, err, cnt) s. snd (update t k st err cnt s)) us s))) = Inr j'"
    "updated_job st err cnt j1 j'" by blast
  with j1(2) show ?thesis by (auto simp: updated_job_def)
qed

end

subsection \<open>The implementation meets the contract\<close>

definition pages_list :: "JobStore \<Rightarrow> bytes \<Rightarrow> PageRecord list" where
  "pages_list s i = (case js_pages s i of None \<Rightarrow> [] | Some ps \<Rightarrow> ps)"

lemma updated_apply_status: "updated_job st err cnt j (apply_status t st err cnt j)"
  by (cases st; cases "job_Started j")
     (simp_all add: apply_status_def updated_job_def pointerTime_def)

lemma UpdateJobStatus_found [store_simps]:
  "js_jobs s i = Some j \<Longrightarrow> UpdateJobStatus t i st err cnt s =
     (Inr (), s\<lparr>js_jobs := (js_jobs s)(i \<mapsto> apply_status t st err cnt j)\<rparr>)"
  by (simp add: UpdateJobStatus_def)

lemma UpdateJobStatus_missing [store_simps]:
  "js_jobs s i = None \<Longrightarrow> UpdateJobStatus t i st err cnt s = (Inl (ErrorString ''job not found''), s)"
  by (simp add: UpdateJobStatus_def)

lemma pages_list_fun: "pages_list (s\<lparr>js_jobs := m\<rparr>) = pages_list s"
  by (simp add: pages_list_def fun_eq_iff)

interpretation mem: job_store CreateJob UpdateJobStatus RecordPage GetJob ListPages js_jobs pages_list
proof (unfold_locales, goal_cases)
  case (1 s j)
  then show ?case by (simp add: CreateJob_def pages_list_fun)
next
  case (2 s j)
  then show ?case by (auto simp: CreateJob_def)
next
  case (3 s i j t st err cnt)
  then show ?case
    using updated_apply_status[of st err cnt j t] by (auto simp: store_simps pages_list_fun)
next
  case (4 s i t st err cnt)
  then show ?case by (simp add: store_simps)
next
  case (5 p s)
  show ?case by (simp add: RecordPage_def pages_list_def fun_eq_iff Let_def)
next
  case (6 s i j)
  then show ?case by (simp add: GetJob_def)
next
  case (7 s i)
  then show ?case by (simp add: GetJob_def)
next
  case (8 i s)
  show ?case by (simp add: ListPages_def pages_list_def)
qed

subsection \<open>Invariant of the store\<close>

text \<open>Every job is stored under its own identifier, a terminal job has a finish time, and a running
  job has a start time.\<close>

definition job_ok :: "Job \<Rightarrow> bool" where
  "job_ok j \<longleftrightarrow> (isTerminal (job_Status j) \<longrightarrow> job_Finished j \<noteq> None)
     \<and> (job_Status j = JobStatusRunning \<longrightarrow> job_Started j \<noteq> None)"

definition jobstore_inv :: "JobStore \<Rightarrow> bool" where
  "jobstore_inv s \<longleftrightarrow> (\<forall>i j. js_jobs s i = Some j \<longrightarrow> job_ID j = i \<and> job_ok j)
     \<and> (\<forall>i. list_all (\<lambda>p. page_JobID p = i) (pages_list s i))"

datatype store_op =
    OpCreate Job
  | OpUpdate timestamp bytes JobStatus bytes JobCounters
  | OpRecord PageRecord

fun store_step :: "store_op \<Rightarrow> JobStore \<Rightarrow> JobStore" where
  "store_step (OpCreate j) s = snd (CreateJob j s)"
| "store_step (OpUpdate t i st err cnt) s = snd (UpdateJobStatus t i st err cnt s)"
| "store_step (OpRecord p) s = snd (RecordPage p s)"

fun store_op_ok :: "store_op \<Rightarrow> bool" where
  "store_op_ok (OpCreate j) = job_ok j"
| "store_op_ok _ = True"

lemma jobstore_inv_new: "jobstore_inv NewJobStore"
  by (simp add: jobstore_inv_def NewJobStore_def pages_list_def)

lemma jobstore_inv_create: "jobstore_inv s \<Longrightarrow> job_ok j \<Longrightarrow> jobstore_inv (snd (CreateJob j s))"
  by (auto simp: jobstore_inv_def CreateJob_def pages_list_def split: option.splits)

lemma jobstore_inv_update:
  assumes "jobstore_inv s"
  shows "jobstore_inv (snd (UpdateJobStatus t i st err cnt s))"
proof (cases "js_jobs s i")
  case None
  then show ?thesis using assms by (simp add: UpdateJobStatus_def)
next
  case (Some j)
  then show ?thesis
    using assms updated_apply_status[of st err cnt j t]
    by (auto simp: store_simps jobstore_inv_def updated_job_def job_ok_def pages_list_fun)
qed

lemma jobstore_inv_record: "jobstore_inv s \<Longrightarrow> jobstore_inv (snd (RecordPage p s))"
  using mem.record_page_law[of p s] by (simp add: jobstore_inv_def)

lemma jobstore_inv_step: "jobstore_inv s \<Longrightarrow> store_op_ok op \<Longrightarrow> jobstore_inv (store_step op s)"
  by (cases op) (simp_all add: jobstore_inv_create jobstore_inv_update jobstore_inv_record)

lemma jobstore_inv_run:
  "jobstore_inv s \<Longrightarrow> list_all store_op_ok ops \<Longrightarrow> jobstore_inv (fold store_step ops s)"
  by (induction ops arbitrary: s) (simp_all add: jobstore_inv_step)


text \<open>The pages of a job after any operations: those recorded for it, in order.\<close>

fun recorded_for :: "bytes \<Rightarrow> store_op \<Rightarrow> PageRecord list" where
  "recorded_for i (OpRecord p) = (if page_JobID p = i then [p] else [])"
| "recorded_for i _ = []"

lemma store_step_pages: "pages_list (store_step op s) i = pages_list s i @ recorded_for i op"
proof (cases op)
  case (OpCreate j)
  then show ?thesis by (simp add: CreateJob_def pages_list_fun split: option.splits)
next
  case (OpUpdate t k st err cnt)
  then show ?thesis by (simp add: UpdateJobStatus_def pages_list_fun split: option.splits)
next
  case (OpRecord p)
  then show ?thesis using mem.record_page_law[of p s] by simp
qed

lemma store_run_pages: "pages_list (fold store_step ops s) i = pages_list s i @ concat (map (recorded_for i) ops)"
  by (induction ops arbitrary: s) (simp_all add: store_step_pages)

end
