(* ===== verification/WorkerSpecs.thy ===== *)
theory WorkerSpecs
  imports WorkerTrace JobStore
begin

text \<open>
  What the methods of the worker do, call by call: the specifications are lemmas of the locale
  \<open>services\<close>, over the calls each method makes and its result.
\<close>

subsection \<open>Parts of a trace\<close>

fun probe_call :: "call \<Rightarrow> (FetchRequest \<times> FetchResponse result) list" where
  "probe_call (CallProbe ctx r x) = [(r, x)]"
| "probe_call _ = []"

fun sleep_call :: "call \<Rightarrow> (duration \<times> error option) list" where
  "sleep_call (CallSleep ctx d x) = [(d, x)]"
| "sleep_call _ = []"

fun status_call :: "call \<Rightarrow> (bytes \<times> JobStatus \<times> bytes \<times> JobCounters \<times> unit result) list" where
  "status_call (CallUpdateJobStatus j s e c x) = [(j, s, e, c, x)]"
| "status_call _ = []"

fun event_call :: "call \<Rightarrow> Event list" where
  "event_call (CallEmit e) = [e]"
| "event_call _ = []"

fun page_call :: "call \<Rightarrow> PageRecord list" where
  "page_call (CallRecordPage p (Inr u)) = [p]"
| "page_call _ = []"

fun success_call :: "call \<Rightarrow> bytes list" where
  "success_call (CallObserveCrawl u s n) = (if s = ''success'' then [u] else [])"
| "success_call _ = []"

fun active_call :: "call \<Rightarrow> int" where
  "active_call CallIncActive = 1"
| "active_call CallDecActive = -1"
| "active_call _ = 0"

definition picked :: "(call \<Rightarrow> 'a list) \<Rightarrow> call list \<Rightarrow> 'a list" where
  "picked f t = concat (map f t)"

lemma picked_simps [simp]:
  "picked f [] = []" "picked f (c # t) = f c @ picked f t" "picked f (t @ u) = picked f t @ picked f u"
  by (simp_all add: picked_def)

text \<open>The calls that the end of a job makes after it has looked at its context.\<close>

fun closing :: "call \<Rightarrow> bool" where
  "closing (CallSysNow _) = True"
| "closing (CallUpdateJobStatus _ _ _ _ _) = True"
| "closing (CallObserveJob _) = True"
| "closing (CallNow _) = True"
| "closing (CallEmit _) = True"
| "closing _ = False"

lemma closing_quiet:
  assumes "list_all closing t"
  shows "picked probe_call t = []" "picked page_call t = []" "picked success_call t = []"
proof -
  have "probe_call c = [] \<and> page_call c = [] \<and> success_call c = []" if "closing c" for c
    using that by (cases c) auto
  with assms show "picked probe_call t = []" "picked page_call t = []" "picked success_call t = []"
    by (induction t) auto
qed

text \<open>The calls that can fail, and whether they did.\<close>

fun failed_call :: "call \<Rightarrow> bool" where
  "failed_call (CallRecordPage p r) = isl r"
| "failed_call (CallPutObject p ct d r) = isl r"
| "failed_call (CallStoreRetrieval x r) = isl r"
| "failed_call (CallPublish tp pl r) = isl r"
| "failed_call (CallHash d r) = isl r"
| "failed_call (CallNewID r) = isl r"
| "failed_call _ = False"

text \<open>The calls that handling one URL can make.\<close>

fun page_level :: "call \<Rightarrow> bool" where
  "page_level (CallDequeue _) = False"
| "page_level (CallUpdateJobStatus _ _ _ _ _) = False"
| "page_level (CallObserveJob _) = False"
| "page_level CallIncActive = False"
| "page_level CallDecActive = False"
| "page_level (CallEmit e) = (evt_Stage e = StageFetchDone)"
| "page_level _ = True"

definition no_events :: "call list \<Rightarrow> bool" where
  "no_events t \<longleftrightarrow> list_all page_level t \<and> picked event_call t = [] \<and> picked success_call t = []"

lemma no_events_simps [simp]:
  "no_events []"
  "no_events (c # t) \<longleftrightarrow> page_level c \<and> event_call c = [] \<and> success_call c = [] \<and> no_events t"
  "no_events (t @ u) \<longleftrightarrow> no_events t \<and> no_events u"
  by (auto simp: no_events_def)

subsection \<open>Retry histories\<close>

definition probe_error :: "FetchResponse result \<Rightarrow> FetchResponse result" where
  "probe_error x = (case x of Inl e \<Rightarrow> Inl (Wrapped ''probe fetch'' e) | Inr y \<Rightarrow> Inr y)"

lemma probe_error_simps [simp]:
  "probe_error (Inl e) = Inl (Wrapped ''probe fetch'' e)" "probe_error (Inr y) = Inr y"
  by (simp_all add: probe_error_def)

fun retryable :: "FetchResponse result \<Rightarrow> bool" where
  "retryable (Inl e) \<longleftrightarrow> \<not> errors_Is e ContextCanceled \<and> \<not> errors_Is e ContextDeadlineExceeded"
| "retryable (Inr _) \<longleftrightarrow> False"

text \<open>The history of a retry loop with \<open>n\<close> attempts left from attempt number \<open>a\<close> on: which probes it
  makes, how long it waits between them, and where its result comes from.\<close>

definition waits_ok :: "duration \<Rightarrow> int \<Rightarrow> (duration \<times> error option) list \<Rightarrow> bool" where
  "waits_ok base a sl \<longleftrightarrow>
     map fst sl = map (\<lambda>k. i64 (base * (max a 1 + int k))) [0..<length sl]
     \<and> list_all (\<lambda>p. snd p = None) (butlast sl)"

definition retry_post ::
    "duration \<Rightarrow> FetchRequest \<Rightarrow> nat \<Rightarrow> int \<Rightarrow> FetchResponse result \<Rightarrow> call list \<Rightarrow> bool" where
  "retry_post base req n a r t \<longleftrightarrow>
     (\<exists>ps sl. no_events t \<and> picked probe_call t = map (Pair req) ps \<and> picked sleep_call t = sl
        \<and> length ps \<le> n \<and> list_all retryable (butlast ps) \<and> waits_ok base a sl
        \<and> ((\<exists>e. sl \<noteq> [] \<and> snd (last sl) = Some e \<and> r = Inl (Wrapped ''context done'' e) \<and> list_all retryable ps
               \<and> length sl = length ps + (if a = 0 then 0 else 1))
            \<or> (list_all (\<lambda>p. snd p = None) sl \<and> ps \<noteq> [] \<and> r = probe_error (last ps)
               \<and> (length ps = n \<or> \<not> retryable (last ps))
               \<and> length sl + (if a = 0 then 1 else 0) = length ps)))"

lemma waits_ok_Nil [simp]: "waits_ok base a []"
  by (simp add: waits_ok_def)

lemma waits_ok_single: "0 < a \<Longrightarrow> waits_ok base a [(i64 (base * a), x)]"
  by (simp add: waits_ok_def)

lemma waits_ok_Cons:
  assumes "0 < a" "waits_ok base (a + 1) sl"
  shows "waits_ok base a ((i64 (base * a), None) # sl)"
proof -
  have "map (\<lambda>k. i64 (base * (max (a + 1) 1 + int k))) [0..<length sl]
      = map (\<lambda>k. i64 (base * (a + int k))) [Suc 0..<Suc (length sl)]"
    using assms(1) by (simp add: map_Suc_upt[symmetric] comp_def add_ac del: upt_Suc)
  with assms show ?thesis
    by (simp add: waits_ok_def upt_conv_Cons del: upt_Suc)
qed

lemma waits_ok_0: "waits_ok base 0 sl = waits_ok base 1 sl"
  by (simp add: waits_ok_def)

text \<open>One attempt followed by the rest of the loop.\<close>

lemma retry_post_last:
  assumes "no_events t" "picked probe_call t = [(req, x)]" "picked sleep_call t = []" "n = 0 \<or> \<not> retryable x"
  shows "retry_post base req (Suc n) 0 (probe_error x) t"
    and "0 < a \<Longrightarrow> retry_post base req (Suc n) a (probe_error x) (CallSleep ctx (i64 (base * a)) None # t)"
proof -
  show "retry_post base req (Suc n) 0 (probe_error x) t"
    unfolding retry_post_def using assms by (intro exI[of _ "[x]"] exI[of _ "[]"]) auto
  show "0 < a \<Longrightarrow> retry_post base req (Suc n) a (probe_error x) (CallSleep ctx (i64 (base * a)) None # t)"
    unfolding retry_post_def using assms
    by (intro exI[of _ "[x]"] exI[of _ "[(i64 (base * a), None)]"]) (auto simp: waits_ok_single)
qed

lemma retry_post_more:
  assumes "no_events t" "picked probe_call t = [(req, x)]" "picked sleep_call t = []" "retryable x"
    "retry_post base req n (a + 1) r u" "0 \<le> a"
  shows "a = 0 \<Longrightarrow> retry_post base req (Suc n) 0 r (t @ u)"
    and "0 < a \<Longrightarrow> retry_post base req (Suc n) a r (CallSleep ctx (i64 (base * a)) None # t @ u)"
proof -
  obtain ps sl where h: "no_events u" "picked probe_call u = map (Pair req) ps" "picked sleep_call u = sl"
    "length ps \<le> n" "list_all retryable (butlast ps)" "waits_ok base (a + 1) sl"
    "(\<exists>e. sl \<noteq> [] \<and> snd (last sl) = Some e \<and> r = Inl (Wrapped ''context done'' e) \<and> list_all retryable ps
         \<and> length sl = length ps + 1)
      \<or> (list_all (\<lambda>p. snd p = None) sl \<and> ps \<noteq> [] \<and> r = probe_error (last ps)
         \<and> (length ps = n \<or> \<not> retryable (last ps)) \<and> length sl = length ps)"
    using assms(5,6) unfolding retry_post_def by auto
  show "a = 0 \<Longrightarrow> retry_post base req (Suc n) 0 r (t @ u)"
    unfolding retry_post_def using h assms(1-4)
    by (intro exI[of _ "x # ps"] exI[of _ sl]) (auto simp: waits_ok_0)
  show "0 < a \<Longrightarrow> retry_post base req (Suc n) a r (CallSleep ctx (i64 (base * a)) None # t @ u)"
    unfolding retry_post_def using h assms(1-4)
    by (intro exI[of _ "x # ps"] exI[of _ "(i64 (base * a), None) # sl"]) (auto intro!: waits_ok_Cons)
qed

lemma retry_post_done:
  "0 < a \<Longrightarrow> retry_post base req (Suc n) a (Inl (Wrapped ''context done'' e)) [CallSleep ctx (i64 (base * a)) (Some e)]"
  unfolding retry_post_def
  by (intro exI[of _ "[]"] exI[of _ "[(i64 (base * a), Some e)]"]) (auto simp: waits_ok_single)

lemma errors_Is_Wrapped_ctx [simp]:
  "errors_Is (Wrapped p e) ContextCanceled = errors_Is e ContextCanceled"
  "errors_Is (Wrapped p e) ContextDeadlineExceeded = errors_Is e ContextDeadlineExceeded"
  by simp_all

subsection \<open>Persistence histories\<close>

text \<open>A program that stops at the first call that fails: no call but the last can have failed, and the
  result is a value exactly when none did.\<close>

definition fail_stop :: "'a result \<Rightarrow> call list \<Rightarrow> bool" where
  "fail_stop r t \<longleftrightarrow>
     list_all (\<lambda>c. \<not> failed_call c) (butlast t) \<and> (isl r \<longleftrightarrow> t \<noteq> [] \<and> failed_call (last t))"

text \<open>The error that the first failing call of a page is reported as: its own error, wrapped with the step it
  belongs to. \<open>n\<close> counts the objects stored before the call.\<close>

fun put_call :: "call \<Rightarrow> bytes list" where
  "put_call (CallPutObject p ct d r) = [p]"
| "put_call _ = []"

fun reported :: "nat \<Rightarrow> call \<Rightarrow> error option" where
  "reported n (CallHash d (Inl e)) = Some (Wrapped ''hash body'' e)"
| "reported n (CallNewID (Inl e)) = Some (Wrapped ''generate page id'' (Wrapped ''generate page id'' e))"
| "reported n (CallPutObject p ct d (Inl e)) =
     Some (if n = 0 then Wrapped ''put raw object'' e
           else if n = 1 then Wrapped ''put headers'' (Wrapped ''put object'' e)
           else if n = 2 then Wrapped ''put meta'' (Wrapped ''put object'' e)
           else Wrapped ''put screenshot'' e)"
| "reported n (CallRecordPage p (Inl e)) = Some (Wrapped ''record page'' e)"
| "reported n (CallStoreRetrieval x (Inl e)) = Some (Wrapped ''store retrieval'' e)"
| "reported n (CallPublish tp pl (Inl e)) = Some (Wrapped ''publish payload'' e)"
| "reported _ _ = None"

fun page_result :: "nat \<Rightarrow> call list \<Rightarrow> unit result" where
  "page_result n [] = Inr ()"
| "page_result n (c # t) = (case reported n c of Some e \<Rightarrow> Inl e | None \<Rightarrow> page_result (n + length (put_call c)) t)"

lemma fail_stop_Nil [simp]: "fail_stop r [] \<longleftrightarrow> \<not> isl r"
  by (simp add: fail_stop_def)

lemma fail_stop_Cons [simp]:
  "fail_stop r (c # t) \<longleftrightarrow> (if t = [] then isl r = failed_call c else \<not> failed_call c \<and> fail_stop r t)"
  by (auto simp: fail_stop_def)

text \<open>The calls of a page that is persisted and published, in order.\<close>

definition is_page_run ::
    "'w Worker \<Rightarrow> bytes \<Rightarrow> timestamp \<Rightarrow> bytes \<Rightarrow> FetchResponse \<Rightarrow> call list \<Rightarrow> bool" where
  "is_page_run W jobID startedAt url resp t \<longleftrightarrow>
     (\<exists>hash pageID storedAt uri huri metaURI shot msg.
        let base = buildBlobPath (w_tab W) (w_cfg W) storedAt (extractHost (resp_URL resp)) pageID;
            ct = contentTypeFromResponse resp (ContentType (w_cfg W));
            page = page_record pageID jobID startedAt storedAt hash uri resp
        in t =
         [CallHash (resp_Body resp) (Inr hash), CallNewID (Inr pageID), CallNow storedAt,
          CallPutObject (path_Join [base, ''raw.html'']) (ContentType (w_cfg W)) (resp_Body resp) (Inr uri),
          CallPutObject (path_Join [base, ''headers.json'']) ''application/json''
            (Marshal (headers_json (resp_Headers resp))) (Inr huri),
          CallPutObject (path_Join [base, ''meta.json'']) ''application/json''
            (Marshal (pageMetaPayload resp hash ct jobID)) (Inr metaURI)]
         @ (if resp_Screenshot resp = [] then []
            else [CallPutObject (path_Join [base, ''screenshot.png'']) ''image/png'' (resp_Screenshot resp) (Inr shot)])
         @ [CallRecordPage page (Inr ())]
         @ (if StoreRetrieval W = None then []
            else [CallStoreRetrieval (retrieval_record page ct (int (length (resp_Body resp)))) (Inr ())])
         @ (if Publish W = None \<or> Topic (w_cfg W) = '''' then []
            else [CallPublish (Topic (w_cfg W))
                    (publish_payload pageID jobID (extractHost (resp_URL resp)) url uri metaURI) (Inr msg)]))"

lemma page_record_simps [simp]:
  "page_ID (page_record i j st at h raw resp) = i" "page_BlobURI (page_record i j st at h raw resp) = raw"
  "page_JobID (page_record i j st at h raw resp) = j"
  by (simp_all add: page_record_def)

lemma page_run_json:
  assumes "is_page_run W j st u resp t"
  shows "\<exists>base hash x y. CallHash (resp_Body resp) (Inr hash) \<in> set t
    \<and> CallPutObject (path_Join [base, ''headers.json'']) ''application/json'' (Marshal (headers_json (resp_Headers resp))) (Inr x) \<in> set t
    \<and> CallPutObject (path_Join [base, ''meta.json'']) ''application/json''
        (Marshal (pageMetaPayload resp hash (contentTypeFromResponse resp (ContentType (w_cfg W))) j)) (Inr y) \<in> set t"
  using assms unfolding is_page_run_def Let_def by (elim exE) (simp only: set_append list.set, blast)

definition persist_post ::
    "'w Worker \<Rightarrow> bytes \<Rightarrow> timestamp \<Rightarrow> bytes \<Rightarrow> FetchResponse \<Rightarrow> unit result \<Rightarrow> call list \<Rightarrow> bool" where
  "persist_post W j st u resp r t \<longleftrightarrow>
     no_events t \<and> picked probe_call t = [] \<and> fail_stop r t \<and> r = page_result 0 t
     \<and> (\<not> isl r \<longrightarrow> is_page_run W j st u resp t)"

lemma persist_failed:
  "no_events t \<Longrightarrow> picked probe_call t = [] \<Longrightarrow> fail_stop (Inl e :: unit result) t \<Longrightarrow> page_result 0 t = Inl e \<Longrightarrow>
   persist_post W j st u resp (Inl e) t"
  by (simp add: persist_post_def)

subsection \<open>Promotion histories\<close>

definition is_page_context :: "'w Worker \<Rightarrow> ctx \<Rightarrow> ctx \<Rightarrow> call list \<Rightarrow> bool" where
  "is_page_context W ctx pageCtx t \<longleftrightarrow>
     (if 0 < RequestTimeout (w_cfg W) then \<exists>n. t = [CallSysNow n] \<and> pageCtx = WithDeadline ctx (n + RequestTimeout (w_cfg W))
      else t = [] \<and> pageCtx = ctx)"

text \<open>A page is rendered exactly when the job allows it, a detector and a headless fetcher are there, the policy
  (asked once, if there is one) allows it and the detector promotes the probe response. The result is
  then the rendered response, marked as such, or the probe response when rendering failed.\<close>

definition promote_post ::
    "'w Worker \<Rightarrow> ctx \<Rightarrow> QueueItem \<Rightarrow> bytes \<Rightarrow> FetchResponse \<Rightarrow> FetchResponse \<times> bool \<Rightarrow> call list \<Rightarrow> bool" where
  "promote_post W ctx item u resp res t \<longleftrightarrow>
     (case (detector W, headlessFetcher W) of
        (Some shouldPromote, Some headless) \<Rightarrow>
          if HeadlessAllowed (item_Params item)
          then \<exists>allowed t1 t2. t = t1 @ t2
            \<and> (if policy W = None then allowed \<and> t1 = [] else t1 = [CallAllowHeadless (item_JobID item) u allowed])
            \<and> (if allowed \<and> shouldPromote resp
               then \<exists>t3 pageCtx x. t2 = t3 @ [CallHeadless pageCtx (fetch_request item u True) x]
                 \<and> is_page_context W ctx pageCtx t3
                 \<and> res = (case x of Inl _ \<Rightarrow> (resp, False) | Inr hr \<Rightarrow> (hr\<lparr>resp_UsedHeadless := True\<rparr>, True))
               else t2 = [] \<and> res = (resp, False))
          else t = [] \<and> res = (resp, False)
      | _ \<Rightarrow> t = [] \<and> res = (resp, False))"

lemma page_context_quiet:
  assumes "is_page_context W ctx c t" shows "no_events t"
  using assms by (auto simp: is_page_context_def split: if_splits)

lemma promote_quiet:
  assumes "promote_post W ctx item u resp res t" shows "no_events t"
  using assms unfolding promote_post_def
  by (auto split: option.splits if_splits dest!: page_context_quiet)

subsection \<open>Histories of a URL and of a job\<close>

definition emits :: "'w Worker \<Rightarrow> uuid \<Rightarrow> bool \<Rightarrow> bool" where
  "emits W i hasUUID \<longleftrightarrow> hasUUID \<and> Emit W \<noteq> None \<and> i \<noteq> uuid_Nil"

text \<open>An event of job \<open>i\<close> that the hub accepts whenever it has a time and a duration that is not negative.\<close>

definition ok_event :: "uuid \<Rightarrow> Event \<Rightarrow> bool" where
  "ok_event i e \<longleftrightarrow> evt_JobID e = UUIDToBytes i
     \<and> (evt_Stage e \<in> {StageJobStart, StageJobDone, StageJobError}
        \<or> evt_Stage e = StageFetchDone \<and> evt_Site e \<noteq> '''' \<and> evt_StatusClass e \<noteq> '''' \<and> evt_Visits e = 1)"

lemma ok_event_valid:
  "ok_event i e \<Longrightarrow> UUIDToBytes i \<noteq> uuid_Nil \<Longrightarrow> evt_TS e \<noteq> 0 \<Longrightarrow> 0 \<le> evt_Dur e \<Longrightarrow> Event_Validate e = Inr ()"
  by (auto simp: ok_event_def Validate_ok_iff)

lemma extractHost_nonempty [simp]: "extractHost u \<noteq> ''''"
  by (simp add: extractHost_def split: option.splits)

definition stages :: "call list \<Rightarrow> Stage list" where
  "stages t = map evt_Stage (picked event_call t)"

lemma stages_simps [simp]:
  "stages [] = []" "stages (c # t) = map evt_Stage (event_call c) @ stages t" "stages (t @ u) = stages t @ stages u"
  by (simp_all add: stages_def)

lemma stages_no_events [simp]: "no_events t \<Longrightarrow> stages t = []"
  by (simp add: no_events_def stages_def)

definition ok_events :: "uuid \<Rightarrow> call list \<Rightarrow> bool" where
  "ok_events i t \<longleftrightarrow> list_all (ok_event i) (picked event_call t)"

lemma ok_events_simps [simp]:
  "ok_events i []" "ok_events i (c # t) \<longleftrightarrow> list_all (ok_event i) (event_call c) \<and> ok_events i t"
  "ok_events i (t @ u) \<longleftrightarrow> ok_events i t \<and> ok_events i u"
  by (simp_all add: ok_events_def)

lemma ok_events_no_events [simp]: "no_events t \<Longrightarrow> ok_events i t"
  by (simp add: no_events_def ok_events_def)

text \<open>A page that counts as a success has been stored, recorded and published by a full page run.\<close>

definition has_page_run :: "'w Worker \<Rightarrow> QueueItem \<Rightarrow> call list \<Rightarrow> bool" where
  "has_page_run W item t \<longleftrightarrow>
     (\<exists>t1 tp t2 u resp. t = t1 @ tp @ t2 \<and> is_page_run W (item_JobID item) (item_JobStartedAt item) u resp tp)"

lemma page_run_records: "is_page_run W j st u resp t \<Longrightarrow> length (picked page_call t) = 1"
  by (auto simp: is_page_run_def Let_def)

lemma has_page_run_records: "has_page_run W item t \<Longrightarrow> 1 \<le> length (picked page_call t)"
  by (auto simp: has_page_run_def dest!: page_run_records)

definition handle_post ::
    "'w Worker \<Rightarrow> QueueItem \<Rightarrow> uuid \<Rightarrow> bool \<Rightarrow> JobCounters \<Rightarrow> error option \<times> JobCounters \<Rightarrow> call list \<Rightarrow> bool" where
  "handle_post W item i hasUUID c res t \<longleftrightarrow>
     (case res of (err, c') \<Rightarrow>
        list_all page_level t \<and> ok_events i t
        \<and> (c' = c \<and> no_events t
          \<or> err \<noteq> None \<and> c' = c\<lparr>PagesFailed := i64 (PagesFailed c + 1)\<rparr> \<and> no_events t
          \<or> err = None \<and> c' = c\<lparr>PagesSucceeded := i64 (PagesSucceeded c + 1)\<rparr>
            \<and> length (picked success_call t) = 1
            \<and> stages t = (if emits W i hasUUID then [StageFetchDone] else [])
            \<and> has_page_run W item t))"

lemma no_events_page_level: "no_events t \<Longrightarrow> list_all page_level t"
  by (simp add: no_events_def)

lemma no_events_success: "no_events t \<Longrightarrow> picked success_call t = []"
  by (simp add: no_events_def)

text \<open>The loop over \<open>n\<close> URLs: how the counters move, and what the calls show of it.\<close>

definition loop_post ::
    "'w Worker \<Rightarrow> QueueItem \<Rightarrow> uuid \<Rightarrow> bool \<Rightarrow> nat \<Rightarrow> JobCounters \<Rightarrow> JobCounters \<Rightarrow> call list \<Rightarrow> bool" where
  "loop_post W item i hasUUID n c c' t \<longleftrightarrow>
     (\<exists>s f. s + f \<le> n
        \<and> c' = c\<lparr>PagesSucceeded := PagesSucceeded c + int s, PagesFailed := PagesFailed c + int f\<rparr>
        \<and> list_all page_level t \<and> ok_events i t
        \<and> length (picked success_call t) = s \<and> s \<le> length (picked page_call t)
        \<and> stages t = replicate (if emits W i hasUUID then s else 0) StageFetchDone)"

lemma loop_post_quiet: "no_events t \<Longrightarrow> loop_post W item i hasUUID n c c t"
  unfolding loop_post_def
  by (intro exI[of _ 0]) (simp add: no_events_page_level no_events_success)

lemma loop_post_step:
  assumes "handle_post W item i hasUUID c (err, c1) t" "loop_post W item i hasUUID n c1 c' u" "no_events v"
    "PagesSucceeded c + 1 < 2 ^ 63" "PagesFailed c + 1 < 2 ^ 63" "0 \<le> PagesSucceeded c" "0 \<le> PagesFailed c"
  shows "loop_post W item i hasUUID (Suc n) c c' (v @ t @ u)"
proof -
  obtain s f where sf: "s + f \<le> n"
    "c' = c1\<lparr>PagesSucceeded := PagesSucceeded c1 + int s, PagesFailed := PagesFailed c1 + int f\<rparr>"
    "list_all page_level u" "ok_events i u" "length (picked success_call u) = s" "s \<le> length (picked page_call u)"
    "stages u = replicate (if emits W i hasUUID then s else 0) StageFetchDone"
    using assms(2) unfolding loop_post_def by blast
  have id: "i64 (PagesSucceeded c + 1) = PagesSucceeded c + 1" "i64 (PagesFailed c + 1) = PagesFailed c + 1"
    using assms(4-7) by (auto intro!: i64_id simp: in_i64_def)
  have t: "list_all page_level t" "ok_events i t"
    using assms(1) by (simp_all add: handle_post_def)
  consider "c1 = c" "no_events t" | "c1 = c\<lparr>PagesFailed := PagesFailed c + 1\<rparr>" "no_events t"
    | "c1 = c\<lparr>PagesSucceeded := PagesSucceeded c + 1\<rparr>" "length (picked success_call t) = 1"
      "stages t = (if emits W i hasUUID then [StageFetchDone] else [])" "1 \<le> length (picked page_call t)"
    using assms(1) id has_page_run_records[of W item t] by (auto simp: handle_post_def)
  then show ?thesis
  proof cases
    case 1
    with sf t assms(3) show ?thesis unfolding loop_post_def
      by (intro exI[of _ s] exI[of _ f]) (auto simp: no_events_page_level no_events_success)
  next
    case 2
    with sf t assms(3) show ?thesis unfolding loop_post_def
      by (intro exI[of _ s] exI[of _ "Suc f"]) (auto simp: no_events_page_level no_events_success)
  next
    case 3
    with sf t assms(3) show ?thesis unfolding loop_post_def
      by (intro exI[of _ "Suc s"] exI[of _ f]) (auto simp: no_events_page_level no_events_success)
  qed
qed

text \<open>The end of a job, and the whole of it.\<close>

definition finalStatus :: "bool \<Rightarrow> JobCounters \<Rightarrow> JobStatus" where
  "finalStatus ended c =
     (if ended then JobStatusCanceled
      else if PagesSucceeded c = 0 then JobStatusFailed else JobStatusSucceeded)"

text \<open>The context of a job: the worker's context, with the job's budget or the configured timeout counted from
  the one clock reading in \<open>t\<close>.\<close>

definition is_job_context :: "'w Worker \<Rightarrow> ctx \<Rightarrow> JobParameters \<Rightarrow> ctx \<Rightarrow> call list \<Rightarrow> bool" where
  "is_job_context W ctx params jobCtx t \<longleftrightarrow>
     (let budget = i64 (BudgetSeconds params * Second);
          budget = (if budget \<le> 0 then JobTimeout (w_cfg W) else budget)
      in if 0 < budget then \<exists>n. t = [CallSysNow n] \<and> jobCtx = WithDeadline ctx (n + budget)
         else t = [] \<and> jobCtx = ctx)"

text \<open>The last look at the job's context: only the bookkeeping of the job's end follows it.\<close>

definition final_check :: "ctx \<Rightarrow> bool \<Rightarrow> call list \<Rightarrow> bool" where
  "final_check jobCtx ended t \<longleftrightarrow> (\<exists>a y b. t = a @ CallCtxErr jobCtx y # b \<and> ended = (y \<noteq> None) \<and> list_all closing b)"

lemma final_check_append: "final_check ctx ended t \<Longrightarrow> final_check ctx ended (u @ t)"
  unfolding final_check_def by (metis append.assoc)

definition finish_post ::
    "'w Worker \<Rightarrow> ctx \<Rightarrow> bytes \<Rightarrow> uuid \<Rightarrow> bool \<Rightarrow> JobCounters \<Rightarrow> call list \<Rightarrow> bool" where
  "finish_post W ctx j i hasUUID c t \<longleftrightarrow>
     (\<exists>ended e x. picked status_call t = [(j, finalStatus ended c, e, c, x)] \<and> final_check ctx ended t
        \<and> (PagesSucceeded c = 0 \<longrightarrow> e \<noteq> '''')
        \<and> list_all (\<lambda>c. active_call c = 0) t \<and> picked success_call t = [] \<and> ok_events i t
        \<and> stages t = (if emits W i hasUUID then [stageFromStatus (finalStatus ended c)] else []))"

definition counters_ok :: "nat \<Rightarrow> JobCounters \<Rightarrow> call list \<Rightarrow> bool" where
  "counters_ok n c t \<longleftrightarrow>
     0 \<le> PagesSucceeded c \<and> 0 \<le> PagesFailed c \<and> PagesSucceeded c + PagesFailed c \<le> int n \<and> Retries c = 0
     \<and> PagesSucceeded c = int (length (picked success_call t))
     \<and> PagesSucceeded c \<le> int (length (picked page_call t))"

definition body_post :: "'w Worker \<Rightarrow> ctx \<Rightarrow> bytes \<Rightarrow> uuid \<Rightarrow> bool \<Rightarrow> nat \<Rightarrow> call list \<Rightarrow> bool" where
  "body_post W ctx j i hasUUID n t \<longleftrightarrow>
     list_all (\<lambda>c. active_call c = 0) t \<and> ok_events i t
     \<and> (probeFetcher W = None \<and> stages t = (if emits W i hasUUID then [StageJobStart, StageJobError] else [])
          \<and> (\<exists>x. picked status_call t =
               (if jobStore W = None then []
                else [(j, JobStatusFailed, ''no probe fetcher configured'', zero_counters, x)]))
        \<or> probeFetcher W \<noteq> None \<and> jobStore W = None \<and> picked status_call t = []
          \<and> stages t = (if emits W i hasUUID then [StageJobStart] else [])
        \<or> (\<exists>e. picked status_call t = [(j, JobStatusRunning, '''', zero_counters, Inl e)]
          \<and> stages t = (if emits W i hasUUID then [StageJobStart] else []))
        \<or> (\<exists>ended e c x. picked status_call t =
               [(j, JobStatusRunning, '''', zero_counters, Inr ()), (j, finalStatus ended c, e, c, x)]
          \<and> final_check ctx ended t
          \<and> (PagesSucceeded c = 0 \<longrightarrow> e \<noteq> '''') \<and> counters_ok n c t
          \<and> stages t = (if emits W i hasUUID
               then StageJobStart # replicate (nat (PagesSucceeded c)) StageFetchDone
                    @ [stageFromStatus (finalStatus ended c)] else [])))"

definition job_post :: "'w Worker \<Rightarrow> ctx \<Rightarrow> QueueItem \<Rightarrow> call list \<Rightarrow> bool" where
  "job_post W ctx item t \<longleftrightarrow>
     (\<exists>jobCtx t1 t2 m. t = CallIncActive # m @ [CallDecActive] \<and> m = t1 @ t2
        \<and> is_job_context W ctx (item_Params item) jobCtx t1
        \<and> body_post W jobCtx (item_JobID item) (fst (parseJobUUID W (item_JobID item)))
            (snd (parseJobUUID W (item_JobID item))) (length (URLs (item_Params item))) m)"

lemma page_level_quiet:
  assumes "list_all page_level t"
  shows "picked status_call t = []" "list_all (\<lambda>c. active_call c = 0) t"
proof -
  have "status_call c = [] \<and> active_call c = 0" if "page_level c" for c
    using that by (cases c) auto
  with assms show "picked status_call t = []" "list_all (\<lambda>c. active_call c = 0) t"
    by (induction t) auto
qed

lemma parseJobUUID_traced [simp]: "parseJobUUID (traced W) j = parseJobUUID W j"
  by (simp add: parseJobUUID_def)

text \<open>The calls before the first status update.\<close>

definition job_started :: "'w Worker \<Rightarrow> uuid \<Rightarrow> bool \<Rightarrow> call list \<Rightarrow> bool" where
  "job_started W i hasUUID t \<longleftrightarrow>
     picked status_call t = [] \<and> list_all (\<lambda>c. active_call c = 0) t \<and> ok_events i t \<and> picked success_call t = []
     \<and> stages t = (if emits W i hasUUID then [StageJobStart] else [])"

lemma counters_okI:
  assumes "loop_post W item i hasUUID n zero_counters c t"
    "picked success_call t0 = []" "picked success_call t2 = []"
  shows "counters_ok n c (t0 @ t @ t2)"
  using assms by (auto simp: loop_post_def counters_ok_def zero_counters_def)

lemma body_post_refused:
  assumes "job_started W i hasUUID t0" "picked status_call t1 = [(j, JobStatusRunning, '''', zero_counters, Inl e)]"
    "list_all (\<lambda>c. active_call c = 0) t1" "ok_events i t1" "stages t1 = []"
  shows "body_post W ctx j i hasUUID n (t0 @ t1)"
  using assms unfolding body_post_def job_started_def by simp

lemma body_post_finished:
  assumes "job_started W i hasUUID t0" "loop_post W item i hasUUID n zero_counters c t2" "finish_post W ctx j i hasUUID c t3"
    "picked status_call t1 = [(j, JobStatusRunning, '''', zero_counters, Inr ())]"
    "list_all (\<lambda>c. active_call c = 0) t1" "ok_events i t1" "stages t1 = []" "picked success_call t1 = []"
  shows "body_post W ctx j i hasUUID n (t0 @ t1 @ t2 @ t3)"
proof -
  obtain ended e x where f: "picked status_call t3 = [(j, finalStatus ended c, e, c, x)]"
    "final_check ctx ended t3"
    "PagesSucceeded c = 0 \<longrightarrow> e \<noteq> ''''" "list_all (\<lambda>c. active_call c = 0) t3" "picked success_call t3 = []"
    "ok_events i t3" "stages t3 = (if emits W i hasUUID then [stageFromStatus (finalStatus ended c)] else [])"
    using assms(3) unfolding finish_post_def by blast
  obtain s where l: "list_all page_level t2" "ok_events i t2" "PagesSucceeded c = int s"
    "stages t2 = replicate (if emits W i hasUUID then s else 0) StageFetchDone"
    using assms(2) by (auto simp: loop_post_def zero_counters_def)
  have "counters_ok n c ((t0 @ t1) @ t2 @ t3)"
    using assms(1,8) f(5) by (intro counters_okI[OF assms(2)]) (auto simp: job_started_def)
  with assms(1,4-7) f l page_level_quiet[OF l(1)] final_check_append[OF f(2), of "t0 @ t1 @ t2"] show ?thesis
    unfolding body_post_def job_started_def
    by (intro conjI disjI2) (auto simp: stages_def[symmetric])
qed

subsection \<open>The services\<close>

locale services =
  fixes W :: "'w Worker" and view :: "'w \<Rightarrow> 'v" and app :: "call \<Rightarrow> 'v \<Rightarrow> 'v"
  assumes follows_status: "jobStore W = Some js \<Longrightarrow>
      follows view app (js_UpdateJobStatus js ctx j s e c) (CallUpdateJobStatus j s e c)"
    and follows_page: "jobStore W = Some js \<Longrightarrow> follows view app (js_RecordPage js ctx p) (CallRecordPage p)"
    and follows_put: "follows view app (blob_PutObject W ctx path ct d) (CallPutObject path ct d)"
    and follows_retrieval: "StoreRetrieval W = Some f \<Longrightarrow> follows view app (f ctx rr) (CallStoreRetrieval rr)"
    and follows_publish: "Publish W = Some g \<Longrightarrow> follows view app (g ctx tp pl) (CallPublish tp pl)"
    and follows_hash: "follows view app (Hash W d) (CallHash d)"
    and follows_now: "follows view app (clock_Now W) CallNow"
    and follows_probe: "probeFetcher W = Some h \<Longrightarrow> follows view app (h ctx req) (CallProbe ctx req)"
    and follows_headless: "headlessFetcher W = Some h \<Longrightarrow> follows view app (h ctx req) (CallHeadless ctx req)"
    and follows_allow: "policy W = Some q \<Longrightarrow> follows view app (AllowFetch q j u n) (CallAllowFetch j u)"
    and follows_allow_headless: "policy W = Some q \<Longrightarrow> follows view app (AllowHeadless q j u n) (CallAllowHeadless j u)"
    and follows_wait: "policy W = Some q \<Longrightarrow> follows view app (policy_Wait q ctx u) (CallWait ctx u)"
    and follows_id: "NewID W = Some i \<Longrightarrow> follows view app i CallNewID"
    and follows_emit: "Emit W = Some em \<Longrightarrow> follows view app (em evt) (\<lambda>_. CallEmit evt)"
    and follows_crawl: "follows view app (tele_ObserveCrawl W u st k) (\<lambda>_. CallObserveCrawl u st k)"
    and follows_job: "follows view app (tele_ObserveJob W st) (\<lambda>_. CallObserveJob st)"
    and follows_inc: "follows view app (tele_IncActiveWorkers W) (\<lambda>_. CallIncActive)"
    and follows_dec: "follows view app (tele_DecActiveWorkers W) (\<lambda>_. CallDecActive)"
    and follows_ctx: "follows view app (CtxErr W ctx) (CallCtxErr ctx)"
    and follows_sys: "follows view app (SysNow W) CallSysNow"
    and follows_sleep: "follows view app (SleepOrDone W ctx dur) (CallSleep ctx dur)"
begin

abbreviation sp :: "('w \<times> call list, 'a) state \<Rightarrow> ('a \<Rightarrow> call list \<Rightarrow> bool) \<Rightarrow> bool" where
  "sp \<equiv> trace_spec view app"

abbreviation T :: "('w \<times> call list) Worker" where "T \<equiv> traced W"

lemmas op = spec_logged[OF follows_put] spec_logged[OF follows_hash] spec_logged[OF follows_now]
  spec_logged[OF follows_crawl] spec_logged[OF follows_job] spec_logged[OF follows_inc]
  spec_logged[OF follows_dec] spec_logged[OF follows_ctx] spec_logged[OF follows_sys]
  spec_logged[OF follows_sleep]

lemma WithTimeout_spec: "sp (WithTimeout T p d) (\<lambda>c t. \<exists>n. t = [CallSysNow n] \<and> c = WithDeadline p (n + d))"
  unfolding WithTimeout_def by (auto intro!: spec_bind op spec_return)

lemma pageContext_spec: "sp (pageContext T p) (\<lambda>c t. no_events t \<and> picked probe_call t = [] \<and> picked sleep_call t = []
    \<and> (0 < RequestTimeout (w_cfg W) \<longrightarrow> (\<exists>n. t = [CallSysNow n] \<and> c = WithDeadline p (n + RequestTimeout (w_cfg W)))))"
  unfolding pageContext_def
  by (auto intro!: spec_return spec_conseq[OF WithTimeout_spec])

lemma fetchProbe_spec:
  assumes "probeFetcher W = Some f"
  shows "sp (fetchProbe T (traced_fetcher f) ctx item u) (\<lambda>r t. \<exists>x.
    no_events t \<and> picked probe_call t = [(fetch_request item u False, x)] \<and> picked sleep_call t = []
    \<and> r = probe_error x)"
  unfolding fetchProbe_def recordPage_def
  by (auto intro!: spec_bind spec_conseq[OF pageContext_spec] spec_logged[OF follows_probe[OF assms]]
        op spec_return exI[of _ "Inl _"] exI[of _ "Inr _"] split: sum.splits)

lemma retry_step_spec:
  assumes "probeFetcher W = Some f" "0 \<le> a"
    and rest: "\<And>e. retryable (Inl e) \<Longrightarrow>
      sp (retry_loop T (traced_fetcher f) ctx item u n (a + 1) (Some (Wrapped ''probe fetch'' e)))
        (\<lambda>r t. n = 0 \<and> t = [] \<and> r = probe_error (Inl e)
           \<or> retry_post (RetryBackoffBase (w_cfg W)) (fetch_request item u False) n (a + 1) r t)"
  shows "sp (retry_loop T (traced_fetcher f) ctx item u (Suc n) a err)
    (retry_post (RetryBackoffBase (w_cfg W)) (fetch_request item u False) (Suc n) a)"
proof -
  let ?base = "RetryBackoffBase (w_cfg W)" and ?req = "fetch_request item u False"
  let ?Q = "\<lambda>r t. (a = 0 \<longrightarrow> retry_post ?base ?req (Suc n) 0 r t)
      \<and> (0 < a \<longrightarrow> retry_post ?base ?req (Suc n) a r (CallSleep ctx (i64 (?base * a)) None # t))"
  let ?k = "\<lambda>r. case r of
      Inr resp \<Rightarrow> State_Monad.return (Inr resp)
    | Inl e \<Rightarrow> if errors_Is e ContextCanceled \<or> errors_Is e ContextDeadlineExceeded
        then State_Monad.return (Inl e)
        else retry_loop T (traced_fetcher f) ctx item u n (a + 1) (Some e)"
  have step: "sp (?k (probe_error x)) (\<lambda>r v. ?Q r (t @ v))"
    if t: "no_events t" "picked probe_call t = [(?req, x)]" "picked sleep_call t = []" for x t
  proof (cases "retryable x")
    case False
    with retry_post_last[OF t, of n] show ?thesis
      by (cases x) (auto intro!: spec_return simp: probe_error_def)
  next
    case True
    then obtain e where x: "x = Inl e" by (cases x) auto
    from rest[of e] True x have "sp (?k (probe_error x)) (\<lambda>r t. n = 0 \<and> t = [] \<and> r = probe_error x
        \<or> retry_post ?base ?req n (a + 1) r t)"
      by auto
    then show ?thesis
    proof (rule spec_conseq)
      fix r v
      assume "n = 0 \<and> v = [] \<and> r = probe_error x \<or> retry_post ?base ?req n (a + 1) r v"
      then show "?Q r (t @ v)"
      proof
        assume "n = 0 \<and> v = [] \<and> r = probe_error x"
        then show ?thesis by (auto intro!: retry_post_last[OF t])
      next
        assume "retry_post ?base ?req n (a + 1) r v"
        then show ?thesis by (auto intro!: retry_post_more[OF t True _ assms(2)])
      qed
    qed
  qed
  have attempt: "sp (fetchProbe T (traced_fetcher f) ctx item u \<bind> ?k) ?Q"
    by (rule spec_bind, rule spec_conseq[OF fetchProbe_spec[OF assms(1)]]) (use step in auto)
  show ?thesis
  proof (cases "a = 0")
    case True
    with attempt show ?thesis by (auto intro!: spec_bind spec_return elim!: spec_conseq)
  next
    case False
    with assms(2) have "0 < a" by simp
    with attempt show ?thesis
      by (auto intro!: spec_bind op spec_return retry_post_done elim!: spec_conseq split: option.splits)
  qed
qed

lemma retry_loop_spec:
  assumes "probeFetcher W = Some f"
  shows "0 \<le> a \<Longrightarrow> sp (retry_loop T (traced_fetcher f) ctx item u (Suc n) a err)
    (retry_post (RetryBackoffBase (w_cfg W)) (fetch_request item u False) (Suc n) a)"
proof (induction n arbitrary: a err)
  case 0
  then show ?case by (intro retry_step_spec assms) (auto intro: spec_return)
next
  case (Suc n)
  show ?case
    by (rule retry_step_spec[OF assms Suc.prems], rule spec_conseq[OF Suc.IH]) (use Suc.prems in auto)
qed

lemma fetchProbeWithRetry_spec:
  assumes "probeFetcher W = Some f" "0 \<le> MaxRetries (w_cfg W)"
  shows "sp (fetchProbeWithRetry T (traced_fetcher f) ctx item u)
    (retry_post (RetryBackoffBase (w_cfg W)) (fetch_request item u False) (nat (MaxRetries (w_cfg W)) + 1) 0)"
proof -
  have "nat (MaxRetries (w_cfg W) + 1) = Suc (nat (MaxRetries (w_cfg W)))"
    using assms(2) by simp
  with retry_loop_spec[OF assms(1), of 0] show ?thesis
    by (simp add: fetchProbeWithRetry_def del: retry_loop.simps)
qed

lemma page_context_spec: "sp (pageContext T ctx) (\<lambda>c t. is_page_context W ctx c t)"
  unfolding pageContext_def is_page_context_def by (auto intro!: spec_return spec_conseq[OF WithTimeout_spec])

lemma allowHeadless_spec: "sp (allowHeadless T j u n) (\<lambda>b t.
    if policy W = None then b \<and> t = [] else t = [CallAllowHeadless j u b])"
  unfolding allowHeadless_def
  by (cases "policy W") (auto intro!: spec_return spec_logged follows_allow_headless)

lemma maybePromote_spec: "sp (maybePromote T ctx item u resp) (promote_post W ctx item u resp)"
proof (cases "HeadlessAllowed (item_Params item) \<and> detector W \<noteq> None \<and> headlessFetcher W \<noteq> None")
  case False
  then show ?thesis
    unfolding maybePromote_def
    by (cases "HeadlessAllowed (item_Params item)"; cases "detector W"; cases "headlessFetcher W")
       (auto intro!: spec_return simp: promote_post_def)
next
  case True
  then obtain sh hf where d: "detector W = Some sh" "headlessFetcher W = Some hf"
    "HeadlessAllowed (item_Params item)" by auto
  have post: "promote_post W ctx item u resp res (t1 @ t2)"
    if "if policy W = None then allowed \<and> t1 = [] else t1 = [CallAllowHeadless (item_JobID item) u allowed]"
      "if allowed \<and> sh resp
       then \<exists>t3 pageCtx x. t2 = t3 @ [CallHeadless pageCtx (fetch_request item u True) x]
         \<and> is_page_context W ctx pageCtx t3
         \<and> res = (case x of Inl _ \<Rightarrow> (resp, False) | Inr hr \<Rightarrow> (hr\<lparr>resp_UsedHeadless := True\<rparr>, True))
       else t2 = [] \<and> res = (resp, False)" for allowed t1 t2 res
    unfolding promote_post_def using that by (simp only: d option.case prod.case if_True) blast
  have render: "sp (do { c \<leftarrow> pageContext T ctx;
        r \<leftarrow> logged (hf c (fetch_request item u True)) (CallHeadless c (fetch_request item u True));
        (case r of Inl _ \<Rightarrow> State_Monad.return (resp, False)
         | Inr hr \<Rightarrow> State_Monad.return (hr\<lparr>resp_UsedHeadless := True\<rparr>, True)) })
      (\<lambda>res t. \<exists>t3 pageCtx x. t = t3 @ [CallHeadless pageCtx (fetch_request item u True) x]
         \<and> is_page_context W ctx pageCtx t3
         \<and> res = (case x of Inl _ \<Rightarrow> (resp, False) | Inr hr \<Rightarrow> (hr\<lparr>resp_UsedHeadless := True\<rparr>, True)))"
  proof (rule spec_bind, rule spec_conseq[OF page_context_spec], rule spec_bind, rule spec_logged[OF follows_headless[OF d(2)]],
      goal_cases)
    case (1 c t r)
    then show ?case by (cases r) (auto intro!: spec_return exI[of _ t] exI[of _ c] exI[of _ r])
  qed
  have main: "sp (do {
        allowed \<leftarrow> allowHeadless T (item_JobID item) u 0;
        if \<not> allowed \<or> \<not> sh resp then State_Monad.return (resp, False)
        else do { c \<leftarrow> pageContext T ctx;
          r \<leftarrow> logged (hf c (fetch_request item u True)) (CallHeadless c (fetch_request item u True));
          (case r of Inl _ \<Rightarrow> State_Monad.return (resp, False)
           | Inr hr \<Rightarrow> State_Monad.return (hr\<lparr>resp_UsedHeadless := True\<rparr>, True)) } })
      (promote_post W ctx item u resp)"
  proof (rule spec_bind, rule spec_conseq[OF allowHeadless_spec], goal_cases)
    case (1 allowed t1)
    show ?case
    proof (cases "allowed \<and> sh resp")
      case True
      then show ?thesis
        by (simp, intro spec_conseq[OF render] post[OF 1]) simp
    next
      case False
      then show ?thesis using post[OF 1, of "[]"] by (auto intro!: spec_return)
    qed
  qed
  from main d show ?thesis by (simp add: maybePromote_def)
qed

lemma newPageID_spec:
  assumes "NewID W \<noteq> None"
  shows "sp (newPageID T) (\<lambda>r t. case r of
      Inr i \<Rightarrow> t = [CallNewID (Inr i)]
    | Inl e' \<Rightarrow> \<exists>e. t = [CallNewID (Inl e)] \<and> e' = Wrapped ''generate page id'' e)"
  using assms unfolding newPageID_def
  by (auto intro!: spec_check_err spec_logged[OF follows_id] spec_return split: sum.splits)

lemma putJSON_spec:
  "sp (putJSON T ctx p js) (\<lambda>r t. case r of
      Inr i \<Rightarrow> t = [CallPutObject p ''application/json'' (Marshal js) (Inr i)]
    | Inl e' \<Rightarrow> \<exists>e. t = [CallPutObject p ''application/json'' (Marshal js) (Inl e)] \<and> e' = Wrapped ''put object'' e)"
  unfolding putJSON_def
  by (auto intro!: spec_check_err op spec_return split: sum.splits)

lemma putScreenshot_spec:
  "sp (putScreenshot T ctx base shot) (\<lambda>r t. case r of
      Inr _ \<Rightarrow> \<exists>i. t = (if shot = [] then [] else [CallPutObject (path_Join [base, ''screenshot.png'']) ''image/png'' shot (Inr i)])
    | Inl e' \<Rightarrow> \<exists>e. shot \<noteq> [] \<and> t = [CallPutObject (path_Join [base, ''screenshot.png'']) ''image/png'' shot (Inl e)]
        \<and> e' = Wrapped ''put screenshot'' e)"
  unfolding putScreenshot_def
  by (auto intro!: spec_check_err op spec_return split: sum.splits)

lemma storeRetrieval_spec:
  "sp (storeRetrieval T ctx page ct k) (\<lambda>r t. case r of
      Inr _ \<Rightarrow> t = (if StoreRetrieval W = None then [] else [CallStoreRetrieval (retrieval_record page ct k) (Inr ())])
    | Inl e' \<Rightarrow> \<exists>e. StoreRetrieval W \<noteq> None \<and> t = [CallStoreRetrieval (retrieval_record page ct k) (Inl e)]
        \<and> e' = Wrapped ''store retrieval'' e)"
  unfolding storeRetrieval_def
  by (cases "StoreRetrieval W")
     (auto intro!: spec_check_err spec_logged[OF follows_retrieval] spec_return split: sum.splits)

lemma publishResult_spec:
  "sp (publishResult T ctx j s u h m i) (\<lambda>r t. case r of
      Inr _ \<Rightarrow> \<exists>x. t = (if Publish W = None \<or> Topic (w_cfg W) = '''' then []
        else [CallPublish (Topic (w_cfg W)) (publish_payload i j s u h m) (Inr x)])
    | Inl e' \<Rightarrow> \<exists>e. Publish W \<noteq> None \<and> Topic (w_cfg W) \<noteq> ''''
        \<and> t = [CallPublish (Topic (w_cfg W)) (publish_payload i j s u h m) (Inl e)] \<and> e' = Wrapped ''publish payload'' e)"
  unfolding publishResult_def
  by (cases "Publish W")
     (auto intro!: spec_check_err spec_logged[OF follows_publish] spec_return split: sum.splits)

lemma persist_tail_spec:
  assumes "jobStore W = Some js"
    "base = buildBlobPath (w_tab W) (w_cfg W) at (extractHost (resp_URL resp)) i"
    "ct = contentTypeFromResponse resp (ContentType (w_cfg W))"
    "pre = [CallHash (resp_Body resp) (Inr h), CallNewID (Inr i), CallNow at,
      CallPutObject (path_Join [base, ''raw.html'']) (ContentType (w_cfg W)) (resp_Body resp) (Inr raw),
      CallPutObject (path_Join [base, ''headers.json'']) ''application/json''
        (Marshal (headers_json (resp_Headers resp))) (Inr hdr),
      CallPutObject (path_Join [base, ''meta.json'']) ''application/json''
        (Marshal (pageMetaPayload resp h ct j)) (Inr mt)]"
  shows "sp (recordAndPublish T (traced_store js) ctx j u resp base ct mt (page_record i j st at h raw resp))
    (\<lambda>r t. persist_post W j st u resp r (pre @ t))"
  unfolding assms(4) recordAndPublish_def
  by (auto intro!: spec_check_err spec_conseq[OF putScreenshot_spec] spec_logged[OF follows_page[OF assms(1)]]
      spec_conseq[OF storeRetrieval_spec] spec_conseq[OF publishResult_spec]
      simp: persist_post_def is_page_run_def Let_def assms(2,3) split: sum.splits if_splits)

lemma persistAndPublish_spec:
  assumes "jobStore W = Some js" "NewID W \<noteq> None"
  shows "sp (persistAndPublish T (traced_store js) ctx j st u resp) (persist_post W j st u resp)"
  unfolding persistAndPublish_def Let_def
  by (auto intro!: spec_check_err spec_bind op spec_conseq[OF newPageID_spec[OF assms(2)]] spec_conseq[OF putJSON_spec]
      spec_conseq[OF persist_tail_spec[OF assms(1) refl refl refl]] persist_failed
      split: sum.splits)

lemma emitEvent_spec:
  assumes "Emit W = Some em" "i \<noteq> uuid_Nil" "st \<noteq> ''''"
    and mut: "\<And>at. sp (mutate (new_Event (UUIDToBytes i) at st)) (\<lambda>e t. Q e \<and> (\<forall>c \<in> set t. \<exists>n. c = CallNow n))"
  shows "sp (emitEvent T i st mutate) (\<lambda>_ t. \<exists>t1 e. t = t1 @ [CallEmit e] \<and> Q e \<and> (\<forall>c \<in> set t1. \<exists>n. c = CallNow n))"
  unfolding emitEvent_def using assms(1-3)
  by (auto intro!: spec_bind op spec_conseq[OF mut] spec_logged[OF follows_emit[OF assms(1)]])

lemma only_clock:
  assumes "\<forall>c \<in> set t. \<exists>n. c = CallNow n"
  shows "no_events t" "picked probe_call t = []" "picked status_call t = []" "sum_list (map active_call t) = 0"
    "list_all closing t"
  using assms by (induction t) auto

lemma emitFetchEvent_spec:
  "sp (emitFetchEvent T i u resp) (\<lambda>_ t. list_all page_level t \<and> ok_events i t \<and> picked success_call t = []
     \<and> stages t = (if emits W i True then [StageFetchDone] else []))"
proof (cases "emits W i True")
  case True
  then obtain em where em: "Emit W = Some em" "i \<noteq> uuid_Nil" by (auto simp: emits_def)
  let ?mut = "\<lambda>evt. State_Monad.return (evt\<lparr>evt_Site := extractHost u, evt_URL := u,
     evt_Bytes := int (length (resp_Body resp)), evt_Visits := 1,
     evt_StatusClass := ClassifyStatus (resp_StatusCode resp), evt_Dur := resp_Duration resp\<rparr>)"
  have "sp (emitEvent T i StageFetchDone ?mut) (\<lambda>_ t. \<exists>t1 e. t = t1 @ [CallEmit e]
      \<and> (ok_event i e \<and> evt_Stage e = StageFetchDone) \<and> (\<forall>c \<in> set t1. \<exists>n. c = CallNow n))"
    using em by (intro emitEvent_spec) (auto intro!: spec_return simp: ok_event_def new_Event_def)
  then show ?thesis
    unfolding emitFetchEvent_def Let_def using True
    by (elim spec_conseq) (auto dest!: only_clock(1) simp: no_events_page_level no_events_success)
next
  case False
  then show ?thesis
    by (auto simp: emitFetchEvent_def emitEvent_def emits_def intro!: spec_return split: option.splits)
qed

lemma allowFetch_spec: "sp (allowFetch T j u n) (\<lambda>_ t. no_events t)"
  unfolding allowFetch_def
  by (cases "policy W") (auto intro!: spec_return spec_logged follows_allow)

text \<open>What follows a successful probe: the calls made before it are in \<open>t0\<close>.\<close>

lemma finishURL_spec:
  assumes "jobStore W = Some js" "NewID W \<noteq> None" "no_events t0"
  shows "sp (finishURL T (traced_store js) ctx item i hasUUID u resp c)
    (\<lambda>res t. handle_post W item i hasUUID c res (t0 @ t))"
proof -
  have run: "has_page_run W item (t0 @ t @ t2)"
    if "is_page_run W (item_JobID item) (item_JobStartedAt item) u resp t" for t t2
    using that unfolding has_page_run_def by blast
  have emit: "sp (when_do hasUUID (emitFetchEvent T i u resp)) (\<lambda>_ t. list_all page_level t \<and> ok_events i t
      \<and> picked success_call t = [] \<and> stages t = (if emits W i hasUUID then [StageFetchDone] else []))"
    by (cases hasUUID) (auto intro!: spec_when spec_conseq[OF emitFetchEvent_spec] simp: emits_def)
  show ?thesis
    using assms(3)
    by (auto intro!: spec_bind spec_conseq[OF persistAndPublish_spec[OF assms(1,2)]] op spec_conseq[OF emit] spec_return run
      simp: finishURL_def recordPage_def handle_post_def persist_post_def no_events_page_level no_events_success
      split: sum.splits)
qed

lemma handleURL_spec:
  assumes "probeFetcher W = Some f" "jobStore W = Some js" "NewID W \<noteq> None" "0 \<le> MaxRetries (w_cfg W)"
  shows "sp (handleURL T (traced_fetcher f) (traced_store js) ctx item i hasUUID u c) (handle_post W item i hasUUID c)"
proof -
  have quiet: "handle_post W item i hasUUID c (e, c) t" if "no_events t" for e t
    using that by (simp add: handle_post_def no_events_page_level)
  have fail: "handle_post W item i hasUUID c (Some e, c\<lparr>PagesFailed := i64 (PagesFailed c + 1)\<rparr>) t" if "no_events t" for e t
    using that by (simp add: handle_post_def no_events_page_level)
  have wait: "sp (case policy T of None \<Rightarrow> State_Monad.return (Inr ()) | Some p \<Rightarrow> policy_Wait p ctx v)
      (\<lambda>_ t. no_events t)" for v
    by (cases "policy W") (auto intro!: spec_return spec_logged follows_wait)
  have fetch: "sp (fetchProbeWithRetry T (traced_fetcher f) ctx item v) (\<lambda>_ t. no_events t)" for v
    by (rule spec_conseq[OF fetchProbeWithRetry_spec[OF assms(1,4)]]) (auto simp: retry_post_def)
  have promote: "sp (maybePromote T ctx item v resp) (\<lambda>_ t. no_events t)" for v resp
    by (rule spec_conseq[OF maybePromote_spec promote_quiet])
  have fin: "sp (finishURL T (traced_store js) ctx item i hasUUID v resp c)
      (\<lambda>res td. handle_post W item i hasUUID c res (t @ ta @ tb @ tc @ td))"
    if "no_events t" "no_events ta" "no_events tb" "no_events tc" for v resp t ta tb tc
    using finishURL_spec[OF assms(2,3), of "t @ ta @ tb @ tc"] that by simp
  show ?thesis
    unfolding handleURL_def Let_def
    by (auto intro!: spec_bind spec_conseq[OF allowFetch_spec] spec_conseq[OF wait] spec_conseq[OF fetch]
        spec_conseq[OF promote] spec_case_prod spec_return quiet fail
        fin simp del: traced_simps(11) split: sum.splits)
qed

lemma url_loop_spec:
  assumes "probeFetcher W = Some f" "jobStore W = Some js" "NewID W \<noteq> None" "0 \<le> MaxRetries (w_cfg W)"
    "0 \<le> PagesSucceeded c" "0 \<le> PagesFailed c"
    "PagesSucceeded c + int (length us) < 2 ^ 63" "PagesFailed c + int (length us) < 2 ^ 63"
  shows "sp (url_loop T (traced_fetcher f) (traced_store js) ctx item i hasUUID us c e)
    (\<lambda>r t. loop_post W item i hasUUID (length us) c (fst r) t)"
  using assms(5-8)
proof (induction us arbitrary: c e)
  case Nil
  then show ?case by (auto intro!: spec_return loop_post_quiet)
next
  case (Cons u us)
  have next_spec: "sp (url_loop T (traced_fetcher f) (traced_store js) ctx item i hasUUID us c1 e1)
      (\<lambda>r v. loop_post W item i hasUUID (Suc (length us)) c (fst r) (CallCtxErr ctx None # t @ v))"
    if "handle_post W item i hasUUID c (err, c1) t" for err c1 e1 t
  proof -
    have b: "0 \<le> PagesSucceeded c1" "0 \<le> PagesFailed c1"
      "PagesSucceeded c1 + int (length us) < 2 ^ 63" "PagesFailed c1 + int (length us) < 2 ^ 63"
      using that Cons.prems by (auto simp: handle_post_def in_i64_def)
    show ?thesis
      using loop_post_step[OF that, of "length us" _ _ "[CallCtxErr ctx None]"] Cons.prems
      by (intro spec_conseq[OF Cons.IH[OF b]]) (auto split: prod.splits)
  qed
  show ?case
    by (auto intro!: spec_bind op spec_return spec_conseq[OF handleURL_spec[OF assms(1-4)]] next_spec loop_post_quiet
        spec_case_prod split: option.splits)
qed

lemma updateJobStatus_spec:
  "sp (updateJobStatus T j st e c) (\<lambda>r t. (\<exists>x. picked status_call t = (if jobStore W = None then [] else [(j, st, e, c, x)])
      \<and> (jobStore W \<noteq> None \<longrightarrow> isl r = isl x) \<and> (jobStore W = None \<longrightarrow> isl r))
     \<and> list_all (\<lambda>c. active_call c = 0) t \<and> ok_events i t \<and> stages t = [] \<and> picked success_call t = []
     \<and> picked page_call t = [] \<and> list_all closing t)"
proof (cases "jobStore W")
  case None
  then show ?thesis unfolding updateJobStatus_def by (auto intro!: spec_return)
next
  case (Some js)
  then show ?thesis
    unfolding updateJobStatus_def statusContext_def
    by (auto intro!: spec_bind spec_conseq[OF WithTimeout_spec] spec_check_err spec_logged[OF follows_status[OF Some]]
        spec_return split: sum.splits)
qed

lemma emit_job_spec:
  assumes "st \<in> {StageJobStart, StageJobDone, StageJobError}"
    and mut: "\<And>at. sp (mutate (new_Event (UUIDToBytes i) at st))
      (\<lambda>e t. (evt_Stage e = st \<and> evt_JobID e = UUIDToBytes i) \<and> (\<forall>c \<in> set t. \<exists>n. c = CallNow n))"
  shows "sp (when_do hasUUID (emitEvent T i st mutate)) (\<lambda>_ t. picked status_call t = []
     \<and> list_all (\<lambda>c. active_call c = 0) t \<and> ok_events i t \<and> picked success_call t = [] \<and> list_all closing t
     \<and> stages t = (if emits W i hasUUID then [st] else []))"
proof (cases "emits W i hasUUID")
  case True
  then obtain em where em: "Emit W = Some em" "i \<noteq> uuid_Nil" hasUUID by (auto simp: emits_def)
  have clock: "no_events t \<and> list_all closing t" if "\<forall>c \<in> set t. \<exists>n. c = CallNow n" for t
    using only_clock(1,5)[OF that] by simp
  have "sp (emitEvent T i st mutate) (\<lambda>_ t. \<exists>t1 e. t = t1 @ [CallEmit e]
      \<and> (evt_Stage e = st \<and> evt_JobID e = UUIDToBytes i) \<and> (\<forall>c \<in> set t1. \<exists>n. c = CallNow n))"
    using em(1,2) assms(1) mut by (intro emitEvent_spec) auto
  then have "sp (emitEvent T i st mutate) (\<lambda>_ t. picked status_call t = []
     \<and> list_all (\<lambda>c. active_call c = 0) t \<and> ok_events i t \<and> picked success_call t = []
     \<and> list_all closing t \<and> stages t = [st])"
    using assms(1)
    by (elim spec_conseq)
       (auto dest!: clock simp: page_level_quiet no_events_page_level no_events_success ok_event_def)
  with True em(3) show ?thesis by (auto intro!: spec_when)
next
  case False
  then show ?thesis
    by (auto simp: emitEvent_def emits_def when_do_def intro!: spec_return split: option.splits)
qed

lemma emitJobCompletion_spec:
  assumes "stageFromStatus st \<noteq> ''''"
  shows "sp (when_do hasUUID (emitJobCompletion T i st start note)) (\<lambda>_ t. picked status_call t = []
     \<and> list_all (\<lambda>c. active_call c = 0) t \<and> ok_events i t \<and> picked success_call t = [] \<and> list_all closing t
     \<and> stages t = (if emits W i hasUUID then [stageFromStatus st] else []))"
proof -
  have "stageFromStatus st \<in> {StageJobStart, StageJobDone, StageJobError}"
    using assms by (cases st) auto
  then have "sp (when_do hasUUID (emitEvent T i (stageFromStatus st) (\<lambda>evt. do {
        t \<leftarrow> clock_Now T;
        let evt = evt\<lparr>evt_Dur := time_Sub t start\<rparr>;
        State_Monad.return (if note \<noteq> '''' then evt\<lparr>evt_Note := note\<rparr> else evt) })))
      (\<lambda>_ t. picked status_call t = []
     \<and> list_all (\<lambda>c. active_call c = 0) t \<and> ok_events i t \<and> picked success_call t = [] \<and> list_all closing t
     \<and> stages t = (if emits W i hasUUID then [stageFromStatus st] else []))"
    by (rule emit_job_spec) (auto intro!: spec_bind op spec_return simp: new_Event_def Let_def)
  then show ?thesis
    using assms by (simp add: emitJobCompletion_def Let_def)
qed

lemma finish_job_spec:
  assumes "jobStore W \<noteq> None"
  shows "sp (finish_job T ctx j i hasUUID start c e) (\<lambda>_ t. finish_post W ctx j i hasUUID c t)"
proof -
  let ?e = "if PagesSucceeded c = 0 \<and> e = '''' then ''no pages were fetched'' else e"
  have derive: "sp (deriveFinalStatus T ctx c e) (\<lambda>r t. \<exists>x. r = (finalStatus (x \<noteq> None) c, ?e) \<and> t = [CallCtxErr ctx x])"
    unfolding deriveFinalStatus_def Let_def traced_simps
    by (intro spec_bind op spec_return) (auto simp: finalStatus_def)
  have stage: "stageFromStatus (finalStatus ended c) \<noteq> ''''" for ended
    by (simp add: finalStatus_def)
  have check: "final_check ctx (x \<noteq> None) (CallCtxErr ctx x # t)" if "list_all closing t" for x t
    using that unfolding final_check_def by (metis append_Nil)
  have tail: "sp (do {
        _ \<leftarrow> updateJobStatus T j (finalStatus (x \<noteq> None) c) ?e c;
        tele_ObserveJob T (JobStatus_string (finalStatus (x \<noteq> None) c));
        when_do hasUUID (emitJobCompletion T i (finalStatus (x \<noteq> None) c) start ?e) })
      (\<lambda>_ t. finish_post W ctx j i hasUUID c (CallCtxErr ctx x # t))" for x
  proof (intro spec_bind, rule spec_conseq[OF updateJobStatus_spec[of j _ _ c i]])
    fix r t1
    assume "(\<exists>z. picked status_call t1 = (if jobStore W = None then [] else [(j, finalStatus (x \<noteq> None) c, ?e, c, z)])
        \<and> (jobStore W \<noteq> None \<longrightarrow> isl r = isl z) \<and> (jobStore W = None \<longrightarrow> isl r))
      \<and> list_all (\<lambda>c. active_call c = 0) t1 \<and> ok_events i t1 \<and> stages t1 = [] \<and> picked success_call t1 = []
      \<and> picked page_call t1 = [] \<and> list_all closing t1"
    with assms obtain y where "picked status_call t1 = [(j, finalStatus (x \<noteq> None) c, ?e, c, y)]"
      "list_all (\<lambda>c. active_call c = 0) t1" "ok_events i t1" "stages t1 = []" "picked success_call t1 = []"
      "list_all closing t1"
      by auto
    then show "sp (tele_ObserveJob T (JobStatus_string (finalStatus (x \<noteq> None) c)) \<bind>
        (\<lambda>_. when_do hasUUID (emitJobCompletion T i (finalStatus (x \<noteq> None) c) start ?e)))
        (\<lambda>_ u. finish_post W ctx j i hasUUID c (CallCtxErr ctx x # t1 @ u))"
      unfolding traced_simps
      by - (intro spec_bind op, rule spec_conseq[OF emitJobCompletion_spec[OF stage]], unfold finish_post_def,
            intro exI[of _ "x \<noteq> None"] exI[of _ ?e] exI[of _ y], use check in \<open>auto simp del: not_None_eq\<close>)
  qed
  show ?thesis
    unfolding finish_job_def
    by (rule spec_bind, rule spec_conseq[OF derive]) (use tail in auto)
qed

lemma job_run_spec:
  assumes "probeFetcher W = Some f" "NewID W \<noteq> None" "0 \<le> MaxRetries (w_cfg W)" "int (length us) < 2 ^ 63"
    "job_started W i hasUUID t0"
  shows "sp (do {
      updated \<leftarrow> updateJobStatus T j JobStatusRunning '''' zero_counters;
      (case (updated, jobStore T) of
         (Inr _, Some js) \<Rightarrow> do {
           (counters, errText) \<leftarrow> url_loop T (traced_fetcher f) js jobCtx item i hasUUID us zero_counters '''';
           finish_job T jobCtx j i hasUUID start counters errText
         }
       | _ \<Rightarrow> State_Monad.return ()) })
    (\<lambda>_ t. body_post W jobCtx j i hasUUID (length us) (t0 @ t))"
proof (cases "jobStore W")
  case None
  show ?thesis
    by (rule spec_bind, rule spec_conseq[OF updateJobStatus_spec[of _ _ _ _ i]])
       (use None assms(1,5) in \<open>auto intro!: spec_return simp: body_post_def job_started_def split: sum.splits\<close>)
next
  case (Some js)
  have loop: "sp (do {
        (counters, errText) \<leftarrow> url_loop T (traced_fetcher f) (traced_store js) jobCtx item i hasUUID us zero_counters '''';
        finish_job T jobCtx j i hasUUID start counters errText })
      (\<lambda>_ t. body_post W jobCtx j i hasUUID (length us) (t0 @ t1 @ t))"
    if "picked status_call t1 = [(j, JobStatusRunning, '''', zero_counters, Inr ())]"
      "list_all (\<lambda>c. active_call c = 0) t1" "ok_events i t1" "stages t1 = []" "picked success_call t1 = []" for t1
  proof -
    have z: "0 \<le> PagesSucceeded zero_counters" "0 \<le> PagesFailed zero_counters"
      "PagesSucceeded zero_counters + int (length us) < 2 ^ 63" "PagesFailed zero_counters + int (length us) < 2 ^ 63"
      using assms(4) by (simp_all add: zero_counters_def)
    have js: "jobStore W \<noteq> None" using Some by simp
    show ?thesis
      by (intro spec_bind, rule spec_conseq[OF url_loop_spec[OF assms(1) Some assms(2,3) z]], rule spec_case_prod,
          rule spec_conseq[OF finish_job_spec[OF js]])
         (use body_post_finished[OF assms(5) _ _ that] in auto)
  qed
  show ?thesis
  proof (rule spec_bind, rule spec_conseq[OF updateJobStatus_spec[of _ _ _ _ i]], goal_cases)
    case (1 r t1)
    then obtain x where x: "picked status_call t1 = [(j, JobStatusRunning, '''', zero_counters, x)]" "isl r = isl x"
      and q: "list_all (\<lambda>c. active_call c = 0) t1" "ok_events i t1" "stages t1 = []" "picked success_call t1 = []"
      using Some by auto
    show ?case
    proof (cases r)
      case (Inl e)
      with x obtain e' where "x = Inl e'" by (cases x) auto
      with x have "body_post W jobCtx j i hasUUID (length us) (t0 @ t1)"
        by (intro body_post_refused[OF assms(5) _ q(1-3)]) simp
      with Inl show ?thesis by (auto intro!: spec_return)
    next
      case (Inr u)
      with x have "x = Inr ()" by (cases x) auto
      with x have "picked status_call t1 = [(j, JobStatusRunning, '''', zero_counters, Inr ())]" by simp
      from loop[OF this q] Inr Some show ?thesis by simp
    qed
  qed
qed

lemma job_refused_spec:
  assumes "probeFetcher W = None" "job_started W i hasUUID t0"
  shows "sp (do {
      _ \<leftarrow> updateJobStatus T j JobStatusFailed ''no probe fetcher configured'' zero_counters;
      when_do hasUUID (emitJobCompletion T i JobStatusFailed start ''no probe fetcher configured'') })
    (\<lambda>_ t. body_post W jobCtx j i hasUUID n (t0 @ t))"
proof -
  have st: "stageFromStatus JobStatusFailed \<noteq> ''''" by simp
  show ?thesis
    by (rule spec_bind, rule spec_conseq[OF updateJobStatus_spec[of _ _ _ _ i]],
        rule spec_conseq[OF emitJobCompletion_spec[OF st]])
       (use assms in \<open>auto simp: body_post_def job_started_def split: if_splits\<close>)
qed

lemma jobContext_spec: "sp (jobContext T p params) (\<lambda>c t. no_events t \<and> is_job_context W p params c t)"
  unfolding jobContext_def is_job_context_def Let_def by (auto intro!: spec_return spec_conseq[OF WithTimeout_spec])

lemma job_start_spec:
  "sp (when_do hasUUID (emitEvent T i StageJobStart (\<lambda>evt. State_Monad.return (evt\<lparr>evt_TS := start\<rparr>))))
     (\<lambda>_ t. job_started W i hasUUID t)"
  by (rule spec_conseq[OF emit_job_spec]) (auto intro!: spec_return simp: new_Event_def job_started_def)

lemma job_started_after:
  "job_started W i hasUUID t \<Longrightarrow> no_events t0 \<Longrightarrow> job_started W i hasUUID (t0 @ CallNow n # t)"
  by (auto simp: job_started_def no_events_page_level no_events_success page_level_quiet)

lemma runJob_spec:
  assumes "NewID W \<noteq> None" "0 \<le> MaxRetries (w_cfg W)" "int (length (URLs (item_Params item))) < 2 ^ 63"
    "job_started W i hasUUID t0"
  shows "sp (runJob T jobCtx item i hasUUID start)
    (\<lambda>_ t. body_post W jobCtx (item_JobID item) i hasUUID (length (URLs (item_Params item))) (t0 @ t))"
proof (cases "probeFetcher W")
  case None
  then show ?thesis using job_refused_spec[OF None assms(4)] by (simp add: runJob_def Let_def)
next
  case (Some f)
  then show ?thesis using job_run_spec[OF Some assms] by (simp add: runJob_def)
qed

lemma processJob_spec:
  assumes "NewID W \<noteq> None" "0 \<le> MaxRetries (w_cfg W)" "int (length (URLs (item_Params item))) < 2 ^ 63"
  shows "sp (processJob T ctx item) (\<lambda>_ t. job_post W ctx item t)"
proof -
  obtain i hasUUID where u: "parseJobUUID W (item_JobID item) = (i, hasUUID)" by (metis prod.exhaust)
  have run: "sp (runJob T jobCtx (item\<lparr>item_JobStartedAt := start\<rparr>) i hasUUID start \<bind>
        (\<lambda>_. logged (tele_DecActiveWorkers W) (\<lambda>_. CallDecActive)))
      (\<lambda>_ t. job_post W ctx item (CallIncActive # t1 @ CallNow start # t2 @ t))"
    if "no_events t1" "is_job_context W ctx (item_Params item) jobCtx t1" "job_started W i hasUUID t2" for t1 t2 start jobCtx
  proof (rule spec_bind, rule spec_conseq[OF runJob_spec[OF assms(1,2) _ job_started_after[OF that(3,1), of start]]], goal_cases)
    case 1
    show ?case using assms(3) by simp
  next
    case (2 r t)
    then have "body_post W jobCtx (item_JobID item) i hasUUID (length (URLs (item_Params item))) (t1 @ CallNow start # t2 @ t)"
      by simp
    with that(2) have "job_post W ctx item (CallIncActive # (t1 @ CallNow start # t2 @ t) @ [CallDecActive])"
      unfolding job_post_def u by - (rule exI[of _ jobCtx], rule exI[of _ t1], auto)
    then show ?case by (intro op) simp
  qed
  show ?thesis
    unfolding processJob_def Let_def parseJobUUID_traced
    by (auto intro!: spec_bind[where m = "when_do _ _"] spec_bind[where m = "jobContext _ _ _"] spec_bind[where m = "logged _ _"]
        op spec_conseq[OF jobContext_spec] spec_conseq[OF job_start_spec] run simp: u)
qed

end

text \<open>Any services at all satisfy the laws for a view that shows nothing.\<close>

interpretation any: services W "\<lambda>_. ()" "\<lambda>_ _. ()" for W :: "'w Worker"
  by unfold_locales (simp_all add: follows_def)

lemma persist_run:
  assumes "jobStore W = Some js" "NewID W \<noteq> None"
  shows "\<exists>r w' t. run_state (persistAndPublish (traced W) (traced_store js) ctx j st u resp) (w, []) = (r, w', t)
    \<and> run_state (persistAndPublish W js ctx j st u resp) w = (r, w') \<and> persist_post W j st u resp r t"
  using spec_run[OF any.persistAndPublish_spec[OF assms, of ctx j st u resp] erases_persistAndPublish, of w] by blast

end
