(* ===== verification/BlobStore.thy ===== *)
theory BlobStore
  imports CrawlerTypes
begin

text \<open>
  The blob stores: in memory (internal/storage/memory/blob_store.go), on the local filesystem
  (internal/storage/local/blob_store.go) and in Google Cloud Storage
  (internal/storage/gcs/blob_store.go). The operating system and the cloud client are parameters of
  the latter two. An \<^verbatim>\<open>io.Reader\<close> argument is the result of reading it to the end.

  The locale \<open>blob_store\<close> states what the worker relies on; the in-memory store interprets it. For
  the local store the main lemma is containment: what is written lies under the base directory.
\<close>

subsection \<open>In memory\<close>

record BlobStore =
  bs_data :: "bytes \<rightharpoonup> bytes"
  bs_uris :: "bytes \<rightharpoonup> bytes"

definition NewBlobStore :: BlobStore where
  "NewBlobStore = \<lparr>bs_data = Map.empty, bs_uris = Map.empty\<rparr>"

definition memory_PutObject ::
    "bytes \<Rightarrow> bytes \<Rightarrow> bytes result \<Rightarrow> BlobStore \<Rightarrow> bytes result \<times> BlobStore" where
  "memory_PutObject path contentType reader s =
     (case reader of
        Inl e \<Rightarrow> (Inl (Wrapped ''failed to read data from reader'' e), s)
      | Inr byteData \<Rightarrow>
          let uri = ''memory://'' @ path
          in (Inr uri, s\<lparr>bs_data := (bs_data s)(path \<mapsto> byteData),
                        bs_uris := (bs_uris s)(path \<mapsto> uri)\<rparr>))"

subsection \<open>The contract\<close>

locale blob_store =
  fixes put :: "bytes \<Rightarrow> bytes \<Rightarrow> bytes result \<Rightarrow> 's \<Rightarrow> bytes result \<times> 's"
    and content :: "'s \<Rightarrow> bytes \<rightharpoonup> bytes"
    and uri_of :: "bytes \<Rightarrow> bytes"
  assumes put_read_error: "\<exists>e'. put p ct (Inl e) s = (Inl e', s)"
    and put_stores: "put p ct (Inr d) s = (Inr u, s') \<Longrightarrow>
      content s' = (content s)(p \<mapsto> d) \<and> u = uri_of p"
    and put_fails: "put p ct (Inr d) s = (Inl e, s') \<Longrightarrow> \<forall>q. q \<noteq> p \<longrightarrow> content s' q = content s q"
begin

lemma put_other: "put p ct (Inr d) s = (r, s') \<Longrightarrow> q \<noteq> p \<Longrightarrow> content s' q = content s q"
  by (cases r) (auto dest: put_stores put_fails)

text \<open>A sequence of writes leaves every path it does not name alone, and a successful write stays
  readable as long as later writes go elsewhere.\<close>

lemma put_snd_other: "q \<noteq> p \<Longrightarrow> content (snd (put p ct (Inr d) s)) q = content s q"
  using put_other[of p ct d s "fst (put p ct (Inr d) s)" "snd (put p ct (Inr d) s)" q] by simp

lemma puts_other:
  "q \<notin> fst ` set xs \<Longrightarrow>
     content (fold (\<lambda>(p, ct, d) s. snd (put p ct (Inr d) s)) xs s) q = content s q"
  by (induction xs arbitrary: s) (auto simp: put_snd_other)

lemma put_then_others:
  assumes "put p ct (Inr d) s = (Inr u, s')" "p \<notin> fst ` set xs"
  shows "content (fold (\<lambda>(p, ct, d) s. snd (put p ct (Inr d) s)) xs s') p = Some d"
  using put_stores[OF assms(1)] puts_other[OF assms(2), of s'] by simp

end

interpretation mem_blob: blob_store memory_PutObject bs_data "\<lambda>p. ''memory://'' @ p"
  by unfold_locales (auto simp: memory_PutObject_def Let_def)

text \<open>Every stored object has its URI recorded beside it.\<close>

definition blobstore_inv :: "BlobStore \<Rightarrow> bool" where
  "blobstore_inv s \<longleftrightarrow> dom (bs_data s) = dom (bs_uris s)
     \<and> (\<forall>p u. bs_uris s p = Some u \<longrightarrow> u = ''memory://'' @ p)"

lemma blobstore_inv_new: "blobstore_inv NewBlobStore"
  by (simp add: blobstore_inv_def NewBlobStore_def)

lemma blobstore_inv_put: "blobstore_inv s \<Longrightarrow> blobstore_inv (snd (memory_PutObject p ct r s))"
  by (auto simp: blobstore_inv_def memory_PutObject_def Let_def split: sum.splits if_splits)

subsection \<open>On the local filesystem\<close>

text \<open>The calls into package os; \<open>'fs\<close> is the state of the filesystem. \<^verbatim>\<open>os.Stat\<close> returns whether the
  path is a directory.\<close>

record 'fs os =
  os_Stat :: "bytes \<Rightarrow> 'fs \<Rightarrow> bool result"
  os_IsNotExist :: "error \<Rightarrow> bool"
  os_MkdirAll :: "bytes \<Rightarrow> 'fs \<Rightarrow> error option \<times> 'fs"
  os_WriteFile :: "bytes \<Rightarrow> bytes \<Rightarrow> 'fs \<Rightarrow> error option \<times> 'fs"
  os_Remove :: "bytes \<Rightarrow> 'fs \<Rightarrow> error option \<times> 'fs"

text \<open>\<^verbatim>\<open>local.New\<close>: the result is the base directory of the store.\<close>

definition check_writable :: "'fs os \<Rightarrow> bytes \<Rightarrow> 'fs \<Rightarrow> bytes result \<times> 'fs" where
  "check_writable os baseDir fs0 =
     (let testFile = path_Join [baseDir, ''.writable_test''];
          (werr, fs1) = os_WriteFile os testFile ''test'' fs0
      in case werr of
           Some e \<Rightarrow> (Inl (Wrapped ''base directory is not writable'' e), fs1)
         | None \<Rightarrow>
             (let (rerr, fs2) = os_Remove os testFile fs1
              in case rerr of
                   Some e \<Rightarrow> (Inl (Wrapped ''failed to clean up test file'' e), fs2)
                 | None \<Rightarrow> (Inr baseDir, fs2)))"

definition local_New :: "'fs os \<Rightarrow> bytes \<Rightarrow> 'fs \<Rightarrow> bytes result \<times> 'fs" where
  "local_New os baseDir fs0 =
     (if strings_TrimSpace baseDir = ''''
      then (Inl (ErrorString ''base directory is required''), fs0)
      else
        (case os_Stat os baseDir fs0 of
           Inl err \<Rightarrow>
             if os_IsNotExist os err then
               (let (merr, fs1) = os_MkdirAll os baseDir fs0
                in case merr of
                     Some e \<Rightarrow> (Inl (Wrapped ''failed to create base directory'' e), fs1)
                   | None \<Rightarrow> check_writable os baseDir fs1)
             else (Inl (Wrapped ''failed to stat base directory'' err), fs0)
         | Inr isDir \<Rightarrow>
             if \<not> isDir then (Inl (ErrorString ''base directory path is not a directory''), fs0)
             else check_writable os baseDir fs0))"

definition local_PutObject ::
    "'fs os \<Rightarrow> bytes \<Rightarrow> bytes \<Rightarrow> bytes \<Rightarrow> bytes result \<Rightarrow> 'fs \<Rightarrow> bytes result \<times> 'fs" where
  "local_PutObject os baseDir path contentType reader fs0 =
     (if strings_TrimSpace path = '''' then (Inl (ErrorString ''path is required''), fs0)
      else
        let fullPath = path_Join [baseDir, path];
            cleanBaseDir = path_Clean baseDir;
            cleanFullPath = path_Clean fullPath
        in
        if \<not> strings_HasPrefix cleanFullPath (cleanBaseDir @ ''/'')
        then (Inl (ErrorString ''path traversal detected''), fs0)
        else
          (let (merr, fs1) = os_MkdirAll os (path_Dir fullPath) fs0
           in case merr of
                Some e \<Rightarrow> (Inl (Wrapped ''failed to create parent directories'' e), fs1)
              | None \<Rightarrow>
                  (case reader of
                     Inl e \<Rightarrow> (Inl (Wrapped ''failed to read data from reader'' e), fs1)
                   | Inr byteData \<Rightarrow>
                       (let (werr, fs2) = os_WriteFile os fullPath byteData fs1
                        in case werr of
                             Some e \<Rightarrow> (Inl (Wrapped ''failed to write file'' e), fs2)
                           | None \<Rightarrow> (Inr (''file://'' @ fullPath), fs2)))))"

text \<open>The path that is written, by its cleaned elements: those of the base directory, then proper
  file names only.\<close>

definition contained_in :: "bytes \<Rightarrow> bytes \<Rightarrow> bool" where
  "contained_in base f \<longleftrightarrow> rooted f = rooted base
     \<and> (\<exists>rel. rel \<noteq> [] \<and> clean_segs f = clean_segs base @ rel \<and> (\<forall>e \<in> set rel. proper e))"

lemma path_Join2: "b \<noteq> [] \<Longrightarrow> p \<noteq> [] \<Longrightarrow> path_Join [b, p] = path_Clean (b @ CHR ''/'' # p)"
  by (simp add: path_Join_def)

lemma rooted_append: "b \<noteq> [] \<Longrightarrow> rooted (b @ p) = rooted b"
  by (cases b) simp_all

lemma normal_stack_no_dot: "normal_stack r st \<Longrightarrow> ''.'' \<notin> set st"
  by (induction st) (auto simp: proper_def)

lemma no_clean_prefix_of_empty:
  assumes "clean_segs b = []" "rooted f = rooted b"
  shows "\<not> prefix (path_Clean b @ ''/'') (path_Clean f)"
proof
  assume pre: "prefix (path_Clean b @ ''/'') (path_Clean f)"
  show False
  proof (cases "rooted b")
    case True
    with assms pre have "prefix ''/'' (join_with (CHR ''/'') (clean_segs f))"
      by (simp add: path_Clean_segs[of b] path_Clean_segs[of f])
    then have "rooted (join_with (CHR ''/'') (clean_segs f))" "clean_segs f \<noteq> []"
      by (auto simp: rooted_def prefix_def)
    with join_not_rooted[of "clean_segs f"] clean_segs_no_slash[of _ f] show False by blast
  next
    case False
    with assms pre have "prefix ''./'' (path_Clean f)" by (simp add: path_Clean_segs[of b])
    then obtain t where t: "path_Clean f = ''.'' @ CHR ''/'' # t" by (auto simp: prefix_def)
    with False assms(2) have ne: "clean_segs f \<noteq> []"
      and "join_with (CHR ''/'') (clean_segs f) = ''.'' @ CHR ''/'' # t"
      by (auto simp: path_Clean_segs[of f] split: if_splits)
    then have "split_on (CHR ''/'') (join_with (CHR ''/'') (clean_segs f)) = ''.'' # split_on (CHR ''/'') t"
      by (simp only:) (simp add: split_on_append_sep)
    moreover have "split_on (CHR ''/'') (join_with (CHR ''/'') (clean_segs f)) = clean_segs f"
      using clean_segs_no_slash[of _ f] ne by (intro split_join) auto
    ultimately have "''.'' \<in> set (clean_segs f)" by simp
    with normal_stack_no_dot[OF normal_clean_segs[of f]] show False by simp
  qed
qed

lemma accepted_contained:
  assumes "base \<noteq> []" "p \<noteq> []" "clean_segs base = [] \<or> last (clean_segs base) \<noteq> ''..''"
    and "prefix (path_Clean base @ ''/'') (path_Clean (path_Join [base, p]))"
  shows "contained_in base (path_Join [base, p])"
proof -
  have r: "rooted (path_Join [base, p]) = rooted base"
    using assms(1,2) by (simp add: path_Join2 rooted_append)
  with assms(4) no_clean_prefix_of_empty[of base] have "clean_segs base \<noteq> []" by blast
  with clean_prefix_contained[OF assms(4)] r assms(3) show ?thesis
    by (auto simp: contained_in_def)
qed

text \<open>A directory at or below the base directory.\<close>

definition within :: "bytes \<Rightarrow> bytes \<Rightarrow> bool" where
  "within base d \<longleftrightarrow> rooted d = rooted base
     \<and> (\<exists>rel. clean_segs d = clean_segs base @ rel \<and> (\<forall>e \<in> set rel. proper e))"

lemma contained_Dir:
  assumes "contained_in base (path_Clean f)"
  shows "within base (path_Dir (path_Clean f))"
proof -
  obtain rel where rel: "rel \<noteq> []" "clean_segs f = clean_segs base @ rel" "\<forall>e \<in> set rel. proper e" "rooted f = rooted base"
    using assms by (auto simp: contained_in_def)
  then have "clean_segs (path_Dir (path_Clean f)) = clean_segs base @ butlast rel" "rooted (path_Dir (path_Clean f)) = rooted base"
    using clean_segs_Dir[of f] by (auto simp: butlast_append)
  with rel(3) show ?thesis by (auto simp: within_def dest: in_set_butlastD)
qed

text \<open>The calls that change the filesystem, logged beside it.\<close>

datatype os_call = OpMkdirAll bytes | OpWriteFile bytes bytes | OpRemove bytes

definition logged_os :: "'fs os \<Rightarrow> ('fs \<times> os_call list) os" where
  "logged_os os =
     \<lparr>os_Stat = (\<lambda>p (fs, l). os_Stat os p fs), os_IsNotExist = os_IsNotExist os,
      os_MkdirAll = (\<lambda>p (fs, l). case os_MkdirAll os p fs of (e, fs') \<Rightarrow> (e, fs', l @ [OpMkdirAll p])),
      os_WriteFile = (\<lambda>p d (fs, l). case os_WriteFile os p d fs of (e, fs') \<Rightarrow> (e, fs', l @ [OpWriteFile p d])),
      os_Remove = (\<lambda>p (fs, l). case os_Remove os p fs of (e, fs') \<Rightarrow> (e, fs', l @ [OpRemove p]))\<rparr>"

text \<open>What a call may touch when data \<open>rd\<close> is stored below \<open>base\<close>.\<close>

fun op_contained :: "bytes \<Rightarrow> bytes result \<Rightarrow> os_call \<Rightarrow> bool" where
  "op_contained base rd (OpMkdirAll d) = within base d"
| "op_contained base rd (OpWriteFile f d) = (contained_in base f \<and> rd = Inr d)"
| "op_contained base rd (OpRemove f) = False"

subsection \<open>In Google Cloud Storage\<close>

text \<open>The bucket writer: \<open>gcs_copy\<close> is \<^verbatim>\<open>io.Copy\<close> into a new object writer (bucket, object,
  content type or none, data), \<open>gcs_close\<close> its \<^verbatim>\<open>Close\<close>, which commits the object.\<close>

record 'g gcs_client =
  gcs_copy :: "ctx \<Rightarrow> bytes \<Rightarrow> bytes \<Rightarrow> bytes option \<Rightarrow> bytes result \<Rightarrow> 'g \<Rightarrow> error option \<times> 'g"
  gcs_close :: "'g \<Rightarrow> error option \<times> 'g"

definition gcs_New :: "'g gcs_client option \<Rightarrow> bytes \<Rightarrow> ('g gcs_client \<times> bytes) result" where
  "gcs_New client bucket =
     (case client of
        None \<Rightarrow> Inl (ErrorString ''storage client is required'')
      | Some c \<Rightarrow>
          if bucket = '''' then Inl (ErrorString ''bucket name is required'') else Inr (c, bucket))"

definition gcs_PutObject ::
    "'g gcs_client \<Rightarrow> bytes \<Rightarrow> ctx \<Rightarrow> bytes \<Rightarrow> bytes \<Rightarrow> bytes result \<Rightarrow> 'g \<Rightarrow> bytes result \<times> 'g" where
  "gcs_PutObject client bucket ctx path contentType reader g0 =
     (if strings_TrimSpace path = '''' then (Inl (ErrorString ''path is required''), g0)
      else
        let ct = (if contentType \<noteq> '''' then Some contentType else None);
            (copyErr, g1) = gcs_copy client ctx bucket path ct reader g0;
            (closeErr, g2) = gcs_close client g1
        in
        case copyErr of
          Some err \<Rightarrow>
            (case closeErr of
               Some cerr \<Rightarrow>
                 (Inl (WrappedIn ''copy object: '' err ('' (close writer: '' @ Error cerr @ '')'')), g2)
             | None \<Rightarrow> (Inl (Wrapped ''copy object'' err), g2))
        | None \<Rightarrow>
            (case closeErr of
               Some cerr \<Rightarrow> (Inl (Wrapped ''close writer'' cerr), g2)
             | None \<Rightarrow> (Inr (''gs://'' @ bucket @ ''/'' @ path), g2)))"

subsection \<open>Local writes\<close>

lemma local_put_logged:
  assumes "local_PutObject (logged_os os) base p ct rd (fs, l) = (r, fs', ops)"
  shows "local_PutObject os base p ct rd fs = (r, fs')"
  using assms
  by (auto simp: local_PutObject_def logged_os_def Let_def split: if_splits prod.splits option.splits sum.splits)

lemma local_put_ops:
  assumes "local_PutObject (logged_os os) base p ct rd (fs, []) = (r, fs', ops)"
  shows "(ops = [] \<and> isl r \<and> (strings_TrimSpace p = '''' \<or> \<not> prefix (path_Clean base @ ''/'') (path_Clean (path_Join [base, p]))))
    \<or> (strings_TrimSpace p \<noteq> '''' \<and> prefix (path_Clean base @ ''/'') (path_Clean (path_Join [base, p]))
       \<and> (ops = [OpMkdirAll (path_Dir (path_Join [base, p]))] \<and> isl r
          \<or> (\<exists>d. rd = Inr d \<and> ops = [OpMkdirAll (path_Dir (path_Join [base, p])), OpWriteFile (path_Join [base, p]) d]
              \<and> (isl r \<or> r = Inr (''file://'' @ path_Join [base, p])))))"
  using assms
  by (auto simp: local_PutObject_def logged_os_def Let_def split: if_splits prod.splits option.splits sum.splits)

lemma local_put_refused:
  assumes "local_PutObject (logged_os os) base p ct rd (fs, []) = (Inl (ErrorString ''path traversal detected''), fs', ops)"
  shows "ops = []"
  using assms
  by (auto simp: local_PutObject_def logged_os_def Let_def split: if_splits prod.splits option.splits sum.splits)

lemma local_put_contained:
  assumes "base \<noteq> ''''" "clean_segs base = [] \<or> last (clean_segs base) \<noteq> ''..''"
    and "local_PutObject (logged_os os) base p ct rd (fs, []) = (r, fs', ops)"
  shows "list_all (op_contained base rd) ops"
    "r = Inr uri \<Longrightarrow> uri = ''file://'' @ path_Join [base, p] \<and> contained_in base (path_Join [base, p])
       \<and> (\<exists>d. rd = Inr d \<and> ops = [OpMkdirAll (path_Dir (path_Join [base, p])), OpWriteFile (path_Join [base, p]) d])"
proof -
  have ok: "contained_in base (path_Join [base, p]) \<and> within base (path_Dir (path_Join [base, p]))"
    if "strings_TrimSpace p \<noteq> ''''" "prefix (path_Clean base @ ''/'') (path_Clean (path_Join [base, p]))"
  proof -
    have "p \<noteq> ''''" using that(1) by auto
    with accepted_contained[OF assms(1) _ assms(2) that(2)] contained_Dir[of base "base @ CHR ''/'' # p"] assms(1)
    show ?thesis by (simp add: path_Join2)
  qed
  show "list_all (op_contained base rd) ops" using local_put_ops[OF assms(3)] ok by auto
  show "r = Inr uri \<Longrightarrow> uri = ''file://'' @ path_Join [base, p] \<and> contained_in base (path_Join [base, p])
       \<and> (\<exists>d. rd = Inr d \<and> ops = [OpMkdirAll (path_Dir (path_Join [base, p])), OpWriteFile (path_Join [base, p]) d])"
    using local_put_ops[OF assms(3)] ok by auto
qed

text \<open>A base directory that ends in dot-dot is no barrier: its own prefix check accepts a path that leads out.\<close>

lemma dotdot_base_escapes:
  "hd (snd (snd (local_PutObject (logged_os os) ''..'' ''../x'' ct (Inr d) (fs, [])))) = OpMkdirAll ''../..''
   \<and> \<not> within ''..'' ''../..''"
proof -
  have "path_Join [''..'', ''../x''] = ''../../x''" "path_Clean ''..'' = ''..''" "path_Clean ''../../x'' = ''../../x''"
    "path_Dir ''../../x'' = ''../..''" "strings_TrimSpace ''../x'' = ''../x''" "clean_segs ''..'' = [''..'']"
    "clean_segs ''../..'' = [''..'', ''..'']"
    by code_simp+
  then show ?thesis
    by (auto simp: local_PutObject_def logged_os_def within_def proper_def Let_def
        split: prod.splits option.splits sum.splits)
qed

end
