(* ===== verification/Detector.thy ===== *)
theory Detector
  imports CrawlerTypes
begin

text \<open>
  The headless promotion heuristic (internal/headless/detector/heuristic.go): the two
  case-insensitive tag searches, the script-density loop over byte offsets, and the decision.
  Lemmas: the searches find the first occurrence and nothing else, the loop terminates and its
  coverage never exceeds the document, and it counts what a byte-by-byte scan counts.
\<close>

record Heuristic =
  BodyLengthThreshold :: int

definition NewHeuristic :: "int \<Rightarrow> Heuristic" where
  "NewHeuristic threshold =
     \<lparr>BodyLengthThreshold = (if threshold = 0 then 2048 else threshold)\<rparr>"

definition spaMarkers :: "bytes list" where
  "spaMarkers =
     [''__next'',
      ''id='' @ [CHR 0x22] @ ''root'' @ [CHR 0x22],
      ''id='' @ [CHR 0x22] @ ''app'' @ [CHR 0x22],
      ''data-reactroot'']"

subsection \<open>Tag search\<close>

text \<open>Both searches jump from one \<^verbatim>\<open><\<close> to the next; \<open>n\<close> is the length of the tag and \<open>matches\<close> the
  comparison of the bytes after the \<^verbatim>\<open><\<close>.\<close>

function index_tag :: "nat \<Rightarrow> (bytes \<Rightarrow> nat \<Rightarrow> bool) \<Rightarrow> bytes \<Rightarrow> nat \<Rightarrow> nat option" where
  "index_tag n matches s i =
     (if i + n \<le> length s then
        (case index_byte (drop i s) (CHR ''<'') of
           None \<Rightarrow> None
         | Some idx \<Rightarrow>
             if length s < i + idx + n then None
             else if matches s (i + idx) then Some (i + idx)
             else index_tag n matches s (Suc (i + idx)))
      else None)"
  by pat_completeness auto
termination
proof (relation "measure (\<lambda>(n, matches, s, i). Suc (length s) - i)", goal_cases)
  case (2 n matches s i idx)
  then show ?case using index_byte_SomeD[OF 2(2)] by auto
qed simp

declare index_tag.simps [simp del]

definition match_script_open :: "bytes \<Rightarrow> nat \<Rightarrow> bool" where
  "match_script_open s i \<longleftrightarrow>
     (s ! (i + 1) = CHR ''s'' \<or> s ! (i + 1) = CHR ''S'')
     \<and> (s ! (i + 2) = CHR ''c'' \<or> s ! (i + 2) = CHR ''C'')
     \<and> (s ! (i + 3) = CHR ''r'' \<or> s ! (i + 3) = CHR ''R'')
     \<and> (s ! (i + 4) = CHR ''i'' \<or> s ! (i + 4) = CHR ''I'')
     \<and> (s ! (i + 5) = CHR ''p'' \<or> s ! (i + 5) = CHR ''P'')
     \<and> (s ! (i + 6) = CHR ''t'' \<or> s ! (i + 6) = CHR ''T'')"

definition match_script_close :: "bytes \<Rightarrow> nat \<Rightarrow> bool" where
  "match_script_close s i \<longleftrightarrow>
     s ! (i + 1) = CHR ''/''
     \<and> (s ! (i + 2) = CHR ''s'' \<or> s ! (i + 2) = CHR ''S'')
     \<and> (s ! (i + 3) = CHR ''c'' \<or> s ! (i + 3) = CHR ''C'')
     \<and> (s ! (i + 4) = CHR ''r'' \<or> s ! (i + 4) = CHR ''R'')
     \<and> (s ! (i + 5) = CHR ''i'' \<or> s ! (i + 5) = CHR ''I'')
     \<and> (s ! (i + 6) = CHR ''p'' \<or> s ! (i + 6) = CHR ''P'')
     \<and> (s ! (i + 7) = CHR ''t'' \<or> s ! (i + 7) = CHR ''T'')
     \<and> s ! (i + 8) = CHR ''>''"

definition indexScriptOpen :: "bytes \<Rightarrow> nat option" where
  "indexScriptOpen s = index_tag 7 match_script_open s 0"

definition indexScriptClose :: "bytes \<Rightarrow> nat option" where
  "indexScriptClose s = index_tag 9 match_script_close s 0"

text \<open>Where a tag occurs: the specification of the searches.\<close>

definition tag_at :: "bytes \<Rightarrow> bytes \<Rightarrow> nat \<Rightarrow> bool" where
  "tag_at tag s i \<longleftrightarrow> i + length tag \<le> length s \<and> map ascii_lower (take (length tag) (drop i s)) = tag"

lemma index_tag_Some:
  "index_tag n m s i = Some k \<Longrightarrow>
     i \<le> k \<and> k + n \<le> length s \<and> s ! k = CHR ''<'' \<and> m s k
     \<and> (\<forall>j. i \<le> j \<longrightarrow> j < k \<longrightarrow> j + n \<le> length s \<longrightarrow> \<not> (s ! j = CHR ''<'' \<and> m s j))"
proof (induction n m s i rule: index_tag.induct)
  case (1 n m s i)
  from "1.prems" have len: "i + n \<le> length s"
    by (subst (asm) index_tag.simps) (auto split: if_splits)
  with "1.prems" obtain idx where idx: "index_byte (drop i s) (CHR ''<'') = Some idx"
    and fit: "i + idx + n \<le> length s"
    by (subst (asm) index_tag.simps) (auto split: option.splits if_splits)
  have at: "s ! (i + idx) = CHR ''<''" and before: "\<And>j. i \<le> j \<Longrightarrow> j < i + idx \<Longrightarrow> s ! j \<noteq> CHR ''<''"
  proof -
    from index_byte_SomeD[OF idx] len show "s ! (i + idx) = CHR ''<''" by simp
    fix j assume "i \<le> j" "j < i + idx"
    moreover from this index_byte_SomeD[OF idx] have "drop i s ! (j - i) \<noteq> CHR ''<''" by simp
    ultimately show "s ! j \<noteq> CHR ''<''" using len by simp
  qed
  show ?case
  proof (cases "m s (i + idx)")
    case True
    with "1.prems" len idx fit have "k = i + idx"
      by (subst (asm) index_tag.simps) simp
    with True at before fit show ?thesis by auto
  next
    case False
    with "1.prems" len idx fit have "index_tag n m s (Suc (i + idx)) = Some k"
      by (subst (asm) index_tag.simps) simp
    from "1.IH"[OF len idx _ False this] fit
    have IH: "Suc (i + idx) \<le> k" "k + n \<le> length s" "s ! k = CHR ''<''" "m s k"
      "\<And>j. Suc (i + idx) \<le> j \<Longrightarrow> j < k \<Longrightarrow> j + n \<le> length s \<Longrightarrow> \<not> (s ! j = CHR ''<'' \<and> m s j)"
      by auto
    have "\<not> (s ! j = CHR ''<'' \<and> m s j)" if "i \<le> j" "j < k" "j + n \<le> length s" for j
      using before[of j] False IH(5)[of j] that
      by (cases "j < i + idx"; cases "j = i + idx") auto
    with IH show ?thesis by auto
  qed
qed

lemma index_tag_None:
  "index_tag n m s i = None \<Longrightarrow> 0 < n \<Longrightarrow> i \<le> j \<Longrightarrow> j + n \<le> length s \<Longrightarrow>
     \<not> (s ! j = CHR ''<'' \<and> m s j)"
proof (induction n m s i rule: index_tag.induct)
  case (1 n m s i)
  from "1.prems" have len: "i + n \<le> length s" by simp
  show ?case
  proof (cases "index_byte (drop i s) (CHR ''<'')")
    case None
    then have "CHR ''<'' \<notin> set (drop i s)" by (simp add: index_byte_None)
    moreover have "drop i s ! (j - i) = s ! j" "j - i < length (drop i s)"
      using "1.prems" len by simp_all
    ultimately show ?thesis by (metis nth_mem)
  next
    case (Some idx)
    have before: "s ! j \<noteq> CHR ''<''" if "j < i + idx"
    proof -
      from that "1.prems"(3) index_byte_SomeD[OF Some] have "drop i s ! (j - i) \<noteq> CHR ''<''" by simp
      then show ?thesis using len "1.prems"(3) by simp
    qed
    show ?thesis
    proof (cases "length s < i + idx + n")
      case True
      with "1.prems"(4) before show ?thesis by auto
    next
      case fit: False
      with "1.prems"(1) len Some have nm: "\<not> m s (i + idx)"
        and rec: "index_tag n m s (Suc (i + idx)) = None"
        by (subst (asm) index_tag.simps, simp split: if_splits)+
      from "1.IH"[OF len Some fit nm rec] "1.prems"(2,4) nm before show ?thesis
        by (cases "j < i + idx"; cases "j = i + idx") auto
    qed
  qed
qed

text \<open>The byte comparisons are the case-insensitive comparison with the tag.\<close>

lemma ascii_lower_eq_letter:
  assumes "97 \<le> code x" "code x \<le> (122::nat)" "code x = code y + (32::nat)"
  shows "ascii_lower c = x \<longleftrightarrow> c = x \<or> c = y"
proof
  assume low: "ascii_lower c = x"
  show "c = x \<or> c = y"
  proof (cases "65 \<le> code c \<and> code c \<le> (90::nat)")
    case True
    then have "code c + 32 = (code x :: nat)"
      using low code_ascii_lower[of c] by simp
    with assms(3) have "code c = (code y :: nat)" by simp
    then show ?thesis by simp
  next
    case False
    with low show ?thesis by (auto simp: ascii_lower_def)
  qed
next
  assume "c = x \<or> c = y"
  moreover have "byte (code y + (32::nat)) = x" unfolding assms(3)[symmetric] by simp
  moreover have "65 \<le> code y \<and> code y \<le> (90::nat)" using assms by linarith
  ultimately show "ascii_lower c = x" using assms(1) by (auto simp: ascii_lower_def)
qed

lemma ascii_lower_eq_other:
  assumes "code x < (97::nat)" "code x < 65 \<or> 90 < (code x :: nat)"
  shows "ascii_lower c = x \<longleftrightarrow> c = x"
  using assms by (auto simp: ascii_lower_def)

lemmas ascii_lower_eqs =
  ascii_lower_eq_letter[of "CHR ''s''" "CHR ''S''", simplified]
  ascii_lower_eq_letter[of "CHR ''c''" "CHR ''C''", simplified]
  ascii_lower_eq_letter[of "CHR ''r''" "CHR ''R''", simplified]
  ascii_lower_eq_letter[of "CHR ''i''" "CHR ''I''", simplified]
  ascii_lower_eq_letter[of "CHR ''p''" "CHR ''P''", simplified]
  ascii_lower_eq_letter[of "CHR ''t''" "CHR ''T''", simplified]
  ascii_lower_eq_other[of "CHR ''<''", simplified] ascii_lower_eq_other[of "CHR ''>''", simplified]
  ascii_lower_eq_other[of "CHR ''/''", simplified]

lemma take_drop_nths: "i + n \<le> length s \<Longrightarrow> take n (drop i s) = map (\<lambda>k. s ! (i + k)) [0..<n]"
  by (intro nth_equalityI) auto

lemma tag_at_open:
  "i + 7 \<le> length s \<Longrightarrow> tag_at ''<script'' s i \<longleftrightarrow> s ! i = CHR ''<'' \<and> match_script_open s i"
  by (simp add: tag_at_def take_drop_nths upt_rec match_script_open_def ascii_lower_eqs eval_nat_numeral)

lemma tag_at_close:
  "i + 9 \<le> length s \<Longrightarrow> tag_at ''</script>'' s i \<longleftrightarrow> s ! i = CHR ''<'' \<and> match_script_close s i"
  by (simp add: tag_at_def take_drop_nths upt_rec match_script_close_def ascii_lower_eqs eval_nat_numeral)

lemma indexScriptOpen_Some:
  "indexScriptOpen s = Some k \<Longrightarrow> tag_at ''<script'' s k \<and> (\<forall>j < k. \<not> tag_at ''<script'' s j)"
  using index_tag_Some[of 7 match_script_open s 0 k] tag_at_open[of _ s]
  by (auto simp: indexScriptOpen_def tag_at_def[of _ s j for j])

lemma indexScriptOpen_None: "indexScriptOpen s = None \<Longrightarrow> \<not> tag_at ''<script'' s j"
  using index_tag_None[of 7 match_script_open s 0 j] tag_at_open[of j s]
  by (auto simp: indexScriptOpen_def tag_at_def)

lemma indexScriptClose_Some:
  "indexScriptClose s = Some k \<Longrightarrow> tag_at ''</script>'' s k \<and> (\<forall>j < k. \<not> tag_at ''</script>'' s j)"
  using index_tag_Some[of 9 match_script_close s 0 k] tag_at_close[of _ s]
  by (auto simp: indexScriptClose_def tag_at_def[of _ s j for j])

lemma indexScriptClose_None: "indexScriptClose s = None \<Longrightarrow> \<not> tag_at ''</script>'' s j"
  using index_tag_None[of 9 match_script_close s 0 j] tag_at_close[of j s]
  by (auto simp: indexScriptClose_def tag_at_def)

lemma tag_at_bound: "tag_at tag s k \<Longrightarrow> k + length tag \<le> length s"
  by (simp add: tag_at_def)

subsection \<open>Script density\<close>

text \<open>One round of the loop from offset \<open>searchPos\<close>: \<open>None\<close> ends it with no further coverage;
  otherwise the start of the script, the offset to continue from, and whether to continue.\<close>

definition script_round :: "bytes \<Rightarrow> nat \<Rightarrow> (nat \<times> nat \<times> bool) option" where
  "script_round body searchPos =
     (case indexScriptOpen (drop searchPos body) of
        None \<Rightarrow> None
      | Some relativeStart \<Rightarrow>
          let start = searchPos + relativeStart in
          (case index_byte (drop start body) (CHR ''>'') of
             None \<Rightarrow> Some (start, length body, False)
           | Some tagClose \<Rightarrow>
               let contentStart = start + tagClose + 1;
                   nextSearch = (case indexScriptClose (drop contentStart body) of
                                   None \<Rightarrow> length body
                                 | Some relativeEnd \<Rightarrow> contentStart + relativeEnd + 9)
               in Some (start, nextSearch, True)))"

lemma script_round_bounds:
  assumes "script_round body pos = Some (start, next, cont)"
  shows "pos \<le> start" "start < next" "next \<le> length body"
proof -
  from assms obtain rs where rs: "indexScriptOpen (drop pos body) = Some rs" and st: "start = pos + rs"
    by (auto simp: script_round_def Let_def split: option.splits)
  have open_fits: "rs + 7 \<le> length (drop pos body)"
    using indexScriptOpen_Some[OF rs] tag_at_bound[of "''<script''" "drop pos body" rs] by simp
  show "pos \<le> start" using st by simp
  have *: "start < next \<and> next \<le> length body"
  proof (cases "index_byte (drop start body) (CHR ''>'')")
    case None
    with assms rs st open_fits show ?thesis by (auto simp: script_round_def Let_def)
  next
    case (Some tc)
    from index_byte_SomeD[OF Some] have tc: "start + tc < length body" by auto
    show ?thesis
    proof (cases "indexScriptClose (drop (start + tc + 1) body)")
      case None
      with assms rs st Some tc show ?thesis by (auto simp: script_round_def Let_def)
    next
      case sc: (Some re)
      from indexScriptClose_Some[OF sc] tag_at_bound[of "''</script>''" "drop (start + tc + 1) body" re]
      have "re + 9 \<le> length body - (start + tc + 1)" by simp
      with assms rs st Some sc tc show ?thesis by (auto simp: script_round_def Let_def)
    qed
  qed
  then show "start < next" "next \<le> length body" by simp_all
qed

function density_loop :: "bytes \<Rightarrow> nat \<Rightarrow> nat \<Rightarrow> nat" where
  "density_loop body searchPos scriptCoverage =
     (case script_round body searchPos of
        None \<Rightarrow> scriptCoverage
      | Some (start, nextSearch, cont) \<Rightarrow>
          if cont then density_loop body nextSearch (scriptCoverage + (nextSearch - start))
          else scriptCoverage + (nextSearch - start))"
  by pat_completeness auto
termination
proof (relation "measure (\<lambda>(body, pos, cov). length body - pos)", goal_cases)
  case (2 body pos cov x start y nx cont)
  then show ?case using script_round_bounds[of body pos start nx cont] by auto
qed simp

declare density_loop.simps [simp del]

definition scriptDensityHigh :: "bytes \<Rightarrow> bool" where
  "scriptDensityHigh body =
     (let total = length body in
      if total = 0 then False
      else
        let scriptCoverage = density_loop body 0 0 in
        if scriptCoverage = 0 then False
        else scriptCoverage * 100 div total \<ge> 25)"

lemma density_loop_bound:
  "pos \<le> length body \<Longrightarrow> density_loop body pos cov \<le> cov + (length body - pos)"
proof (induction body pos cov rule: density_loop.induct)
  case (1 body pos cov)
  show ?case
  proof (cases "script_round body pos")
    case None
    then show ?thesis by (simp add: density_loop.simps[of body pos])
  next
    case (Some r)
    obtain start nx cont where r: "r = (start, nx, cont)" by (cases r)
    note b = script_round_bounds[OF Some[unfolded r]]
    show ?thesis
    proof (cases cont)
      case True
      have "density_loop body nx (cov + (nx - start)) \<le> cov + (nx - start) + (length body - nx)"
        using "1.IH"[OF Some r[symmetric] refl True] b by simp
      then show ?thesis using Some r True b by (simp add: density_loop.simps[of body pos])
    next
      case False
      then show ?thesis using Some r b by (simp add: density_loop.simps[of body pos])
    qed
  qed
qed

lemma density_loop_mono: "cov \<le> density_loop body pos cov"
proof (induction body pos cov rule: density_loop.induct)
  case (1 body pos cov)
  then show ?case
    by (subst density_loop.simps) (fastforce split: option.splits)
qed

text \<open>A document with an opening script tag has positive coverage; one without has none.\<close>

lemma density_positive_iff: "0 < density_loop body 0 0 \<longleftrightarrow> (\<exists>i. tag_at ''<script'' body i)"
proof (cases "script_round body 0")
  case None
  then have "indexScriptOpen body = None" by (auto simp: script_round_def Let_def split: option.splits)
  with None indexScriptOpen_None[of body] show ?thesis by (simp add: density_loop.simps[of body 0])
next
  case (Some r)
  obtain start nx cont where r: "r = (start, nx, cont)" by (cases r)
  note b = script_round_bounds[OF Some[unfolded r]]
  have "0 < density_loop body 0 0"
    using Some r b density_loop_mono[of "nx - start" body nx]
    by (auto simp: density_loop.simps[of body 0])
  moreover from Some obtain k where "indexScriptOpen body = Some k"
    by (auto simp: script_round_def split: option.splits)
  ultimately show ?thesis using indexScriptOpen_Some by blast
qed

subsection \<open>A reference for the script density\<close>

text \<open>The bytes of script elements, counted byte by byte in one pass: text outside, the opening tag, the
  element, and the rest of the closing tag.\<close>

datatype scan = InText | InTag | InScript | Closing nat

fun script_bytes :: "scan \<Rightarrow> bytes \<Rightarrow> nat" where
  "script_bytes m [] = 0"
| "script_bytes InText (c # s) =
     (if tag_at ''<script'' (c # s) 0 then Suc (script_bytes InTag s) else script_bytes InText s)"
| "script_bytes InTag (c # s) = Suc (script_bytes (if c = CHR ''>'' then InScript else InTag) s)"
| "script_bytes InScript (c # s) =
     Suc (script_bytes (if tag_at ''</script>'' (c # s) 0 then Closing 8 else InScript) s)"
| "script_bytes (Closing n) (c # s) = Suc (script_bytes (if n \<le> 1 then InText else Closing (n - 1)) s)"

lemma tag_at_Cons [simp]: "tag_at tag (c # s) (Suc j) = tag_at tag s j"
  by (simp add: tag_at_def)

lemma tag_at_drop: "tag_at tag (drop i s) j = tag_at tag s (i + j)" if "i \<le> length s"
  using that by (simp add: tag_at_def add.commute add.assoc) linarith

lemma script_bytes_text_skip:
  "\<forall>j < k. \<not> tag_at ''<script'' s j \<Longrightarrow> script_bytes InText s = script_bytes InText (drop k s)"
proof (induction k arbitrary: s)
  case (Suc k)
  then show ?case
  proof (cases s)
    case (Cons c s')
    with Suc.prems have "\<not> tag_at ''<script'' (c # s') 0" "\<forall>j < k. \<not> tag_at ''<script'' s' j"
      by (auto dest: spec[of _ "Suc _"])
    with Suc.IH[of s'] Cons show ?thesis by simp
  qed simp
qed simp

lemma script_bytes_text_none: "\<forall>j. \<not> tag_at ''<script'' s j \<Longrightarrow> script_bytes InText s = 0"
  using script_bytes_text_skip[of "length s" s] by simp

lemma script_bytes_tag_skip:
  "k \<le> length s \<Longrightarrow> \<forall>j < k. s ! j \<noteq> CHR ''>'' \<Longrightarrow> script_bytes InTag s = k + script_bytes InTag (drop k s)"
proof (induction k arbitrary: s)
  case (Suc k)
  then obtain c s' where s: "s = c # s'" by (cases s) auto
  with Suc.prems have "c \<noteq> CHR ''>''" "\<forall>j < k. s' ! j \<noteq> CHR ''>''" by (auto dest: spec[of _ "Suc _"] spec[of _ 0])
  with Suc.IH[of s'] Suc.prems(1) s show ?case by simp
qed simp

lemma script_bytes_script_skip:
  "k \<le> length s \<Longrightarrow> \<forall>j < k. \<not> tag_at ''</script>'' s j \<Longrightarrow> script_bytes InScript s = k + script_bytes InScript (drop k s)"
proof (induction k arbitrary: s)
  case (Suc k)
  then obtain c s' where s: "s = c # s'" by (cases s) auto
  with Suc.prems have "\<not> tag_at ''</script>'' (c # s') 0" "\<forall>j < k. \<not> tag_at ''</script>'' s' j"
    by (auto dest: spec[of _ "Suc _"])
  with Suc.IH[of s'] Suc.prems(1) s show ?case by simp
qed simp

lemma script_bytes_closing: "Suc n \<le> length s \<Longrightarrow> script_bytes (Closing (Suc n)) s = Suc n + script_bytes InText (drop (Suc n) s)"
proof (induction n arbitrary: s)
  case 0
  then show ?case by (cases s) simp_all
next
  case (Suc n)
  then show ?case by (cases s) simp_all
qed

lemma script_bytes_script:
  "script_bytes InScript s = (case indexScriptClose s of None \<Rightarrow> length s | Some k \<Rightarrow> k + 9 + script_bytes InText (drop (k + 9) s))"
proof (cases "indexScriptClose s")
  case None
  with script_bytes_script_skip[of "length s" s] indexScriptClose_None[of s] show ?thesis by simp
next
  case (Some k)
  note at = indexScriptClose_Some[OF Some]
  have fits: "k + 9 \<le> length s" using at tag_at_bound[of "''</script>''" s k] by simp
  then obtain c t where d: "drop k s = c # t" by (cases "drop k s") auto
  have "t = drop (Suc k) s" using d by (metis drop_Suc list.sel(3) tl_drop)
  with fits have t: "8 \<le> length t" "drop 8 t = drop (k + 9) s" by (simp_all add: add.commute)
  have "tag_at ''</script>'' (c # t) 0"
    using at fits tag_at_drop[of k s "''</script>''" 0] d by simp
  with script_bytes_script_skip[of k s] at fits d t script_bytes_closing[of 7 t] Some show ?thesis by simp
qed

lemma script_bytes_tag:
  "script_bytes InTag s = (case index_byte s (CHR ''>'') of None \<Rightarrow> length s
     | Some k \<Rightarrow> k + 1 + script_bytes InScript (drop (k + 1) s))"
proof (cases "index_byte s (CHR ''>'')")
  case None
  then have "CHR ''>'' \<notin> set s" by (simp add: index_byte_None)
  then have "\<forall>j < length s. s ! j \<noteq> CHR ''>''" by (metis nth_mem)
  with script_bytes_tag_skip[of "length s" s] None show ?thesis by simp
next
  case (Some k)
  note at = index_byte_SomeD[OF Some]
  then have "drop k s = CHR ''>'' # drop (k + 1) s" by (metis Cons_nth_drop_Suc Suc_eq_plus1)
  with script_bytes_tag_skip[of k s] at Some show ?thesis by simp
qed

text \<open>The loop over offsets computes the reference.\<close>

lemma script_round_reference:
  assumes "pos \<le> length body"
  shows "script_bytes InText (drop pos body) =
    (case script_round body pos of None \<Rightarrow> 0
     | Some (start, nx, cont) \<Rightarrow> (nx - start) + (if cont then script_bytes InText (drop nx body) else 0))"
proof (cases "indexScriptOpen (drop pos body)")
  case None
  with script_bytes_text_none[of "drop pos body"] indexScriptOpen_None[of "drop pos body"] show ?thesis
    by (simp add: script_round_def)
next
  case (Some rs)
  note at = indexScriptOpen_Some[OF Some]
  have fits: "pos + rs + 7 \<le> length body" using at tag_at_bound[of "''<script''" "drop pos body" rs] assms by simp
  let ?start = "pos + rs"
  have d: "drop ?start body = CHR ''<'' # drop (Suc ?start) body"
  proof -
    have "tag_at ''<script'' body ?start" using at tag_at_drop[OF assms] by simp
    then have "body ! ?start = CHR ''<''" using tag_at_open[of ?start body] fits by simp
    then show ?thesis using fits Cons_nth_drop_Suc[of ?start body] by simp
  qed
  have "script_bytes InText (drop pos body) = script_bytes InText (drop ?start body)"
    using script_bytes_text_skip[of rs "drop pos body"] at by (simp add: add.commute)
  also have "\<dots> = script_bytes InTag (drop ?start body)"
    using at tag_at_drop[of ?start body "''<script''" 0] tag_at_drop[OF assms, of "''<script''" rs] fits d by simp
  finally have *: "script_bytes InText (drop pos body) = script_bytes InTag (drop ?start body)" .
  show ?thesis
  proof (cases "index_byte (drop ?start body) (CHR ''>'')")
    case None
    with * Some show ?thesis by (simp add: script_bytes_tag script_round_def)
  next
    case tc: (Some tc)
    let ?cs = "?start + tc + 1"
    have cs: "?cs \<le> length body" using index_byte_SomeD[OF tc] by auto
    have "script_bytes InTag (drop ?start body) = tc + 1 + script_bytes InScript (drop ?cs body)"
      using tc by (simp add: script_bytes_tag add.commute add.left_commute)
    with * show ?thesis
      using Some tc cs script_bytes_script[of "drop ?cs body"]
      by (cases "indexScriptClose (drop ?cs body)")
         (simp_all add: script_round_def Let_def add.commute add.left_commute)
  qed
qed

lemma density_loop_reference:
  "pos \<le> length body \<Longrightarrow> density_loop body pos cov = cov + script_bytes InText (drop pos body)"
proof (induction body pos cov rule: density_loop.induct)
  case (1 body pos cov)
  show ?case
  proof (cases "script_round body pos")
    case None
    with script_round_reference[OF "1.prems"] show ?thesis by (simp add: density_loop.simps[of body pos])
  next
    case (Some r)
    obtain start nx cont where r: "r = (start, nx, cont)" by (cases r)
    note b = script_round_bounds[OF Some[unfolded r]]
    show ?thesis
      using "1.IH"[OF Some r[symmetric] refl] b script_round_reference[OF "1.prems"] Some r
      by (cases cont) (simp_all add: density_loop.simps[of body pos])
  qed
qed

lemma scriptDensityHigh_reference:
  "scriptDensityHigh body \<longleftrightarrow> body \<noteq> [] \<and> length body \<le> 4 * script_bytes InText body"
proof (cases "body = []")
  case False
  then have "25 \<le> k * 100 div length body \<longleftrightarrow> length body \<le> 4 * k" for k
    by (subst less_eq_div_iff_mult_less_eq) auto
  with False density_loop_reference[of 0 body 0] show ?thesis
    by (auto simp: scriptDensityHigh_def Let_def)
qed (simp add: scriptDensityHigh_def)

subsection \<open>The decision\<close>

definition ShouldPromote :: "Heuristic \<Rightarrow> FetchResponse \<Rightarrow> bool" where
  "ShouldPromote h resp =
     (if resp_StatusCode resp \<noteq> 200 then False
      else
        let body = resp_Body resp in
        if length body = 0 then True
        else if int (length body) < BodyLengthThreshold h \<and> scriptDensityHigh body then True
        else list_ex (\<lambda>marker. bytes_Contains body marker) spaMarkers)"

end
