(* ===== verification/Telemetry.thy ===== *)
theory Telemetry
  imports CrawlerTypes
begin

text \<open>
  The metric helpers of internal/telemetry/telemetry.go. Counters hold the number of calls per label,
  the gauge its value, and histograms and the byte counter the sequence of observed values. The
  parameter \<open>tab\<close> is the Unicode case table.
\<close>

record Metrics =
  crawlerPagesTotal :: "bytes \<times> bytes \<Rightarrow> nat"
  crawlerBytesTotal :: "(bytes \<times> int) list"
  httpRequestsTotal :: "bytes \<times> bytes \<Rightarrow> nat"
  httpRequestDurations :: "((bytes \<times> bytes) \<times> duration) list"
  crawlerProbeTLSHandshakeTimeoutTotal :: nat
  crawlerJobsTotal :: "bytes \<Rightarrow> nat"
  crawlerActiveWorkers :: int
  crawlerRateLimitDelays :: "(bytes \<times> duration) list"

definition zero_Metrics :: Metrics where
  "zero_Metrics =
     \<lparr>crawlerPagesTotal = (\<lambda>_. 0), crawlerBytesTotal = [], httpRequestsTotal = (\<lambda>_. 0),
      httpRequestDurations = [], crawlerProbeTLSHandshakeTimeoutTotal = 0, crawlerJobsTotal = (\<lambda>_. 0),
      crawlerActiveWorkers = 0, crawlerRateLimitDelays = []\<rparr>"

definition SanitizeSite :: "(rune \<Rightarrow> rune) \<Rightarrow> bytes \<Rightarrow> bytes" where
  "SanitizeSite tab rawURL =
     (let rawURL = (if strings_HasPrefix rawURL ''http'' then rawURL else ''http://'' @ rawURL) in
      case url_Parse rawURL of
        None \<Rightarrow> ''unknown''
      | Some u \<Rightarrow> if url_Hostname u = '''' then ''unknown'' else strings_ToLower tab (url_Hostname u))"

definition ObserveCrawl :: "(rune \<Rightarrow> rune) \<Rightarrow> bytes \<Rightarrow> bytes \<Rightarrow> int \<Rightarrow> Metrics \<Rightarrow> Metrics" where
  "ObserveCrawl tab site status bytesFetched m =
     (let s = SanitizeSite tab site;
          m1 = m\<lparr>crawlerPagesTotal := (crawlerPagesTotal m)((s, status) := crawlerPagesTotal m (s, status) + 1)\<rparr>
      in if 0 < bytesFetched then m1\<lparr>crawlerBytesTotal := crawlerBytesTotal m1 @ [(s, bytesFetched)]\<rparr> else m1)"

definition ObserveHTTPRequest :: "bytes \<Rightarrow> bytes \<Rightarrow> int \<Rightarrow> duration \<Rightarrow> Metrics \<Rightarrow> Metrics" where
  "ObserveHTTPRequest method route c d m =
     (let k = (method, strconv_Itoa c) in
      m\<lparr>httpRequestsTotal := (httpRequestsTotal m)(k := httpRequestsTotal m k + 1),
        httpRequestDurations := httpRequestDurations m @ [((method, route), d)]\<rparr>)"

definition ObserveProbeTLSHandshakeTimeout :: "Metrics \<Rightarrow> Metrics" where
  "ObserveProbeTLSHandshakeTimeout m =
     m\<lparr>crawlerProbeTLSHandshakeTimeoutTotal := crawlerProbeTLSHandshakeTimeoutTotal m + 1\<rparr>"

definition ObserveJob :: "bytes \<Rightarrow> Metrics \<Rightarrow> Metrics" where
  "ObserveJob status m = m\<lparr>crawlerJobsTotal := (crawlerJobsTotal m)(status := crawlerJobsTotal m status + 1)\<rparr>"

definition IncActiveWorkers :: "Metrics \<Rightarrow> Metrics" where
  "IncActiveWorkers m = m\<lparr>crawlerActiveWorkers := crawlerActiveWorkers m + 1\<rparr>"

definition DecActiveWorkers :: "Metrics \<Rightarrow> Metrics" where
  "DecActiveWorkers m = m\<lparr>crawlerActiveWorkers := crawlerActiveWorkers m - 1\<rparr>"

definition ObserveRateLimitDelay :: "bytes \<Rightarrow> duration \<Rightarrow> Metrics \<Rightarrow> Metrics" where
  "ObserveRateLimitDelay domain d m =
     m\<lparr>crawlerRateLimitDelays := crawlerRateLimitDelays m @ [(domain, d)]\<rparr>"

lemma active_workers_simps [simp]:
  "crawlerActiveWorkers (IncActiveWorkers m) = crawlerActiveWorkers m + 1"
  "crawlerActiveWorkers (DecActiveWorkers m) = crawlerActiveWorkers m - 1"
  "crawlerActiveWorkers (ObserveCrawl tab u s n m) = crawlerActiveWorkers m"
  "crawlerActiveWorkers (ObserveJob st m) = crawlerActiveWorkers m"
  by (simp_all add: IncActiveWorkers_def DecActiveWorkers_def ObserveCrawl_def ObserveJob_def Let_def)

end
