(* ===== verification/Policy.thy ===== *)
theory Policy
  imports Complex_Main Telemetry
begin

text \<open>
  The crawl policies: internal/policy/simple (always allow) and internal/policy/ratelimit (a token
  bucket per domain). The bucket itself is golang.org/x/time/rate, a parameter: \<open>mk\<close> makes a bucket
  from a rate and a burst, \<open>wait\<close> is its blocking Wait, which returns the error or the time it took
  and the new state of the bucket.
\<close>

subsection \<open>Rate limiter\<close>

datatype rate_Limit = RateInf | RateLimit rat

record 'l Limiter =
  limiters :: "bytes \<rightharpoonup> 'l"
  defaultRate :: rate_Limit
  defaultBurst :: int

definition NewLimiter :: "rat \<Rightarrow> int \<Rightarrow> 'l Limiter" where
  "NewLimiter defaultRPS burst =
     \<lparr>limiters = Map.empty,
      defaultRate = (if defaultRPS \<le> 0 then RateInf else RateLimit defaultRPS),
      defaultBurst = (if burst \<le> 0 then 1 else burst)\<rparr>"

definition limiter_domain :: "bytes \<Rightarrow> bytes" where
  "limiter_domain url = (case url_Parse url of None \<Rightarrow> ''unknown'' | Some u \<Rightarrow> url_Hostname u)"

definition Limiter_Wait ::
    "(rate_Limit \<Rightarrow> int \<Rightarrow> 'l) \<Rightarrow> (ctx \<Rightarrow> 'l \<Rightarrow> (error option \<times> duration) \<times> 'l) \<Rightarrow> ctx \<Rightarrow> bytes \<Rightarrow>
     'l Limiter \<Rightarrow> Metrics \<Rightarrow> unit result \<times> 'l Limiter \<times> Metrics" where
  "Limiter_Wait mk wait ctx url l m =
     (let domain = limiter_domain url;
          bucket = (case limiters l domain of None \<Rightarrow> mk (defaultRate l) (defaultBurst l) | Some b \<Rightarrow> b)
      in case wait ctx bucket of
           ((err, dur), bucket') \<Rightarrow>
             let l' = l\<lparr>limiters := (limiters l)(domain \<mapsto> bucket')\<rparr> in
             (case err of
                None \<Rightarrow> (Inr (), l', if dur > Millisecond then ObserveRateLimitDelay domain dur m else m)
              | Some e \<Rightarrow> (Inl (Wrapped ''rate limit wait'' e), l', m)))"

definition Limiter_AllowHeadless :: "bytes \<Rightarrow> bytes \<Rightarrow> int \<Rightarrow> bool" where
  "Limiter_AllowHeadless jobID url depth = True"

definition Limiter_AllowFetch :: "bytes \<Rightarrow> bytes \<Rightarrow> int \<Rightarrow> bool" where
  "Limiter_AllowFetch jobID url depth = True"

subsection \<open>Simple policy\<close>

definition simple_AllowHeadless :: "bytes \<Rightarrow> bytes \<Rightarrow> int \<Rightarrow> bool" where
  "simple_AllowHeadless jobID url depth = True"

definition simple_AllowFetch :: "bytes \<Rightarrow> bytes \<Rightarrow> int \<Rightarrow> bool" where
  "simple_AllowFetch jobID url depth = True"

definition simple_Wait :: "ctx \<Rightarrow> bytes \<Rightarrow> unit result" where
  "simple_Wait ctx url = Inr ()"

subsection \<open>Isolation of domains\<close>

text \<open>A wait only touches the bucket of its own domain, and two URLs of one host share a bucket: the
  state of a domain's bucket is the waits on that domain, applied in order to a fresh bucket.\<close>

fun waits :: "(rate_Limit \<Rightarrow> int \<Rightarrow> 'l) \<Rightarrow> (ctx \<Rightarrow> 'l \<Rightarrow> (error option \<times> duration) \<times> 'l) \<Rightarrow>
    (ctx \<times> bytes) list \<Rightarrow> 'l Limiter \<Rightarrow> Metrics \<Rightarrow> 'l Limiter" where
  "waits mk wait [] l m = l"
| "waits mk wait ((ctx, u) # us) l m =
     (case Limiter_Wait mk wait ctx u l m of (_, l', m') \<Rightarrow> waits mk wait us l' m')"

definition bucket_after ::
    "(ctx \<Rightarrow> 'l \<Rightarrow> (error option \<times> duration) \<times> 'l) \<Rightarrow> ctx list \<Rightarrow> 'l \<Rightarrow> 'l" where
  "bucket_after wait cs b = fold (\<lambda>c b. snd (wait c b)) cs b"

lemma Limiter_Wait_state:
  "fst (snd (Limiter_Wait mk wait ctx u l m)) =
     l\<lparr>limiters := (limiters l)(limiter_domain u \<mapsto>
        snd (wait ctx (case limiters l (limiter_domain u) of
          None \<Rightarrow> mk (defaultRate l) (defaultBurst l) | Some b \<Rightarrow> b)))\<rparr>"
  by (simp add: Limiter_Wait_def Let_def split: prod.splits option.splits)

lemma waits_bucket:
  "limiters (waits mk wait us l m) d =
     (let cs = map fst (filter (\<lambda>(c, u). limiter_domain u = d) us) in
      case limiters l d of
        Some b \<Rightarrow> Some (bucket_after wait cs b)
      | None \<Rightarrow> if cs = [] then None
                else Some (bucket_after wait cs (mk (defaultRate l) (defaultBurst l))))"
proof (induction us arbitrary: l m)
  case Nil
  then show ?case by (simp add: bucket_after_def split: option.splits)
next
  case (Cons p us)
  obtain c u where p: "p = (c, u)" by (cases p)
  obtain r l' m' where w: "Limiter_Wait mk wait c u l m = (r, l', m')" by (metis prod.exhaust)
  then have "l' = fst (snd (Limiter_Wait mk wait c u l m))" by simp
  then have "l' = l\<lparr>limiters := (limiters l)(limiter_domain u \<mapsto>
        snd (wait c (case limiters l (limiter_domain u) of
          None \<Rightarrow> mk (defaultRate l) (defaultBurst l) | Some b \<Rightarrow> b)))\<rparr>"
    by (simp only: Limiter_Wait_state)
  with Cons.IH[of l' m'] show ?case
    by (auto simp: p w bucket_after_def Let_def split: option.splits)
qed

lemma Limiter_Wait_error:
  "isl (fst (Limiter_Wait mk wait ctx u l m)) \<longleftrightarrow>
     fst (fst (wait ctx (case limiters l (limiter_domain u) of
          None \<Rightarrow> mk (defaultRate l) (defaultBurst l) | Some b \<Rightarrow> b))) \<noteq> None"
  by (auto simp: Limiter_Wait_def Let_def split: prod.splits option.splits)

end
