(* ===== verification/Queue.thy ===== *)
theory Queue
  imports CrawlerTypes
begin

text \<open>
  The bounded in-memory queue (internal/queue/memory/queue.go) over a Go channel. A blocking
  operation has a list of possible outcomes in the current state, one for each ready case of its
  \<^verbatim>\<open>select\<close>; the empty list means that the caller blocks. The argument \<open>done\<close> is \<^verbatim>\<open>ctx.Err()\<close> of the
  caller's context. Sending on a closed channel panics.

  The locale \<open>fifo_queue\<close> is the contract of crawler.Queue for its clients: what is taken is what was
  put, in order, without loss or duplication. The channel queue interprets it.
\<close>

record Queue =
  q_ch :: "QueueItem list"
  q_cap :: nat
  q_closed :: bool

definition NewQueue :: "nat \<Rightarrow> Queue" where
  "NewQueue capacity = \<lparr>q_ch = [], q_cap = capacity, q_closed = False\<rparr>"

datatype enqueue_outcome = EnqueueReturned "unit result" | EnqueuePanicked

definition Enqueue :: "error option \<Rightarrow> QueueItem \<Rightarrow> Queue \<Rightarrow> (enqueue_outcome \<times> Queue) list" where
  "Enqueue done job q =
     (case done of
        Some e \<Rightarrow> [(EnqueueReturned (Inl (Wrapped ''enqueue canceled'' e)), q)]
      | None \<Rightarrow> [])
     @ (if q_closed q then [(EnqueuePanicked, q)]
        else if length (q_ch q) < q_cap q
        then [(EnqueueReturned (Inr ()), q\<lparr>q_ch := q_ch q @ [job]\<rparr>)]
        else [])"

definition Dequeue :: "error option \<Rightarrow> Queue \<Rightarrow> (QueueItem result \<times> Queue) list" where
  "Dequeue done q =
     (case done of
        Some e \<Rightarrow> [(Inl (Wrapped ''dequeue canceled'' e), q)]
      | None \<Rightarrow> [])
     @ (case q_ch q of
          job # rest \<Rightarrow> [(Inr job, q\<lparr>q_ch := rest\<rparr>)]
        | [] \<Rightarrow> if q_closed q then [(Inl (ErrorString ''queue closed''), q)] else [])"

definition Close_queue :: "Queue \<Rightarrow> Queue" where
  "Close_queue q = (if q_closed q then q else q\<lparr>q_closed := True\<rparr>)"

subsection \<open>The contract\<close>

text \<open>Histories: the items put so far and the items taken so far, over any queue with the three
  operations.\<close>

inductive history ::
    "(error option \<Rightarrow> QueueItem \<Rightarrow> 'q \<Rightarrow> (enqueue_outcome \<times> 'q) list) \<Rightarrow>
     (error option \<Rightarrow> 'q \<Rightarrow> (QueueItem result \<times> 'q) list) \<Rightarrow> ('q \<Rightarrow> 'q) \<Rightarrow> 'q \<Rightarrow>
     'q \<Rightarrow> QueueItem list \<Rightarrow> QueueItem list \<Rightarrow> bool"
  for enq deq cls q0 where
  start: "history enq deq cls q0 q0 [] []"
| put: "history enq deq cls q0 q ins outs \<Longrightarrow>
    (EnqueueReturned (Inr ()), q') \<in> set (enq d x q) \<Longrightarrow>
    history enq deq cls q0 q' (ins @ [x]) outs"
| put_fail: "history enq deq cls q0 q ins outs \<Longrightarrow>
    (EnqueueReturned (Inl e), q') \<in> set (enq d x q) \<Longrightarrow> history enq deq cls q0 q' ins outs"
| put_panic: "history enq deq cls q0 q ins outs \<Longrightarrow>
    (EnqueuePanicked, q') \<in> set (enq d x q) \<Longrightarrow> history enq deq cls q0 q' ins outs"
| get_item: "history enq deq cls q0 q ins outs \<Longrightarrow>
    (Inr x, q') \<in> set (deq d q) \<Longrightarrow> history enq deq cls q0 q' ins (outs @ [x])"
| get_fail: "history enq deq cls q0 q ins outs \<Longrightarrow>
    (Inl e, q') \<in> set (deq d q) \<Longrightarrow> history enq deq cls q0 q' ins outs"
| close: "history enq deq cls q0 q ins outs \<Longrightarrow> history enq deq cls q0 (cls q) ins outs"

locale fifo_queue =
  fixes enq :: "error option \<Rightarrow> QueueItem \<Rightarrow> 'q \<Rightarrow> (enqueue_outcome \<times> 'q) list"
    and deq :: "error option \<Rightarrow> 'q \<Rightarrow> (QueueItem result \<times> 'q) list"
    and cls :: "'q \<Rightarrow> 'q"
    and items :: "'q \<Rightarrow> QueueItem list"
    and capacity :: "'q \<Rightarrow> nat"
  assumes enq_ok: "(EnqueueReturned (Inr ()), q') \<in> set (enq d x q) \<Longrightarrow>
      items q' = items q @ [x] \<and> capacity q' = capacity q \<and> length (items q) < capacity q"
    and enq_fail: "(r, q') \<in> set (enq d x q) \<Longrightarrow> r \<noteq> EnqueueReturned (Inr ()) \<Longrightarrow> q' = q"
    and deq_ok: "(Inr x, q') \<in> set (deq d q) \<Longrightarrow> items q = x # items q' \<and> capacity q' = capacity q"
    and deq_fail: "(Inl e, q') \<in> set (deq d q) \<Longrightarrow> q' = q"
    and cls_items: "items (cls q) = items q \<and> capacity (cls q) = capacity q"
begin

lemma history_fifo:
  assumes "history enq deq cls q0 q ins outs" "items q0 = []"
  shows "ins = outs @ items q \<and> length (items q) \<le> capacity q0 \<and> capacity q = capacity q0"
  using assms
proof (induction rule: history.induct)
  case (put q ins outs q' d x)
  then show ?case using enq_ok[of q' d x q] by auto
next
  case (put_fail q ins outs e q' d x)
  then show ?case using enq_fail[of "EnqueueReturned (Inl e)" q' d x q] by auto
next
  case (put_panic q ins outs q' d x)
  then show ?case using enq_fail[of EnqueuePanicked q' d x q] by auto
next
  case (get_item q ins outs x q' d)
  then show ?case using deq_ok[of x q' d q] by auto
next
  case (get_fail q ins outs e q' d)
  then show ?case using deq_fail[of e q' d q] by auto
next
  case (close q ins outs)
  then show ?case using cls_items[of q] by auto
qed simp

end

subsection \<open>The channel queue meets the contract\<close>

lemma Enqueue_ok [queue_simps]:
  "(EnqueueReturned (Inr ()), q') \<in> set (Enqueue d x q) \<longleftrightarrow>
     \<not> q_closed q \<and> length (q_ch q) < q_cap q \<and> q' = q\<lparr>q_ch := q_ch q @ [x]\<rparr>"
  by (auto simp: Enqueue_def split: option.splits)

lemma Enqueue_other: "(r, q') \<in> set (Enqueue d x q) \<Longrightarrow> r \<noteq> EnqueueReturned (Inr ()) \<Longrightarrow> q' = q"
  by (auto simp: Enqueue_def split: option.splits if_splits)

lemma Dequeue_ok [queue_simps]:
  "(Inr x, q') \<in> set (Dequeue d q) \<longleftrightarrow> (\<exists>rest. q_ch q = x # rest \<and> q' = q\<lparr>q_ch := rest\<rparr>)"
  by (auto simp: Dequeue_def split: option.splits list.splits)

lemma Dequeue_fail [queue_simps]:
  "(Inl e, q') \<in> set (Dequeue d q) \<longleftrightarrow> q' = q \<and>
     ((\<exists>c. d = Some c \<and> e = Wrapped ''dequeue canceled'' c)
      \<or> (q_ch q = [] \<and> q_closed q \<and> e = ErrorString ''queue closed''))"
  by (auto simp: Dequeue_def split: option.splits list.splits)

interpretation chan: fifo_queue Enqueue Dequeue Close_queue q_ch q_cap
  by unfold_locales (auto simp: queue_simps Close_queue_def dest: Enqueue_other)

subsection \<open>When an operation blocks\<close>

lemma Enqueue_blocks_iff:
  "Enqueue d x q = [] \<longleftrightarrow> d = None \<and> \<not> q_closed q \<and> q_cap q \<le> length (q_ch q)"
  by (auto simp: Enqueue_def split: option.splits)

lemma Dequeue_blocks_iff:
  "Dequeue d q = [] \<longleftrightarrow> d = None \<and> q_ch q = [] \<and> \<not> q_closed q"
  by (auto simp: Dequeue_def split: option.splits list.splits)

lemma Close_queue_idem [simp]: "Close_queue (Close_queue q) = Close_queue q"
  by (simp add: Close_queue_def)

text \<open>After \<^verbatim>\<open>Close\<close> the remaining items can still be taken; then every take reports the closed queue.\<close>

fun drain :: "Queue \<Rightarrow> QueueItem list \<Rightarrow> bool" where
  "drain q [] = ((Inl (ErrorString ''queue closed''), q) \<in> set (Dequeue None q))"
| "drain q (x # xs) = (\<exists>q'. (Inr x, q') \<in> set (Dequeue None q) \<and> drain q' xs)"

lemma drain_closed: "q_closed q \<Longrightarrow> drain q (q_ch q)"
proof (induction "q_ch q" arbitrary: q)
  case Nil
  then show ?case by (simp add: queue_simps flip: Nil.hyps(1))
next
  case (Cons x xs)
  let ?q' = "q\<lparr>q_ch := xs\<rparr>"
  have "drain ?q' (q_ch ?q')" using Cons.hyps(1)[of ?q'] Cons.prems by simp
  moreover have "(Inr x, ?q') \<in> set (Dequeue None q)"
    unfolding Dequeue_ok using Cons.hyps(2) by metis
  ultimately show ?case by (auto simp flip: Cons.hyps(2))
qed

end
