(* ===== verification/MemoryWorld.thy ===== *)
theory MemoryWorld
  imports WorkerSpecs BlobStore Detector Policy Queue
begin

text \<open>
  The pipeline on the in-memory services: memory queue, memory job store, memory blob store, memory publisher
  (internal/publisher/memory), SHA-256 hasher adapter (internal/hash/sha256), simple policy,
  heuristic detector and the metric helpers. What lies outside the repository (the network, the
  wall clock, fresh identifiers, the digest function, cancellation) is a record of functions.

  The interpretation \<open>mem_world\<close> of the locale \<open>services\<close> shows the job store through the calls: the
  view is the status, error text and counters of each job with the recorded pages, or nothing when a
  result in the trace disagrees with the store.
\<close>

subsection \<open>Publisher and hasher\<close>

type_synonym PublishedMessage = "bytes \<times> payload"

definition memory_Publish :: "bytes \<Rightarrow> payload \<Rightarrow> PublishedMessage list \<Rightarrow> bytes result \<times> PublishedMessage list" where
  "memory_Publish topic payload messages =
     (let messages = messages @ [(topic, payload)]
      in (Inr (''memory-'' @ strconv_Itoa (int (length messages))), messages))"

definition hex_EncodeToString :: "bytes \<Rightarrow> bytes" where
  "hex_EncodeToString s = concat (map (\<lambda>c. [hex_digit (code c div 16), hex_digit (code c mod 16)]) s)"

definition sha256_Hash :: "(bytes \<Rightarrow> bytes) \<Rightarrow> bytes \<Rightarrow> bytes result" where
  "sha256_Hash sum256 d = Inr (hex_EncodeToString (sum256 d))"

subsection \<open>The world\<close>

record Outside =
  o_probe :: "nat \<Rightarrow> FetchRequest \<Rightarrow> FetchResponse result"
  o_headless :: "nat \<Rightarrow> FetchRequest \<Rightarrow> FetchResponse result"
  o_time :: "nat \<Rightarrow> timestamp"
  o_ctxErr :: "ctx \<Rightarrow> timestamp \<Rightarrow> error option"
  o_newV7 :: "nat \<Rightarrow> bytes result"
  o_sum256 :: "bytes \<Rightarrow> bytes"
  o_parse :: "bytes \<Rightarrow> uuid option"
  o_tab :: "rune \<Rightarrow> rune"
  o_select :: "nat \<Rightarrow> nat"

record World =
  mem_jobs :: JobStore
  mem_blobs :: BlobStore
  mem_messages :: "PublishedMessage list"
  mem_events :: "Event list"
  mem_metrics :: Metrics
  mem_queue :: Queue
  mem_reads :: nat
  mem_fetches :: nat
  mem_ids :: nat

definition zero_World :: World where
  "zero_World = \<lparr>mem_jobs = NewJobStore, mem_blobs = NewBlobStore, mem_messages = [], mem_events = [],
     mem_metrics = zero_Metrics, mem_queue = NewQueue 0, mem_reads = 0, mem_fetches = 0, mem_ids = 0\<rparr>"

definition mem_now :: "Outside \<Rightarrow> (World, timestamp) state" where
  "mem_now out = State (\<lambda>w. (o_time out (mem_reads w), w\<lparr>mem_reads := mem_reads w + 1\<rparr>))"

definition mem_err :: "Outside \<Rightarrow> ctx \<Rightarrow> (World, error option) state" where
  "mem_err out ctx = State (\<lambda>w. (o_ctxErr out ctx (o_time out (mem_reads w)), w\<lparr>mem_reads := mem_reads w + 1\<rparr>))"

text \<open>The receive on the channel queue: \<open>o_select\<close> picks one of the ready cases. On an open empty queue it
  waits; nothing else puts items into this world, so it returns when the context ends.\<close>

definition mem_receive :: "Outside \<Rightarrow> ctx \<Rightarrow> (World, QueueItem result) state" where
  "mem_receive out ctx = State (\<lambda>w.
     let outs = Dequeue (o_ctxErr out ctx (o_time out (mem_reads w))) (mem_queue w);
         w1 = w\<lparr>mem_reads := mem_reads w + 1\<rparr>
     in if outs = [] then (Inl (Wrapped ''dequeue canceled'' ContextCanceled), w1)
        else case outs ! (o_select out (mem_reads w) mod length outs) of (r, q) \<Rightarrow> (r, w1\<lparr>mem_queue := q\<rparr>))"

definition mem_worker :: "Outside \<Rightarrow> Config \<Rightarrow> Heuristic \<Rightarrow> World Worker" where
  "mem_worker out c h =
     \<lparr>queue_Dequeue = mem_receive out,
      jobStore = Some \<lparr>
        js_UpdateJobStatus = (\<lambda>ctx j s e cnt. State (\<lambda>w.
          case UpdateJobStatus (o_time out (mem_reads w)) j s e cnt (mem_jobs w) of
            (r, js) \<Rightarrow> (r, w\<lparr>mem_jobs := js, mem_reads := mem_reads w + 1\<rparr>))),
        js_RecordPage = (\<lambda>ctx p. State (\<lambda>w. case RecordPage p (mem_jobs w) of (r, js) \<Rightarrow> (r, w\<lparr>mem_jobs := js\<rparr>)))\<rparr>,
      blob_PutObject = (\<lambda>ctx p ct d. State (\<lambda>w.
        case memory_PutObject p ct (Inr d) (mem_blobs w) of (r, b) \<Rightarrow> (r, w\<lparr>mem_blobs := b\<rparr>))),
      StoreRetrieval = None,
      Publish = Some (\<lambda>ctx tp pl. State (\<lambda>w.
        case memory_Publish tp pl (mem_messages w) of (r, ms) \<Rightarrow> (r, w\<lparr>mem_messages := ms\<rparr>))),
      Hash = (\<lambda>d. State_Monad.return (sha256_Hash (o_sum256 out) d)),
      clock_Now = mem_now out,
      probeFetcher = Some (\<lambda>ctx req. State (\<lambda>w.
        (o_probe out (mem_fetches w) req, w\<lparr>mem_fetches := mem_fetches w + 1\<rparr>))),
      headlessFetcher = Some (\<lambda>ctx req. State (\<lambda>w.
        (o_headless out (mem_fetches w) req, w\<lparr>mem_fetches := mem_fetches w + 1\<rparr>))),
      detector = Some (ShouldPromote h),
      policy = Some \<lparr>
        AllowFetch = (\<lambda>j u d. State_Monad.return (simple_AllowFetch j u d)),
        AllowHeadless = (\<lambda>j u d. State_Monad.return (simple_AllowHeadless j u d)),
        policy_Wait = (\<lambda>ctx u. State_Monad.return (simple_Wait ctx u))\<rparr>,
      NewID = Some (State (\<lambda>w. (o_newV7 out (mem_ids w), w\<lparr>mem_ids := mem_ids w + 1\<rparr>))),
      w_cfg = New_config c,
      Emit = Some (\<lambda>e. State (\<lambda>w. ((), w\<lparr>mem_events := mem_events w @ [e]\<rparr>))),
      tele_ObserveCrawl = (\<lambda>u s n. State (\<lambda>w. ((), w\<lparr>mem_metrics := ObserveCrawl (o_tab out) u s n (mem_metrics w)\<rparr>))),
      tele_ObserveJob = (\<lambda>s. State (\<lambda>w. ((), w\<lparr>mem_metrics := ObserveJob s (mem_metrics w)\<rparr>))),
      tele_IncActiveWorkers = State (\<lambda>w. ((), w\<lparr>mem_metrics := IncActiveWorkers (mem_metrics w)\<rparr>)),
      tele_DecActiveWorkers = State (\<lambda>w. ((), w\<lparr>mem_metrics := DecActiveWorkers (mem_metrics w)\<rparr>)),
      CtxErr = mem_err out,
      SysNow = mem_now out,
      SleepOrDone = (\<lambda>ctx d. mem_err out ctx),
      ParseUUID = o_parse out,
      w_tab = o_tab out\<rparr>"

subsection \<open>The view of the job store\<close>

type_synonym job_view = "(bytes \<rightharpoonup> JobStatus \<times> bytes \<times> JobCounters) \<times> (bytes \<Rightarrow> PageRecord list) \<times> int"

definition store_view :: "World \<Rightarrow> job_view option" where
  "store_view w = Some
     (\<lambda>j. map_option (\<lambda>job. (job_Status job, job_ErrorText job, job_Counters job)) (js_jobs (mem_jobs w) j),
      pages_list (mem_jobs w), crawlerActiveWorkers (mem_metrics w))"

fun view_call :: "call \<Rightarrow> job_view option \<Rightarrow> job_view option" where
  "view_call _ None = None"
| "view_call (CallUpdateJobStatus j s e c r) (Some (jv, pv, n)) =
     (if isl r = (jv j = None) then Some (if isl r then jv else jv(j \<mapsto> (s, e, c)), pv, n) else None)"
| "view_call (CallRecordPage p r) (Some (jv, pv, n)) =
     (if isl r then None else Some (jv, pv(page_JobID p := pv (page_JobID p) @ [p]), n))"
| "view_call CallIncActive (Some (jv, pv, n)) = Some (jv, pv, n + 1)"
| "view_call CallDecActive (Some (jv, pv, n)) = Some (jv, pv, n - 1)"
| "view_call _ v = v"

lemma view_UpdateJobStatus:
  "store_view (w\<lparr>mem_jobs := snd (UpdateJobStatus now j s e c (mem_jobs w))\<rparr>) =
   view_call (CallUpdateJobStatus j s e c (fst (UpdateJobStatus now j s e c (mem_jobs w)))) (store_view w)"
  by (auto simp: store_view_def UpdateJobStatus_def apply_status_def Let_def pages_list_def fun_eq_iff
      split: option.splits)

lemma view_RecordPage:
  "store_view (w\<lparr>mem_jobs := snd (RecordPage p (mem_jobs w))\<rparr>) =
   view_call (CallRecordPage p (fst (RecordPage p (mem_jobs w)))) (store_view w)"
  by (auto simp: store_view_def RecordPage_def Let_def pages_list_def fun_eq_iff split: option.splits)

lemma view_frames [simp]:
  "store_view (w\<lparr>mem_blobs := b\<rparr>) = store_view w" "store_view (w\<lparr>mem_messages := ms\<rparr>) = store_view w"
  "store_view (w\<lparr>mem_events := es\<rparr>) = store_view w" "store_view (w\<lparr>mem_queue := qs\<rparr>) = store_view w"
  "store_view (w\<lparr>mem_reads := k\<rparr>) = store_view w" "store_view (w\<lparr>mem_fetches := k\<rparr>) = store_view w"
  "store_view (w\<lparr>mem_ids := k\<rparr>) = store_view w"
  "store_view (w\<lparr>mem_metrics := ObserveCrawl tb u s n (mem_metrics w)\<rparr>) = store_view w"
  "store_view (w\<lparr>mem_metrics := ObserveJob s (mem_metrics w)\<rparr>) = store_view w"
  "store_view (w\<lparr>mem_metrics := IncActiveWorkers (mem_metrics w)\<rparr>) = view_call CallIncActive (store_view w)"
  "store_view (w\<lparr>mem_metrics := DecActiveWorkers (mem_metrics w)\<rparr>) = view_call CallDecActive (store_view w)"
  by (simp_all add: store_view_def)

lemma view_call_other:
  "view_call (CallDequeue r1) v = v" "view_call (CallCtxErr ctx r2) v = v" "view_call (CallSysNow t) v = v"
  "view_call (CallSleep ctx d r2) v = v" "view_call (CallNow t) v = v" "view_call (CallPutObject p ct dt r3) v = v"
  "view_call (CallStoreRetrieval rr r4) v = v" "view_call (CallPublish tp pl r3) v = v" "view_call (CallHash dt r3) v = v"
  "view_call (CallNewID r3) v = v" "view_call (CallProbe ctx rq r5) v = v" "view_call (CallHeadless ctx rq r5) v = v"
  "view_call (CallAllowFetch j u b) v = v" "view_call (CallAllowHeadless j u b) v = v" "view_call (CallWait ctx u r4) v = v"
  "view_call (CallEmit e) v = v" "view_call (CallObserveCrawl u s n) v = v" "view_call (CallObserveJob s) v = v"
  by (cases v; auto)+

interpretation mem_world: services "mem_worker out c h" store_view view_call for out c h
  by unfold_locales
     (auto simp: mem_worker_def follows_def mem_now_def mem_err_def view_UpdateJobStatus view_RecordPage
       view_call_other case_prod_beta split: list.splits)

subsection \<open>What a trace says of the store\<close>

text \<open>A call changes the entry of a job only by a status update of that job.\<close>

lemma view_call_Some:
  assumes "view_call c (Some (jv, pv, n)) = Some v"
  shows "\<exists>jv' pv'. v = (jv', pv', n + active_call c) \<and>
    (case status_call c of
       [] \<Rightarrow> jv' = jv
     | (j, s, e, cnt, r) # _ \<Rightarrow> isl r = (jv j = None) \<and> jv' = (if isl r then jv else jv(j \<mapsto> (s, e, cnt))))"
  using assms by (cases c) (auto split: if_splits)

fun run_updates ::
    "(bytes \<times> JobStatus \<times> bytes \<times> JobCounters \<times> unit result) list \<Rightarrow>
     (bytes \<rightharpoonup> JobStatus \<times> bytes \<times> JobCounters) \<Rightarrow> (bytes \<rightharpoonup> JobStatus \<times> bytes \<times> JobCounters) option" where
  "run_updates [] jv = Some jv"
| "run_updates ((j, s, e, c, r) # us) jv =
     (if isl r = (jv j = None) then run_updates us (if isl r then jv else jv(j \<mapsto> (s, e, c))) else None)"

lemma status_call_cases: "status_call c = [] \<or> (\<exists>j s e cnt r. status_call c = [(j, s, e, cnt, r)])"
  by (cases c) auto

lemma fold_view_None [simp]: "fold view_call t None = None"
  by (induction t) auto

lemma fold_view_Some:
  assumes "fold view_call t (Some (jv, pv, n)) = Some (jv', pv', n')"
  shows "run_updates (picked status_call t) jv = Some jv'" "n' = n + sum_list (map active_call t)"
  using assms
proof (induction t arbitrary: jv pv n)
  case (Cons c t)
  {
    case 1
    then obtain v where v: "view_call c (Some (jv, pv, n)) = Some v"
      by (cases "view_call c (Some (jv, pv, n))") auto
    from view_call_Some[OF v] obtain jv1 pv1 where w: "v = (jv1, pv1, n + active_call c)"
      "case status_call c of [] \<Rightarrow> jv1 = jv
       | (j, s, e, cnt, r) # _ \<Rightarrow> isl r = (jv j = None) \<and> jv1 = (if isl r then jv else jv(j \<mapsto> (s, e, cnt)))"
      by blast
    with 1 v have "fold view_call t (Some (jv1, pv1, n + active_call c)) = Some (jv', pv', n')" by simp
    from Cons.IH(1)[OF this] w(2) status_call_cases[of c] show ?case by auto
  next
    case 2
    then obtain v where v: "view_call c (Some (jv, pv, n)) = Some v"
      by (cases "view_call c (Some (jv, pv, n))") auto
    from view_call_Some[OF v] obtain jv1 pv1 where w: "v = (jv1, pv1, n + active_call c)" by blast
    with 2 v have "fold view_call t (Some (jv1, pv1, n + active_call c)) = Some (jv', pv', n')" by simp
    from Cons.IH(2)[OF this] show ?case by simp
  }
qed simp_all

lemma mem_worker_simps [simp]:
  "NewID (mem_worker out c h) \<noteq> None" "w_cfg (mem_worker out c h) = New_config c"
  "probeFetcher (mem_worker out c h) \<noteq> None" "jobStore (mem_worker out c h) \<noteq> None"
  by (simp_all add: mem_worker_def)

lemma New_config_retries: "0 < MaxRetries (New_config c)"
  by (simp add: New_config_def Let_def)

text \<open>On these services persisting a page fails only when no identifier can be drawn.\<close>

lemma mem_ops:
  "run_state (blob_PutObject (mem_worker out c h) ctx p ct d) w
     = (Inr (''memory://'' @ p), w\<lparr>mem_blobs := snd (memory_PutObject p ct (Inr d) (mem_blobs w))\<rparr>)"
  "run_state (Hash (mem_worker out c h) d) w = (Inr (hex_EncodeToString (o_sum256 out d)), w)"
  "run_state (clock_Now (mem_worker out c h)) w = (o_time out (mem_reads w), w\<lparr>mem_reads := mem_reads w + 1\<rparr>)"
  "NewID (mem_worker out c h) = Some (State (\<lambda>w. (o_newV7 out (mem_ids w), w\<lparr>mem_ids := mem_ids w + 1\<rparr>)))"
  "StoreRetrieval (mem_worker out c h) = None"
  "jobStore (mem_worker out c h) = Some js \<Longrightarrow> fst (run_state (js_RecordPage js ctx page) w) = Inr ()"
  "Publish (mem_worker out c h) = Some f \<Longrightarrow> \<exists>i. fst (run_state (f ctx tp pl) w) = Inr i"
  by (auto simp: mem_worker_def memory_PutObject_def sha256_Hash_def mem_now_def RecordPage_def memory_Publish_def Let_def
      split: option.splits prod.splits)

lemma check_err_ok: "fst (run_state m w) = Inr x \<Longrightarrow> run_state (check_err m f k) w = run_state (k x) (snd (run_state m w))"
  by (cases "run_state m w") (simp add: check_err_def)

lemma mem_publishResult: "fst (run_state (publishResult (mem_worker out c h) ctx j site u a b pg) w) = Inr ()"
proof (cases "Publish (mem_worker out c h)")
  case (Some f)
  obtain i where "fst (run_state (f ctx (Topic (New_config c)) (publish_payload pg j site u a b)) w) = Inr i"
    using mem_ops(7)[OF Some] by blast
  then show ?thesis using Some by (simp add: publishResult_def check_err_ok)
qed (simp add: publishResult_def)

lemma mem_persist_ok:
  assumes "o_newV7 out (mem_ids w) = Inr i" "jobStore (mem_worker out c h) = Some js"
  shows "fst (run_state (persistAndPublish (mem_worker out c h) js ctx j st u resp) w) = Inr ()"
  using assms mem_ops(6)[OF assms(2)]
  by (simp add: persistAndPublish_def newPageID_def putJSON_def recordAndPublish_def putScreenshot_def storeRetrieval_def
      check_err_ok mem_ops(1-5) mem_publishResult Let_def)

subsection \<open>The clock of the world\<close>

text \<open>Every look at the clock or at a context is one reading; a second interpretation of \<open>services\<close> ties the
  results in the trace to the readings.\<close>

fun reads_clock :: "call \<Rightarrow> bool" where
  "reads_clock (CallDequeue _) = True"
| "reads_clock (CallCtxErr _ _) = True"
| "reads_clock (CallSysNow _) = True"
| "reads_clock (CallSleep _ _ _) = True"
| "reads_clock (CallNow _) = True"
| "reads_clock (CallUpdateJobStatus _ _ _ _ _) = True"
| "reads_clock _ = False"

fun shows_clock :: "Outside \<Rightarrow> nat \<Rightarrow> call \<Rightarrow> bool" where
  "shows_clock out n (CallCtxErr ctx y) \<longleftrightarrow> y = o_ctxErr out ctx (o_time out n)"
| "shows_clock out n (CallSysNow t) \<longleftrightarrow> t = o_time out n"
| "shows_clock out n (CallNow t) \<longleftrightarrow> t = o_time out n"
| "shows_clock out n _ \<longleftrightarrow> True"

definition clock_call :: "Outside \<Rightarrow> call \<Rightarrow> nat option \<Rightarrow> nat option" where
  "clock_call out c v =
     (case v of None \<Rightarrow> None | Some n \<Rightarrow> if shows_clock out n c then Some (if reads_clock c then Suc n else n) else None)"

interpretation mem_clock: services "mem_worker out c h" "\<lambda>w. Some (mem_reads w)" "clock_call out" for out c h
  by unfold_locales
     (auto simp: mem_worker_def follows_def mem_now_def mem_err_def clock_call_def case_prod_beta split: list.splits)

definition readings :: "call list \<Rightarrow> nat" where
  "readings t = length (filter reads_clock t)"

lemma clock_call_None [simp]: "clock_call out c None = None"
  by (simp add: clock_call_def)

lemma fold_clock_None [simp]: "fold (clock_call out) t None = None"
  by (induction t) auto

lemma fold_clock_append:
  "fold (clock_call out) (a @ c # b) (Some n) = Some n' \<Longrightarrow> shows_clock out (n + readings a) c"
proof (induction a arbitrary: n)
  case (Cons d a)
  then show ?case
    using Cons.IH[of "Suc n"] by (auto simp: clock_call_def[of out d] readings_def split: if_splits)
qed (auto simp: clock_call_def readings_def split: if_splits)

text \<open>The run of a worker over a stored job updates the job twice; the calls explain the job store.\<close>

definition statuses :: "World \<Rightarrow> bytes \<rightharpoonup> JobStatus \<times> bytes \<times> JobCounters" where
  "statuses w = (\<lambda>j. map_option (\<lambda>job. (job_Status job, job_ErrorText job, job_Counters job)) (js_jobs (mem_jobs w) j))"

lemma mem_updates:
  assumes "js_jobs (mem_jobs w) (item_JobID item) \<noteq> None" "int (length (URLs (item_Params item))) < 2 ^ 63"
  obtains w' t ended e cnt x where
    "run_state (processJob (traced (mem_worker out c h)) ctx item) (w, []) = ((), w', t)"
    "run_state (processJob (mem_worker out c h) ctx item) w = ((), w')" "job_post (mem_worker out c h) ctx item t"
    "run_updates (picked status_call t) (statuses w) = Some (statuses w')"
    "crawlerActiveWorkers (mem_metrics w') = crawlerActiveWorkers (mem_metrics w)"
    "picked status_call t = [(item_JobID item, JobStatusRunning, '''', zero_counters, Inr ()),
       (item_JobID item, finalStatus ended cnt, e, cnt, x)]"
    "PagesSucceeded cnt = 0 \<longrightarrow> e \<noteq> ''''" "counters_ok (length (URLs (item_Params item))) cnt t"
    "\<exists>t1 t2 jobCtx. t = CallIncActive # t1 @ t2 @ [CallDecActive] \<and> is_job_context (mem_worker out c h) ctx (item_Params item) jobCtx t1
      \<and> final_check jobCtx ended (t1 @ t2)"
proof -
  let ?W = "mem_worker out c h" and ?j = "item_JobID item"
  have "0 \<le> MaxRetries (w_cfg ?W)" using New_config_retries[of c] by simp
  from spec_run[OF mem_world.processJob_spec[OF mem_worker_simps(1) this assms(2), of ctx] erases_processJob, of w]
  obtain w' t where r: "run_state (processJob (traced ?W) ctx item) (w, []) = ((), w', t)"
    and plain: "run_state (processJob ?W ctx item) w = ((), w')"
    and t: "store_view w' = fold view_call t (store_view w)" "job_post ?W ctx item t"
    by auto
  obtain jobCtx t1 t2 m where m: "t = CallIncActive # m @ [CallDecActive]"
    "body_post ?W jobCtx ?j (fst (parseJobUUID ?W ?j)) (snd (parseJobUUID ?W ?j)) (length (URLs (item_Params item))) m"
    and c: "m = t1 @ t2" "is_job_context ?W ctx (item_Params item) jobCtx t1"
    using t(2) unfolding job_post_def by blast
  from fold_view_Some[OF t(1)[unfolded store_view_def, folded statuses_def, symmetric]]
  have run: "run_updates (picked status_call t) (statuses w) = Some (statuses w')"
    and act: "crawlerActiveWorkers (mem_metrics w') = crawlerActiveWorkers (mem_metrics w) + sum_list (map active_call m)"
    using m(1) by simp_all
  have "list_all (\<lambda>c. active_call c = 0) m" using m(2) unfolding body_post_def by blast
  then have "sum_list (map active_call m) = 0" by (induction m) auto
  with act have act0: "crawlerActiveWorkers (mem_metrics w') = crawlerActiveWorkers (mem_metrics w)" by simp
  have pt: "picked status_call t = picked status_call m" using m(1) by simp
  have "picked status_call m \<noteq> [(?j, JobStatusRunning, '''', zero_counters, Inl e)]" for e
    using run assms(1) unfolding pt by (auto simp: statuses_def split: if_splits)
  then obtain ended e cnt x where
    u: "picked status_call m = [(?j, JobStatusRunning, '''', zero_counters, Inr ()), (?j, finalStatus ended cnt, e, cnt, x)]"
    and p: "PagesSucceeded cnt = 0 \<longrightarrow> e \<noteq> ''''" "counters_ok (length (URLs (item_Params item))) cnt m"
    and f: "final_check jobCtx ended m"
    using m(2) unfolding body_post_def by auto
  have "counters_ok (length (URLs (item_Params item))) cnt t" using p(2) by (simp add: m(1) counters_ok_def)
  from that[OF r plain t(2) run act0 u[folded pt] p(1) this] m(1) c f show ?thesis by auto
qed

text \<open>The context of a job that a worker takes in world \<open>w\<close>.\<close>

definition job_ctx :: "Outside \<Rightarrow> Config \<Rightarrow> ctx \<Rightarrow> JobParameters \<Rightarrow> World \<Rightarrow> ctx" where
  "job_ctx out c ctx params w =
     (let budget = i64 (BudgetSeconds params * Second);
          budget = (if budget \<le> 0 then JobTimeout (New_config c) else budget)
      in if 0 < budget then WithDeadline ctx (o_time out (mem_reads w) + budget) else ctx)"

lemma mem_final_check:
  assumes "run_state (processJob (traced (mem_worker out c h)) ctx item) (w, []) = ((), w', t)"
    and "int (length (URLs (item_Params item))) < 2 ^ 63"
    and t: "t = CallIncActive # t1 @ t2 @ [CallDecActive]" "is_job_context (mem_worker out c h) ctx (item_Params item) jobCtx t1"
      "final_check jobCtx ended (t1 @ t2)"
  obtains a y b where "t = a @ CallCtxErr (job_ctx out c ctx (item_Params item) w) y # b"
    "picked probe_call b = []" "picked page_call b = []"
    "y = o_ctxErr out (job_ctx out c ctx (item_Params item) w) (o_time out (mem_reads w + readings a))" "ended = (y \<noteq> None)"
proof -
  have "0 \<le> MaxRetries (w_cfg (mem_worker out c h))" using New_config_retries[of c] by simp
  from spec_run[OF mem_clock.processJob_spec[OF mem_worker_simps(1) this assms(2), of ctx] erases_processJob, of w] assms(1)
  have clock: "fold (clock_call out) t (Some (mem_reads w)) = Some (mem_reads w')" by auto
  have "n = o_time out (mem_reads w)" if "t1 = [CallSysNow n]" for n
    using fold_clock_append[of out "[CallIncActive]" "CallSysNow n" "t2 @ [CallDecActive]"] clock that t(1)
    by (simp add: readings_def)
  then have ctx: "jobCtx = job_ctx out c ctx (item_Params item) w"
    using t(2) by (auto simp: is_job_context_def job_ctx_def Let_def split: if_splits)
  obtain a y b where f: "t1 @ t2 = a @ CallCtxErr jobCtx y # b" "ended = (y \<noteq> None)" "list_all closing b"
    using t(3) unfolding final_check_def by blast
  have split: "t = (CallIncActive # a) @ CallCtxErr jobCtx y # b @ [CallDecActive]"
    using t(1) f(1) by (metis append.assoc append_Cons)
  from fold_clock_append[OF clock[unfolded this]]
  have "y = o_ctxErr out jobCtx (o_time out (mem_reads w + readings (CallIncActive # a)))" by simp
  from that[OF split[unfolded ctx] _ _ this[unfolded ctx] f(2)] closing_quiet[OF f(3)] show ?thesis by simp
qed

text \<open>Processing a stored job on the in-memory services leaves it in the status the counters and the
  job context call for, and the gauge of active workers as it was. The context is looked at once the
  pages are done; \<open>a\<close> are the calls before.\<close>

lemma mem_processJob:
  assumes "js_jobs (mem_jobs w) (item_JobID item) \<noteq> None" "int (length (URLs (item_Params item))) < 2 ^ 63"
    and w': "w' = snd (run_state (processJob (mem_worker out c h) ctx item) w)"
  shows "\<exists>job a y b. js_jobs (mem_jobs w') (item_JobID item) = Some job
    \<and> run_state (processJob (traced (mem_worker out c h)) ctx item) (w, [])
        = ((), w', a @ CallCtxErr (job_ctx out c ctx (item_Params item) w) y # b)
    \<and> picked probe_call b = [] \<and> picked page_call b = []
    \<and> y = o_ctxErr out (job_ctx out c ctx (item_Params item) w) (o_time out (mem_reads w + readings a))
    \<and> job_Status job = finalStatus (y \<noteq> None) (job_Counters job)
    \<and> (PagesSucceeded (job_Counters job) = 0 \<longrightarrow> job_ErrorText job \<noteq> '''')
    \<and> 0 \<le> PagesSucceeded (job_Counters job) \<and> 0 \<le> PagesFailed (job_Counters job)
    \<and> PagesSucceeded (job_Counters job) + PagesFailed (job_Counters job) \<le> int (length (URLs (item_Params item)))
    \<and> crawlerActiveWorkers (mem_metrics w') = crawlerActiveWorkers (mem_metrics w)"
proof -
  let ?j = "item_JobID item"
  obtain w1 t ended e cnt x where tr: "run_state (processJob (traced (mem_worker out c h)) ctx item) (w, []) = ((), w1, t)"
    and r: "run_state (processJob (mem_worker out c h) ctx item) w = ((), w1)"
    and run: "run_updates (picked status_call t) (statuses w) = Some (statuses w1)"
    and act: "crawlerActiveWorkers (mem_metrics w1) = crawlerActiveWorkers (mem_metrics w)"
    and u: "picked status_call t = [(?j, JobStatusRunning, '''', zero_counters, Inr ()), (?j, finalStatus ended cnt, e, cnt, x)]"
    and p: "PagesSucceeded cnt = 0 \<longrightarrow> e \<noteq> ''''" "counters_ok (length (URLs (item_Params item))) cnt t"
    and f: "\<exists>t1 t2 jobCtx. t = CallIncActive # t1 @ t2 @ [CallDecActive]
      \<and> is_job_context (mem_worker out c h) ctx (item_Params item) jobCtx t1 \<and> final_check jobCtx ended (t1 @ t2)"
    by (rule mem_updates[OF assms(1,2)])
  have w1: "w1 = w'" using r w' by simp
  have "statuses w ?j \<noteq> None" using assms(1) by (simp add: statuses_def)
  with run u have "(statuses w)(?j \<mapsto> (finalStatus ended cnt, e, cnt)) = statuses w'"
    unfolding w1 by (auto split: if_splits)
  from fun_cong[OF this, of ?j] have "statuses w' ?j = Some (finalStatus ended cnt, e, cnt)" by simp
  then obtain job where "js_jobs (mem_jobs w') ?j = Some job" "job_Status job = finalStatus ended cnt"
    "job_ErrorText job = e" "job_Counters job = cnt"
    by (auto simp: statuses_def)
  moreover obtain a y b where "t = a @ CallCtxErr (job_ctx out c ctx (item_Params item) w) y # b"
    "picked probe_call b = []" "picked page_call b = []"
    "y = o_ctxErr out (job_ctx out c ctx (item_Params item) w) (o_time out (mem_reads w + readings a))" "ended = (y \<noteq> None)"
    using f mem_final_check[OF tr assms(2)] by blast
  ultimately show ?thesis
    using p act tr unfolding w1 counters_ok_def by (intro exI[of _ job] exI[of _ a] exI[of _ y] exI[of _ b]) simp
qed

end
