(* ===== verification/WorkerLoop.thy ===== *)
theory WorkerLoop
  imports MemoryWorld
begin

text \<open>
  The loop of a worker (\<^verbatim>\<open>Worker.Run\<close>) on the in-memory services and the channel queue: rounds of
  receiving and processing. Whatever the \<^verbatim>\<open>select\<close> picks, the jobs are taken in queue order, each one
  taken is brought to its final status and keeps it, and with a context that does not end every round
  takes a job until the queue is empty.
\<close>

subsection \<open>Processing leaves the queue alone\<close>

interpretation mem_frame: services "mem_worker out c h" mem_queue "\<lambda>_ q. q" for out c h
  by unfold_locales
     (auto simp: mem_worker_def follows_def mem_now_def mem_err_def case_prod_beta)

lemma fold_same [simp]: "fold (\<lambda>_ q. q) t x = x"
  by (induction t) simp_all

lemma processJob_keeps_queue:
  assumes "run_state (processJob (mem_worker out c h) ctx item) w = ((), w')" "int (length (URLs (item_Params item))) < 2 ^ 63"
  shows "mem_queue w' = mem_queue w"
proof -
  have "0 \<le> MaxRetries (w_cfg (mem_worker out c h))" using New_config_retries[of c] by simp
  from spec_run[OF mem_frame.processJob_spec[OF mem_worker_simps(1) this assms(2), of ctx] erases_processJob, of w]
  show ?thesis using assms(1) by auto
qed

subsection \<open>Settled jobs\<close>

text \<open>The job of an item is in the status its counters and the end of its context call for.\<close>

definition settled :: "World \<Rightarrow> QueueItem \<Rightarrow> bool" where
  "settled w item \<longleftrightarrow> (\<exists>ended e cnt. statuses w (item_JobID item) = Some (finalStatus ended cnt, e, cnt)
     \<and> (PagesSucceeded cnt = 0 \<longrightarrow> e \<noteq> '''') \<and> 0 \<le> PagesSucceeded cnt \<and> 0 \<le> PagesFailed cnt
     \<and> PagesSucceeded cnt + PagesFailed cnt \<le> int (length (URLs (item_Params item))))"

text \<open>The item can be processed: its job is stored, and its URLs can be counted.\<close>

definition runnable :: "World \<Rightarrow> QueueItem \<Rightarrow> bool" where
  "runnable w item \<longleftrightarrow> statuses w (item_JobID item) \<noteq> None \<and> int (length (URLs (item_Params item))) < 2 ^ 63"

lemma processJob_settles:
  assumes "runnable w item"
  obtains w' where "run_state (processJob (mem_worker out c h) ctx item) w = ((), w')" "mem_queue w' = mem_queue w"
    "settled w' item" "\<And>j. j \<noteq> item_JobID item \<Longrightarrow> statuses w' j = statuses w j"
proof -
  let ?j = "item_JobID item"
  from assms have j: "js_jobs (mem_jobs w) ?j \<noteq> None" and n: "int (length (URLs (item_Params item))) < 2 ^ 63"
    by (simp_all add: runnable_def statuses_def)
  obtain w' t ended e cnt x where r: "run_state (processJob (mem_worker out c h) ctx item) w = ((), w')"
    and run: "run_updates (picked status_call t) (statuses w) = Some (statuses w')"
    and u: "picked status_call t = [(?j, JobStatusRunning, '''', zero_counters, Inr ()), (?j, finalStatus ended cnt, e, cnt, x)]"
    and p: "PagesSucceeded cnt = 0 \<longrightarrow> e \<noteq> ''''" "counters_ok (length (URLs (item_Params item))) cnt t"
    by (rule mem_updates[OF j n])
  have w': "statuses w' = (statuses w)(?j \<mapsto> (finalStatus ended cnt, e, cnt))"
    using run u assms by (auto simp: runnable_def split: if_splits)
  then have "settled w' item" using p by (auto simp: settled_def counters_ok_def)
  with that[OF r processJob_keeps_queue[OF r n]] w' show ?thesis by simp
qed

subsection \<open>Rounds\<close>

lemma receive_cases:
  assumes "run_state (mem_receive out ctx) w = (r, w1)"
  obtains (job) item rest where "r = Inr item" "q_ch (mem_queue w) = item # rest" "q_ch (mem_queue w1) = rest"
      "statuses w1 = statuses w"
  | (failed) e where "r = Inl e" "mem_queue w1 = mem_queue w" "statuses w1 = statuses w"
      "(\<forall>t. o_ctxErr out ctx t = None) \<longrightarrow> q_ch (mem_queue w) = []"
proof (cases "Dequeue (o_ctxErr out ctx (o_time out (mem_reads w))) (mem_queue w) = []")
  case True
  then have "q_ch (mem_queue w) = []" by (simp add: Dequeue_blocks_iff)
  with True assms show ?thesis by (intro failed) (auto simp: mem_receive_def statuses_def Let_def)
next
  case False
  let ?outs = "Dequeue (o_ctxErr out ctx (o_time out (mem_reads w))) (mem_queue w)"
  obtain r' q where o: "?outs ! (o_select out (mem_reads w) mod length ?outs) = (r', q)" by fastforce
  then have i: "(r', q) \<in> set ?outs" using False by (metis length_greater_0_conv mod_less_divisor nth_mem)
  have w1: "r = r'" "mem_queue w1 = q" "statuses w1 = statuses w"
    using assms False o by (auto simp: mem_receive_def statuses_def Let_def)
  show ?thesis
  proof (cases r')
    case (Inr item)
    with i w1 show ?thesis by (auto simp: queue_simps intro: job)
  next
    case (Inl e)
    with i w1 show ?thesis by (intro failed) (auto simp: queue_simps)
  qed
qed

text \<open>What \<open>n\<close> rounds from \<open>w\<close> to \<open>w'\<close> amount to, when \<open>k\<close> of them took a job and \<open>b\<close> tells whether the loop
  returned: the first \<open>k\<close> jobs of the queue are settled, the others still queued, and no other job has
  changed; with a context that does not end the loop goes on, and no round fails before the queue is
  empty.\<close>

definition rounds :: "Outside \<Rightarrow> ctx \<Rightarrow> nat \<Rightarrow> World \<Rightarrow> bool \<Rightarrow> World \<Rightarrow> nat \<Rightarrow> bool" where
  "rounds out ctx n w b w' k \<longleftrightarrow> k \<le> n
     \<and> q_ch (mem_queue w') = drop k (q_ch (mem_queue w)) \<and> list_all (settled w') (take k (q_ch (mem_queue w)))
     \<and> (\<forall>j. j \<notin> item_JobID ` set (take k (q_ch (mem_queue w))) \<longrightarrow> statuses w' j = statuses w j)
     \<and> ((\<forall>t. o_ctxErr out ctx t = None) \<longrightarrow> \<not> b \<and> (k = n \<or> length (q_ch (mem_queue w)) \<le> k))"

lemma rounds_none:
  assumes "mem_queue w' = mem_queue w" "statuses w' = statuses w" "b \<Longrightarrow> \<exists>t. o_ctxErr out ctx t \<noteq> None"
    "n = 0 \<or> (\<exists>t. o_ctxErr out ctx t \<noteq> None)"
  shows "rounds out ctx n w b w' 0"
  using assms by (auto simp: rounds_def)

lemma rounds_failed:
  assumes "rounds out ctx n w2 b w' k" "mem_queue w2 = mem_queue w" "statuses w2 = statuses w"
    "(\<forall>t. o_ctxErr out ctx t = None) \<longrightarrow> q_ch (mem_queue w) = []"
  shows "rounds out ctx (Suc n) w b w' k"
  using assms by (auto simp: rounds_def)

lemma rounds_job:
  assumes "rounds out ctx n w2 b w' k" "q_ch (mem_queue w) = item # q_ch (mem_queue w2)" "settled w2 item"
    and "item_JobID item \<notin> item_JobID ` set (q_ch (mem_queue w2))"
    and "\<And>j. j \<noteq> item_JobID item \<Longrightarrow> statuses w2 j = statuses w j"
  shows "rounds out ctx (Suc n) w b w' (Suc k)"
proof -
  let ?taken = "take k (q_ch (mem_queue w2))"
  have r: "\<forall>j. j \<notin> item_JobID ` set ?taken \<longrightarrow> statuses w' j = statuses w2 j"
    using assms(1) by (simp add: rounds_def)
  have "item_JobID item \<notin> item_JobID ` set ?taken" using assms(4) by (auto dest: in_set_takeD)
  with r have "statuses w' (item_JobID item) = statuses w2 (item_JobID item)" by blast
  then have "settled w' item" using assms(3) by (simp add: settled_def)
  with assms(1,2,5) r show ?thesis by (auto simp: rounds_def)
qed

lemma Run_rounds:
  assumes "list_all (runnable w) (q_ch (mem_queue w))" "distinct (map item_JobID (q_ch (mem_queue w)))"
    and "run_state (Run (mem_worker out c h) n ctx) w = (b, w')"
  shows "\<exists>k. rounds out ctx n w b w' k"
  using assms
proof (induction n arbitrary: w)
  case 0
  then show ?case by (intro exI[of _ 0] rounds_none) simp_all
next
  case (Suc n)
  let ?W = "mem_worker out c h"
  have ops: "queue_Dequeue ?W ctx = mem_receive out ctx" "CtxErr ?W ctx = mem_err out ctx" by (simp_all add: mem_worker_def)
  obtain r w1 where r: "run_state (mem_receive out ctx) w = (r, w1)" by fastforce
  then show ?case
  proof (cases rule: receive_cases)
    case (job item rest)
    have "runnable w1 item" using Suc.prems(1) job by (simp add: runnable_def)
    then obtain w2 where w2: "run_state (processJob ?W ctx item) w1 = ((), w2)" "mem_queue w2 = mem_queue w1"
      "settled w2 item" "\<And>j. j \<noteq> item_JobID item \<Longrightarrow> statuses w2 j = statuses w1 j"
      by (rule processJob_settles[where out = out and c = c and h = h and ctx = ctx]) blast
    have q: "q_ch (mem_queue w) = item # q_ch (mem_queue w2)" using w2(2) job(2,3) by simp
    then have fresh: "item_JobID item \<notin> item_JobID ` set (q_ch (mem_queue w2))" using Suc.prems(2) by simp
    have "statuses w2 (item_JobID x) = statuses w (item_JobID x)" if "x \<in> set (q_ch (mem_queue w2))" for x
      using that fresh w2(4)[of "item_JobID x"] job(4) by (metis imageI)
    then have "list_all (runnable w2) (q_ch (mem_queue w2))"
      using Suc.prems(1) q by (simp add: list_all_iff runnable_def)
    moreover have "run_state (Run ?W n ctx) w2 = (b, w')" using Suc.prems(3) r w2(1) job(1) by (simp add: ops)
    ultimately obtain k where "rounds out ctx n w2 b w' k" using Suc.IH[of w2] Suc.prems(2) q by auto
    from rounds_job[OF this q w2(3) fresh] w2(4) job(4) show ?thesis by auto
  next
    case (failed e)
    obtain d w2 where d: "run_state (mem_err out ctx) w1 = (d, w2)" by fastforce
    have w2: "mem_queue w2 = mem_queue w" "statuses w2 = statuses w" "d \<noteq> None \<Longrightarrow> \<exists>t. o_ctxErr out ctx t \<noteq> None"
      using d failed by (auto simp: mem_err_def statuses_def)
    show ?thesis
    proof (cases "d = None")
      case False
      then have "w' = w2" using Suc.prems(3) r failed(1) d by (simp add: ops)
      then have "rounds out ctx (Suc n) w b w' 0" using w2 False by (intro rounds_none) simp_all
      then show ?thesis ..
    next
      case True
      have "list_all (runnable w2) (q_ch (mem_queue w2))" "distinct (map item_JobID (q_ch (mem_queue w2)))"
        using Suc.prems(1,2) w2(1,2) by (simp_all add: runnable_def list_all_iff)
      moreover have "run_state (Run ?W n ctx) w2 = (b, w')" using Suc.prems(3) r failed(1) d True by (simp add: ops)
      ultimately obtain k where "rounds out ctx n w2 b w' k" using Suc.IH by blast
      then show ?thesis using rounds_failed w2(1,2) failed(4) by blast
    qed
  qed
qed

text \<open>With a context that does not end, as many rounds as there are queued jobs settle all of them.\<close>

lemma Run_drains:
  assumes "list_all (runnable w) (q_ch (mem_queue w))" "distinct (map item_JobID (q_ch (mem_queue w)))"
    and "\<forall>t. o_ctxErr out ctx t = None" "length (q_ch (mem_queue w)) \<le> n"
    and "w' = snd (run_state (Run (mem_worker out c h) n ctx) w)"
  shows "q_ch (mem_queue w') = []" "list_all (settled w') (q_ch (mem_queue w))"
proof -
  obtain b where "run_state (Run (mem_worker out c h) n ctx) w = (b, w')"
    using assms(5) by (metis prod.collapse)
  from Run_rounds[OF assms(1,2) this] obtain k where k: "rounds out ctx n w b w' k" by blast
  then have "length (q_ch (mem_queue w)) \<le> k" using assms(3,4) by (auto simp: rounds_def)
  with k show "q_ch (mem_queue w') = []" "list_all (settled w') (q_ch (mem_queue w))" by (simp_all add: rounds_def)
qed

end
