(* ===== verification/ArtifactPaths.thy ===== *)
theory ArtifactPaths
  imports Worker BlobStore
begin

text \<open>
  Where the worker puts the artifacts of a page: the host segment uses a fixed alphabet, the path is
  the date, the host and the page below the prefix, pages never share a path, and the local blob
  store accepts the path and writes below its base directory.
\<close>

subsection \<open>The host segment\<close>

definition host_char :: "char \<Rightarrow> bool" where
  "host_char c \<longleftrightarrow> (97 \<le> code c \<and> code c \<le> (122::nat)) \<or> (48 \<le> code c \<and> code c \<le> (57::nat))
     \<or> c \<in> {CHR ''.'', CHR ''-'', CHR ''_''}"

lemma host_char_sanitize: "host_char (sanitize_rune r)"
proof -
  have "byte 46 = CHR ''.''" "byte 45 = CHR ''-''" by (simp_all add: char_of_def bit_0)
  then show ?thesis by (auto simp: host_char_def sanitize_rune_def)
qed

lemma unknown_host: "list_all host_char ''unknown''"
  by (simp add: host_char_def)

lemma sanitizeHost_chars: "list_all host_char (sanitizeHost tb h)"
proof -
  have "list_all host_char (strings_Trim (map sanitize_rune rs) cs)" for rs cs
    using set_strings_Trim[of "map sanitize_rune rs" cs] host_char_sanitize by (auto simp: list_all_iff)
  with unknown_host show ?thesis by (simp add: sanitizeHost_def Let_def)
qed

lemma sanitizeHost_ends:
  "sanitizeHost tb h \<noteq> ''''"
  "hd (sanitizeHost tb h) \<notin> {CHR ''-'', CHR ''_''}" "last (sanitizeHost tb h) \<notin> {CHR ''-'', CHR ''_''}"
proof -
  show "sanitizeHost tb h \<noteq> ''''" by (simp add: sanitizeHost_def Let_def)
  show "hd (sanitizeHost tb h) \<notin> {CHR ''-'', CHR ''_''}" "last (sanitizeHost tb h) \<notin> {CHR ''-'', CHR ''_''}"
    using hd_strings_Trim[of "map sanitize_rune (runes (strings_ToLower tb (strings_TrimSpace h)))" "''-_''"]
      last_strings_Trim[of "map sanitize_rune (runes (strings_ToLower tb (strings_TrimSpace h)))" "''-_''"]
    by (simp_all add: sanitizeHost_def Let_def)
qed

lemma no_slash_sanitizeHost: "CHR ''/'' \<notin> set (sanitizeHost tb h)"
  using sanitizeHost_chars[of tb h] by (auto simp: list_all_iff host_char_def)

subsection \<open>Segments\<close>

lemma digit_string_proper:
  assumes "s \<noteq> []" "\<forall>c \<in> set s. 48 \<le> code c \<and> code c \<le> (57::nat)"
  shows "proper s"
proof -
  obtain c t where s: "s = c # t" using assms(1) by (cases s) auto
  with assms(2) have "48 \<le> (code c :: nat)" by simp
  then have "c \<noteq> CHR ''.''" by auto
  moreover have "CHR ''/'' \<notin> set s" using assms(2) by auto
  ultimately show ?thesis using s by (simp add: proper_def)
qed

lemma pad_digits: "c \<in> set (pad w n) \<Longrightarrow> 48 \<le> code c \<and> code c \<le> (57::nat)"
  using itoa_nat_digits by (auto simp: pad_def Let_def)

lemma pad_nonempty [simp]: "pad w n \<noteq> []"
  by (simp add: pad_def Let_def)

lemma proper_dates: "proper (format_yyyymm t)" "proper (format_dd t)" "proper (format_hh t)"
  unfolding format_yyyymm_def format_dd_def format_hh_def
  by (rule digit_string_proper; use pad_digits in \<open>auto split: prod.splits\<close>)+

lemma fold_clean_proper: "\<forall>w \<in> set ws. proper w \<Longrightarrow> fold (clean_step r) ws st = rev ws @ st"
  by (induction ws arbitrary: st) (auto simp: clean_step_def proper_def)

lemma clean_segs_extend:
  assumes "p \<noteq> []" "ws \<noteq> []" "\<forall>w \<in> set ws. proper w"
  shows "clean_segs (p @ CHR ''/'' # join_with (CHR ''/'') ws) = clean_segs p @ ws"
proof -
  have "split_on (CHR ''/'') (join_with (CHR ''/'') ws) = ws"
    using assms by (intro split_join) (auto simp: proper_def)
  then show ?thesis
    using assms by (simp add: clean_segs_def split_on_append rooted_append fold_clean_proper)
qed

lemma clean_segs_proper_join:
  assumes "ws \<noteq> []" "\<forall>w \<in> set ws. proper w"
  shows "clean_segs (join_with (CHR ''/'') ws) = ws"
proof (rule clean_segs_join[OF _ assms(1)])
  have "\<forall>w \<in> set xs. proper w \<Longrightarrow> normal_stack False xs" for xs by (induction xs) auto
  then show "normal_stack False (rev ws)" using assms(2) by simp
qed

definition artifact_segments :: "(rune \<Rightarrow> rune) \<Rightarrow> timestamp \<Rightarrow> bytes \<Rightarrow> bytes \<Rightarrow> bytes list" where
  "artifact_segments tb ts host pageID =
     [format_yyyymm ts, format_dd ts, format_hh ts, ''host='' @ sanitizeHost tb host, ''id='' @ pageID]"

lemma artifact_segments_proper: "CHR ''/'' \<notin> set i \<Longrightarrow> \<forall>w \<in> set (artifact_segments tb ts h i). proper w"
  using proper_dates no_slash_sanitizeHost by (auto simp: artifact_segments_def proper_def)

definition prefix_segments :: "Config \<Rightarrow> bytes list" where
  "prefix_segments c =
     (if strings_Trim (BlobPrefix c) ''/'' = '''' then [] else clean_segs (strings_Trim (BlobPrefix c) ''/''))"

lemma buildBlobPath_segments:
  assumes "CHR ''/'' \<notin> set i"
  shows "clean_segs (buildBlobPath tb c ts h i) = prefix_segments c @ artifact_segments tb ts h i"
    and "buildBlobPath tb c ts h i \<noteq> ''''" and "\<not> rooted (buildBlobPath tb c ts h i)"
proof -
  let ?p = "strings_Trim (BlobPrefix c) ''/''" and ?ws = "artifact_segments tb ts h i"
  let ?base = "join_with (CHR ''/'') ?ws"
  have base: "buildBlobPath tb c ts h i = (if ?p = '''' then ?base else path_Join [?p, ?base])"
    by (simp add: buildBlobPath_def Let_def artifact_segments_def)
  have ne: "?base \<noteq> ''''" by (simp add: artifact_segments_def)
  have pr: "\<forall>w \<in> set ?ws. proper w" "?ws \<noteq> []"
    using artifact_segments_proper[OF assms] by (simp_all add: artifact_segments_def)
  show "clean_segs (buildBlobPath tb c ts h i) = prefix_segments c @ ?ws"
    using clean_segs_proper_join[OF pr(2,1)] clean_segs_extend[OF _ pr(2,1), of ?p] ne
    by (simp add: base prefix_segments_def path_Join2)
  show "buildBlobPath tb c ts h i \<noteq> ''''"
    using ne by (simp add: base path_Join2)
  have "\<not> rooted ?base" using join_not_rooted[OF pr(2)] pr(1) by (auto simp: proper_def)
  moreover have "\<not> rooted ?p" if "?p \<noteq> ''''"
    using hd_strings_Trim[OF that] that by (cases ?p) auto
  ultimately show "\<not> rooted (buildBlobPath tb c ts h i)"
    using ne by (simp add: base path_Join2 rooted_append)
qed

lemma artifact_path_segments:
  assumes "CHR ''/'' \<notin> set i" "proper name"
  shows "clean_segs (path_Join [buildBlobPath tb c ts h i, name]) =
      prefix_segments c @ artifact_segments tb ts h i @ [name]"
    and "\<not> rooted (path_Join [buildBlobPath tb c ts h i, name])"
proof -
  have "name \<noteq> ''''" using assms(2) by (simp add: proper_def)
  with buildBlobPath_segments[OF assms(1), of tb c ts h] assms(2)
  show "clean_segs (path_Join [buildBlobPath tb c ts h i, name]) =
      prefix_segments c @ artifact_segments tb ts h i @ [name]"
    using clean_segs_extend[of "buildBlobPath tb c ts h i" "[name]"] by (simp add: path_Join2)
  show "\<not> rooted (path_Join [buildBlobPath tb c ts h i, name])"
    using buildBlobPath_segments(2,3)[OF assms(1), of tb c ts h] \<open>name \<noteq> ''''\<close>
    by (simp add: path_Join2 rooted_append)
qed

subsection \<open>Acceptance by the local blob store\<close>

lemma local_path_segments:
  assumes "base \<noteq> ''''" "\<forall>w \<in> set (prefix_segments c). proper w" "CHR ''/'' \<notin> set i" "proper name"
  shows "clean_segs (path_Join [base, path_Join [buildBlobPath tb c ts h i, name]]) =
    clean_segs base @ prefix_segments c @ artifact_segments tb ts h i @ [name]"
proof -
  let ?f = "path_Join [buildBlobPath tb c ts h i, name]"
  let ?ws = "prefix_segments c @ artifact_segments tb ts h i @ [name]"
  note f = artifact_path_segments[OF assms(3,4), of tb c ts h]
  have "?f = path_Clean ?f"
    using buildBlobPath_segments(2)[OF assms(3), of tb c ts h] assms(4) by (simp add: path_Join2 proper_def)
  with f have "?f = join_with (CHR ''/'') ?ws" by (simp add: path_Clean_segs)
  moreover have "\<forall>w \<in> set ?ws. proper w" "?ws \<noteq> []"
    using assms(2,4) artifact_segments_proper[OF assms(3), of tb ts h] by auto
  moreover from this have "join_with (CHR ''/'') ?ws \<noteq> ''''"
    by (intro join_nonempty) (auto simp: proper_def)
  ultimately show ?thesis
    using clean_segs_extend[OF assms(1), of ?ws] assms(1) by (simp add: path_Join2)
qed

lemma prefix_join: "bs \<noteq> [] \<Longrightarrow> rel \<noteq> [] \<Longrightarrow> prefix (join_with c bs @ [c]) (join_with c (bs @ rel))"
  by (simp add: join_with_append)

lemma local_accepts:
  assumes "base \<noteq> ''''" "clean_segs base \<noteq> []" "\<forall>w \<in> set (prefix_segments c). proper w"
    "CHR ''/'' \<notin> set i" "proper name"
    and f_def: "f = path_Join [base, path_Join [buildBlobPath tb c ts h i, name]]"
  shows "prefix (path_Clean base @ ''/'') (path_Clean f)" and "contained_in base f"
proof -
  let ?rel = "prefix_segments c @ artifact_segments tb ts h i @ [name]"
  have segs: "clean_segs f = clean_segs base @ ?rel"
    unfolding f_def using local_path_segments[OF assms(1,3-5)] .
  have "path_Join [buildBlobPath tb c ts h i, name] \<noteq> ''''"
    using buildBlobPath_segments(2)[OF assms(4), of tb c ts h] assms(5) by (simp add: path_Join2 proper_def)
  then have r: "rooted f = rooted base"
    using assms(1) by (simp add: f_def path_Join2 rooted_append)
  show "prefix (path_Clean base @ ''/'') (path_Clean f)"
    using prefix_join[OF assms(2), of ?rel "CHR ''/''"] segs r assms(2)
    by (simp add: path_Clean_segs)
  have "\<forall>w \<in> set ?rel. proper w"
    using assms(3,5) artifact_segments_proper[OF assms(4), of tb ts h] by auto
  with segs r show "contained_in base f" unfolding contained_in_def by (intro conjI exI[of _ ?rel]) auto
qed

end
