(* ===== verification/Dispatcher.thy ===== *)
theory Dispatcher
  imports Queue "HOL-Library.Multiset"
begin

text \<open>
  The worker pool: internal/dispatcher/dispatcher.go starts every worker's \<^verbatim>\<open>Run\<close> loop
  (internal/worker/worker.go) in a goroutine and waits for the context and for all of them. The
  state of a goroutine is where it is in that loop; a step of the pool is one step of one goroutine,
  of a submitter or of the shutdown, so every interleaving is a sequence of steps. The processing of
  a job is one phase here; what it does is the subject of the worker theories.

  The pool runs over any queue operations; its properties are proved in the context of the contract
  \<open>fifo_queue\<close> and hold of the channel queue by its interpretation.
\<close>

subsection \<open>The pool\<close>

datatype worker_state =
    Dequeuing
  | DequeueFailed
  | Processing QueueItem
  | Returned

record 'q Pool =
  p_queue :: 'q
  p_workers :: "worker_state list"
  p_done :: "error option"
  p_accepted :: "QueueItem list"
  p_started :: "QueueItem list"
  p_finished :: "QueueItem list"

definition NewPool :: "'q \<Rightarrow> nat \<Rightarrow> 'q Pool" where
  "NewPool q n = \<lparr>p_queue = q, p_workers = replicate n Dequeuing, p_done = None,
     p_accepted = [], p_started = [], p_finished = []\<rparr>"

text \<open>One round of \<^verbatim>\<open>Worker.Run\<close> in worker number \<open>i\<close>: the receive, the check of the context after a
  failed receive, the end of a job.\<close>

inductive worker_step ::
    "(error option \<Rightarrow> 'q \<Rightarrow> (QueueItem result \<times> 'q) list) \<Rightarrow> 'q Pool \<Rightarrow> 'q Pool \<Rightarrow> bool"
  for deq where
  receive: "i < length (p_workers p) \<Longrightarrow> p_workers p ! i = Dequeuing \<Longrightarrow>
    (Inr x, q') \<in> set (deq (p_done p) (p_queue p)) \<Longrightarrow>
    worker_step deq p (p\<lparr>p_queue := q', p_workers := (p_workers p)[i := Processing x], p_started := p_started p @ [x]\<rparr>)"
| receive_failed: "i < length (p_workers p) \<Longrightarrow> p_workers p ! i = Dequeuing \<Longrightarrow>
    (Inl e, q') \<in> set (deq (p_done p) (p_queue p)) \<Longrightarrow>
    worker_step deq p (p\<lparr>p_queue := q', p_workers := (p_workers p)[i := DequeueFailed]\<rparr>)"
| return: "i < length (p_workers p) \<Longrightarrow> p_workers p ! i = DequeueFailed \<Longrightarrow> p_done p \<noteq> None \<Longrightarrow>
    worker_step deq p (p\<lparr>p_workers := (p_workers p)[i := Returned]\<rparr>)"
| continue: "i < length (p_workers p) \<Longrightarrow> p_workers p ! i = DequeueFailed \<Longrightarrow> p_done p = None \<Longrightarrow>
    worker_step deq p (p\<lparr>p_workers := (p_workers p)[i := Dequeuing]\<rparr>)"
| processed: "i < length (p_workers p) \<Longrightarrow> p_workers p ! i = Processing x \<Longrightarrow>
    worker_step deq p (p\<lparr>p_workers := (p_workers p)[i := Dequeuing], p_finished := p_finished p @ [x]\<rparr>)"

text \<open>The rest of the service: \<^verbatim>\<open>Dispatcher.Enqueue\<close> under the submitter's own context \<open>d\<close>, the shutdown
  signal, the closing of the queue.\<close>

inductive service_step ::
    "(error option \<Rightarrow> QueueItem \<Rightarrow> 'q \<Rightarrow> (enqueue_outcome \<times> 'q) list) \<Rightarrow> ('q \<Rightarrow> 'q) \<Rightarrow> 'q Pool \<Rightarrow> 'q Pool \<Rightarrow> bool"
  for enq cls where
  submit: "(EnqueueReturned (Inr ()), q') \<in> set (enq d x (p_queue p)) \<Longrightarrow>
    service_step enq cls p (p\<lparr>p_queue := q', p_accepted := p_accepted p @ [x]\<rparr>)"
| submit_refused: "(r, q') \<in> set (enq d x (p_queue p)) \<Longrightarrow> r \<noteq> EnqueueReturned (Inr ()) \<Longrightarrow>
    service_step enq cls p (p\<lparr>p_queue := q'\<rparr>)"
| shutdown: "p_done p = None \<Longrightarrow> service_step enq cls p (p\<lparr>p_done := Some ContextCanceled\<rparr>)"
| close: "service_step enq cls p (p\<lparr>p_queue := cls (p_queue p)\<rparr>)"

inductive pool_reach ::
    "(error option \<Rightarrow> QueueItem \<Rightarrow> 'q \<Rightarrow> (enqueue_outcome \<times> 'q) list) \<Rightarrow>
     (error option \<Rightarrow> 'q \<Rightarrow> (QueueItem result \<times> 'q) list) \<Rightarrow> ('q \<Rightarrow> 'q) \<Rightarrow> 'q Pool \<Rightarrow> 'q Pool \<Rightarrow> bool"
  for enq deq cls p0 where
  initial: "pool_reach enq deq cls p0 p0"
| work: "pool_reach enq deq cls p0 p \<Longrightarrow> worker_step deq p p' \<Longrightarrow> pool_reach enq deq cls p0 p'"
| serve: "pool_reach enq deq cls p0 p \<Longrightarrow> service_step enq cls p p' \<Longrightarrow> pool_reach enq deq cls p0 p'"

text \<open>\<^verbatim>\<open>Dispatcher.Run\<close> returns when the context is done and every worker has returned.\<close>

definition Run_returns :: "'q Pool \<Rightarrow> bool" where
  "Run_returns p \<longleftrightarrow> p_done p \<noteq> None \<and> list_all (\<lambda>s. s = Returned) (p_workers p)"

definition dispatcher_Enqueue :: "error option \<Rightarrow> QueueItem \<Rightarrow> Queue \<Rightarrow> (enqueue_outcome \<times> Queue) list" where
  "dispatcher_Enqueue done item q =
     map (\<lambda>(r, q'). (case r of
        EnqueueReturned (Inl e) \<Rightarrow> EnqueueReturned (Inl (Wrapped ''queue enqueue'' e))
      | _ \<Rightarrow> r, q')) (Enqueue done item q)"

subsection \<open>Jobs in flight\<close>

fun in_flight :: "worker_state \<Rightarrow> QueueItem list" where
  "in_flight (Processing x) = [x]"
| "in_flight _ = []"

definition flying :: "worker_state list \<Rightarrow> QueueItem multiset" where
  "flying ws = mset (concat (map in_flight ws))"

lemma flying_update:
  "i < length ws \<Longrightarrow> flying (ws[i := s]) + mset (in_flight (ws ! i)) = flying ws + mset (in_flight s)"
proof (induction ws arbitrary: i)
  case (Cons w ws)
  then show ?case
    by (cases i) (simp_all add: flying_def union_ac)
qed simp

lemma flying_size: "size (flying ws) \<le> length ws"
proof (induction ws)
  case (Cons w ws)
  then show ?case by (cases w) (auto simp: flying_def)
qed (simp add: flying_def)

fun weight :: "worker_state \<Rightarrow> nat" where
  "weight Dequeuing = 2"
| "weight DequeueFailed = 1"
| "weight (Processing x) = 3"
| "weight Returned = 0"

lemma weight_update:
  "i < length ws \<Longrightarrow> sum_list (map weight (ws[i := s])) + weight (ws ! i) = sum_list (map weight ws) + weight s"
proof (induction ws arbitrary: i)
  case (Cons w ws)
  then show ?case by (cases i) auto
qed simp

definition workload :: "('q \<Rightarrow> QueueItem list) \<Rightarrow> 'q Pool \<Rightarrow> nat" where
  "workload items p = 2 * length (items (p_queue p)) + sum_list (map weight (p_workers p))"

definition pool_inv :: "('q \<Rightarrow> QueueItem list) \<Rightarrow> nat \<Rightarrow> 'q Pool \<Rightarrow> bool" where
  "pool_inv items n p \<longleftrightarrow>
     p_accepted p = p_started p @ items (p_queue p)
     \<and> mset (p_started p) = flying (p_workers p) + mset (p_finished p)
     \<and> length (p_workers p) = n"

context fifo_queue
begin

lemma pool_inv_worker:
  assumes "pool_inv items n p" "worker_step deq p p'"
  shows "pool_inv items n p'"
  using assms(2,1)
proof cases
  case (receive i x q')
  with assms(1) deq_ok[of x q'] flying_update[of i "p_workers p" "Processing x"] show ?thesis
    by (auto simp: pool_inv_def)
next
  case (receive_failed i e q')
  with assms(1) deq_fail[of e q'] flying_update[of i "p_workers p" DequeueFailed] show ?thesis
    by (auto simp: pool_inv_def)
next
  case (return i)
  with assms(1) flying_update[of i "p_workers p" Returned] show ?thesis by (auto simp: pool_inv_def)
next
  case (continue i)
  with assms(1) flying_update[of i "p_workers p" Dequeuing] show ?thesis by (auto simp: pool_inv_def)
next
  case (processed i x)
  with assms(1) flying_update[of i "p_workers p" Dequeuing] show ?thesis
    by (auto simp: pool_inv_def union_ac)
qed

lemma pool_inv_service:
  assumes "pool_inv items n p" "service_step enq cls p p'"
  shows "pool_inv items n p'"
  using assms(2,1)
proof cases
  case (submit q' d x)
  with assms(1) enq_ok[of q' d x] show ?thesis by (auto simp: pool_inv_def)
next
  case (submit_refused r q' d x)
  with assms(1) enq_fail[of r q' d x] show ?thesis by (auto simp: pool_inv_def)
next
  case shutdown
  with assms(1) show ?thesis by (auto simp: pool_inv_def)
next
  case close
  with assms(1) cls_items[of "p_queue p"] show ?thesis by (auto simp: pool_inv_def)
qed

theorem pool_inv_reach:
  assumes "pool_reach enq deq cls (NewPool q0 n) p" "items q0 = []"
  shows "pool_inv items n p"
  using assms
proof (induction rule: pool_reach.induct)
  case initial
  then show ?case by (induction n) (auto simp: pool_inv_def NewPool_def flying_def)
next
  case (work p p')
  then show ?case using pool_inv_worker by blast
next
  case (serve p p')
  then show ?case using pool_inv_service by blast
qed

text \<open>After the shutdown every worker step lowers the workload.\<close>

lemma workload_decreases:
  assumes "worker_step deq p p'" "p_done p \<noteq> None"
  shows "workload items p' < workload items p" "p_done p' = p_done p"
proof -
  have "workload items p' < workload items p \<and> p_done p' = p_done p"
    using assms(1)
  proof cases
    case (receive i x q')
    with deq_ok[of x q'] weight_update[of i "p_workers p" "Processing x"] show ?thesis
      by (auto simp: workload_def)
  next
    case (receive_failed i e q')
    then have "q' = p_queue p" using deq_fail[of e q'] by blast
    with receive_failed weight_update[of i "p_workers p" DequeueFailed] show ?thesis
      by (auto simp: workload_def)
  next
    case (return i)
    with weight_update[of i "p_workers p" Returned] show ?thesis by (auto simp: workload_def)
  next
    case (continue i)
    with assms(2) show ?thesis by simp
  next
    case (processed i x)
    with weight_update[of i "p_workers p" Dequeuing] show ?thesis by (auto simp: workload_def)
  qed
  then show "workload items p' < workload items p" "p_done p' = p_done p" by simp_all
qed

lemma pool_steps_bounded:
  assumes "(worker_step deq ^^ k) p p'" "p_done p \<noteq> None"
  shows "k + workload items p' \<le> workload items p \<and> p_done p' = p_done p"
  using assms
proof (induction k arbitrary: p')
  case (Suc k)
  then obtain p1 where p1: "(worker_step deq ^^ k) p p1" "worker_step deq p1 p'" by auto
  with Suc workload_decreases[OF p1(2)] show ?case by fastforce
qed simp

end

text \<open>A pool that is shut down and has not returned can move.\<close>

lemma pool_progress:
  assumes "p_done p \<noteq> None" "\<not> Run_returns p" "\<And>d q. d \<noteq> None \<Longrightarrow> deq d q \<noteq> []"
  shows "\<exists>p'. worker_step deq p p'"
proof -
  obtain i where i: "i < length (p_workers p)" "p_workers p ! i \<noteq> Returned"
    using assms(1,2) by (auto simp: Run_returns_def list_all_length)
  show ?thesis
  proof (cases "p_workers p ! i")
    case Dequeuing
    from assms(3)[OF assms(1), of "p_queue p"] obtain r q' where "(r, q') \<in> set (deq (p_done p) (p_queue p))"
      by (metis list.set_intros(1) neq_Nil_conv surj_pair)
    with i Dequeuing show ?thesis
      by (cases r) (auto intro: worker_step.receive worker_step.receive_failed)
  next
    case DequeueFailed
    with i assms(1) show ?thesis by (auto intro: worker_step.return)
  next
    case (Processing x)
    with i show ?thesis by (auto intro: worker_step.processed)
  next
    case Returned
    with i show ?thesis by simp
  qed
qed

lemma Dequeue_ready: "d \<noteq> None \<Longrightarrow> Dequeue d q \<noteq> []"
  by (auto simp: Dequeue_def)

text \<open>So shutdown ends: some run of the workers reaches the state in which \<^verbatim>\<open>Dispatcher.Run\<close> returns.\<close>

lemma pool_shutdown:
  "p_done p \<noteq> None \<Longrightarrow> \<exists>p'. (worker_step Dequeue)\<^sup>*\<^sup>* p p' \<and> Run_returns p'"
proof (induction "workload q_ch p" arbitrary: p rule: less_induct)
  case less
  show ?case
  proof (cases "Run_returns p")
    case True
    then show ?thesis by blast
  next
    case False
    obtain p1 where p1: "worker_step Dequeue p p1"
      using pool_progress[OF less.prems False, of Dequeue] Dequeue_ready by blast
    from less.hyps[of p1] chan.workload_decreases[OF p1 less.prems] less.prems
    obtain p' where "(worker_step Dequeue)\<^sup>*\<^sup>* p1 p'" "Run_returns p'" by auto
    with p1 show ?thesis by (meson converse_rtranclp_into_rtranclp)
  qed
qed

end
