(* ===== verification/Hub.thy ===== *)
theory Hub
  imports Progress "HOL-Library.Multiset"
begin

text \<open>
  The progress hub (internal/progress/hub.go): a buffered channel of events, one batching goroutine,
  and a list of sinks. The state holds the fields of the Go struct, the local variables of the
  goroutine, the emitters that have passed the closed check of \<^verbatim>\<open>Emit\<close> but have not yet sent, and
  ghost histories (accepted events, flushed batches, logged and total drops). Each function of the
  goroutine is a definition; the interleaving of emitters, goroutine, timer and closer is the step
  relation \<open>hub_step\<close>.
\<close>

subsection \<open>State\<close>

record HubConfig =
  BufferSize :: int
  MaxBatchEvents :: int
  MaxBatchWait :: duration
  SinkTimeout :: duration

text \<open>A sink over the world \<open>'s\<close> of its side effects (internal/progress/sink.go).\<close>

record 's Sink =
  Consume :: "Event list \<Rightarrow> 's \<Rightarrow> error option \<times> 's"
  Sink_Close :: "'s \<Rightarrow> error option \<times> 's"

record rateLimiter =
  rl_interval :: duration
  rl_last :: int

record 's Hub =
  hub_cfg :: HubConfig
  hub_sinks :: "'s Sink option list"
  hub_events :: "Event list"
  hub_stop :: bool
  hub_done :: bool
  hub_limiter :: rateLimiter
  hub_dropped :: int
  hub_closed :: bool
  run_batch :: "Event list"
  run_timerActive :: bool
  run_stopping :: bool
  hub_inflight :: "Event list"
  hub_world :: 's
  g_accepted :: "Event list"
  g_flushed :: "Event list list"
  g_warned :: "int list"
  g_drops :: int

definition default_config :: "HubConfig \<Rightarrow> HubConfig" where
  "default_config cfg =
     \<lparr>BufferSize = (if BufferSize cfg \<le> 0 then 4096 else BufferSize cfg),
      MaxBatchEvents = (if MaxBatchEvents cfg \<le> 0 then 1000 else MaxBatchEvents cfg),
      MaxBatchWait = (if MaxBatchWait cfg \<le> 0 then 500 * Millisecond else MaxBatchWait cfg),
      SinkTimeout = (if SinkTimeout cfg \<le> 0 then 10 * Second else SinkTimeout cfg)\<rparr>"

definition NewHub :: "HubConfig \<Rightarrow> 's Sink option list \<Rightarrow> 's \<Rightarrow> 's Hub" where
  "NewHub cfg sinks w =
     \<lparr>hub_cfg = default_config cfg, hub_sinks = sinks, hub_events = [], hub_stop = False,
      hub_done = False, hub_limiter = \<lparr>rl_interval = 5 * Second, rl_last = 0\<rparr>, hub_dropped = 0,
      hub_closed = False, run_batch = [], run_timerActive = False, run_stopping = False,
      hub_inflight = [], hub_world = w, g_accepted = [], g_flushed = [], g_warned = [], g_drops = 0\<rparr>"

subsection \<open>Emitting\<close>

text \<open>\<^verbatim>\<open>rateLimiter.Allow\<close>; the compare-and-swap succeeds when no other emitter moves \<^verbatim>\<open>last\<close> in
  between.\<close>

definition rateLimiter_Allow :: "int \<Rightarrow> rateLimiter \<Rightarrow> bool \<times> rateLimiter" where
  "rateLimiter_Allow nano r =
     (if rl_interval r \<le> 0 then (True, r)
      else if i64 (nano - rl_last r) < rl_interval r then (False, r)
      else (True, r\<lparr>rl_last := nano\<rparr>))"

text \<open>\<^verbatim>\<open>Emit\<close> up to the select: a closed hub and an invalid event end it here.\<close>

definition Emit_check :: "Event \<Rightarrow> 's Hub \<Rightarrow> 's Hub" where
  "Emit_check evt h =
     (if hub_closed h then h
      else case Event_Validate evt of
             Inl _ \<Rightarrow> h
           | Inr _ \<Rightarrow> h\<lparr>hub_inflight := hub_inflight h @ [evt]\<rparr>)"

text \<open>The select: send if the buffer has room, otherwise count the drop and, at most once per
  interval, log and reset the count.\<close>

definition Emit_send :: "int \<Rightarrow> Event \<Rightarrow> 's Hub \<Rightarrow> 's Hub" where
  "Emit_send now evt h0 =
     (let h = h0\<lparr>hub_inflight := remove1 evt (hub_inflight h0)\<rparr> in
      if int (length (hub_events h)) < BufferSize (hub_cfg h)
      then h\<lparr>hub_events := hub_events h @ [evt], g_accepted := g_accepted h @ [evt]\<rparr>
      else
        let dropped = hub_dropped h + 1;
            (ok, lim) = rateLimiter_Allow now (hub_limiter h)
        in if ok
           then h\<lparr>hub_dropped := 0, hub_limiter := lim, g_warned := g_warned h @ [dropped],
                  g_drops := g_drops h + 1\<rparr>
           else h\<lparr>hub_dropped := dropped, hub_limiter := lim, g_drops := g_drops h + 1\<rparr>)"

subsection \<open>The batching goroutine\<close>

definition flush_sinks :: "Event list \<Rightarrow> 's Sink option list \<Rightarrow> 's \<Rightarrow> 's" where
  "flush_sinks batch sinks w =
     fold (\<lambda>sink w. case sink of None \<Rightarrow> w | Some s \<Rightarrow> snd (Consume s batch w)) sinks w"

definition flush :: "Event list \<Rightarrow> 's Hub \<Rightarrow> 's Hub" where
  "flush batch h =
     (if batch = [] then h
      else h\<lparr>hub_world := flush_sinks batch (hub_sinks h) (hub_world h),
             g_flushed := g_flushed h @ [batch]\<rparr>)"

definition closeSinks :: "'s Hub \<Rightarrow> 's Hub" where
  "closeSinks h =
     h\<lparr>hub_world := fold (\<lambda>sink w. case sink of None \<Rightarrow> w | Some s \<Rightarrow> snd (Sink_Close s w))
          (hub_sinks h) (hub_world h)\<rparr>"

definition stopTimer :: "'s Hub \<Rightarrow> 's Hub" where
  "stopTimer h = (if \<not> run_timerActive h then h else h\<lparr>run_timerActive := False\<rparr>)"

definition resetTimer :: "'s Hub \<Rightarrow> 's Hub" where
  "resetTimer h = (if MaxBatchWait (hub_cfg h) \<le> 0 then h else h\<lparr>run_timerActive := True\<rparr>)"

definition enqueueEvent :: "Event \<Rightarrow> 's Hub \<Rightarrow> 's Hub" where
  "enqueueEvent evt h0 =
     (let h = h0\<lparr>run_batch := run_batch h0 @ [evt]\<rparr> in
      if MaxBatchEvents (hub_cfg h) \<le> int (length (run_batch h))
      then stopTimer ((flush (run_batch h) h)\<lparr>run_batch := []\<rparr>)
      else if 0 < MaxBatchWait (hub_cfg h) then resetTimer h
      else h)"

text \<open>The three cases of the select in \<^verbatim>\<open>run\<close>.\<close>

definition run_receive :: "Event \<Rightarrow> Event list \<Rightarrow> 's Hub \<Rightarrow> 's Hub" where
  "run_receive evt rest h = enqueueEvent evt (h\<lparr>hub_events := rest\<rparr>)"

definition run_timer_fired :: "'s Hub \<Rightarrow> 's Hub" where
  "run_timer_fired h0 =
     (let h = h0\<lparr>run_timerActive := False\<rparr> in
      if run_batch h \<noteq> [] then (flush (run_batch h) h)\<lparr>run_batch := []\<rparr> else h)"

definition run_stop :: "'s Hub \<Rightarrow> 's Hub" where
  "run_stop h = (stopTimer h)\<lparr>run_stopping := True\<rparr>"

text \<open>The loop of \<^verbatim>\<open>handleStop\<close>: receive while events are buffered, then flush and close the sinks.\<close>

definition drain_receive :: "Event \<Rightarrow> Event list \<Rightarrow> 's Hub \<Rightarrow> 's Hub" where
  "drain_receive evt rest h0 =
     (let h = h0\<lparr>hub_events := rest, run_batch := run_batch h0 @ [evt]\<rparr> in
      if MaxBatchEvents (hub_cfg h) \<le> int (length (run_batch h))
      then (flush (run_batch h) h)\<lparr>run_batch := []\<rparr> else h)"

definition drain_finish :: "'s Hub \<Rightarrow> 's Hub" where
  "drain_finish h =
     (closeSinks (flush (run_batch h) h))\<lparr>run_batch := [], hub_done := True\<rparr>"

definition hub_Close :: "'s Hub \<Rightarrow> 's Hub" where
  "hub_Close h = (if hub_closed h then h else h\<lparr>hub_closed := True, hub_stop := True\<rparr>)"

text \<open>\<^verbatim>\<open>handleStop\<close> run to its end with no emitter interfering.\<close>

function handleStop :: "'s Hub \<Rightarrow> 's Hub" where
  "handleStop h =
     (case hub_events h of
        evt # rest \<Rightarrow> handleStop (drain_receive evt rest h)
      | [] \<Rightarrow> drain_finish h)"
  by pat_completeness auto
termination
  by (relation "measure (\<lambda>h. length (hub_events h))")
     (auto simp: drain_receive_def flush_def Let_def)

declare handleStop.simps [simp del]

subsection \<open>Interleavings\<close>

inductive hub_step :: "'s Hub \<Rightarrow> 's Hub \<Rightarrow> bool" where
  emit_check: "hub_step h (Emit_check evt h)"
| emit_send: "evt \<in> set (hub_inflight h) \<Longrightarrow> hub_step h (Emit_send now evt h)"
| receive: "\<not> run_stopping h \<Longrightarrow> hub_events h = evt # rest \<Longrightarrow> hub_step h (run_receive evt rest h)"
| timer: "\<not> run_stopping h \<Longrightarrow> run_timerActive h \<Longrightarrow> hub_step h (run_timer_fired h)"
| stop: "\<not> run_stopping h \<Longrightarrow> hub_stop h \<Longrightarrow> hub_step h (run_stop h)"
| drain: "run_stopping h \<Longrightarrow> \<not> hub_done h \<Longrightarrow> hub_events h = evt # rest \<Longrightarrow>
    hub_step h (drain_receive evt rest h)"
| finish: "run_stopping h \<Longrightarrow> \<not> hub_done h \<Longrightarrow> hub_events h = [] \<Longrightarrow> hub_step h (drain_finish h)"
| close: "hub_step h (hub_Close h)"

inductive hub_reach :: "HubConfig \<Rightarrow> 's Sink option list \<Rightarrow> 's \<Rightarrow> 's Hub \<Rightarrow> bool"
  for cfg sinks w where
  hub_start: "hub_reach cfg sinks w (NewHub cfg sinks w)"
| hub_next: "hub_reach cfg sinks w h \<Longrightarrow> hub_step h h' \<Longrightarrow> hub_reach cfg sinks w h'"

subsection \<open>Invariant\<close>

definition valid_events :: "Event set" where
  "valid_events = {e. Event_Validate e = Inr ()}"

definition hub_inv :: "HubConfig \<Rightarrow> 's Sink option list \<Rightarrow> 's Hub \<Rightarrow> bool" where
  "hub_inv cfg sinks h \<longleftrightarrow>
     hub_cfg h = default_config cfg \<and> hub_sinks h = sinks
     \<and> g_accepted h = concat (g_flushed h) @ run_batch h @ hub_events h
     \<and> int (length (run_batch h)) < MaxBatchEvents (hub_cfg h)
     \<and> int (length (hub_events h)) \<le> BufferSize (hub_cfg h)
     \<and> (\<forall>b \<in> set (g_flushed h). b \<noteq> [] \<and> int (length b) \<le> MaxBatchEvents (hub_cfg h))
     \<and> set (g_accepted h) \<subseteq> valid_events \<and> set (hub_inflight h) \<subseteq> valid_events
     \<and> sum_list (g_warned h) + hub_dropped h = g_drops h
     \<and> (hub_done h \<longrightarrow> run_stopping h \<and> run_batch h = [])
     \<and> (run_stopping h \<longrightarrow> hub_closed h \<and> \<not> run_timerActive h)
     \<and> (\<not> run_stopping h \<longrightarrow> run_timerActive h = (run_batch h \<noteq> []))
     \<and> hub_stop h = hub_closed h"

lemma default_config_pos [simp]:
  "0 < BufferSize (default_config cfg)" "0 < MaxBatchEvents (default_config cfg)"
  "0 < MaxBatchWait (default_config cfg)" "0 < SinkTimeout (default_config cfg)"
  by (simp_all add: default_config_def)

lemma hub_invD:
  assumes "hub_inv cfg sinks h"
  shows "hub_cfg h = default_config cfg" "hub_sinks h = sinks"
    "g_accepted h = concat (g_flushed h) @ run_batch h @ hub_events h"
    "int (length (run_batch h)) < MaxBatchEvents (default_config cfg)"
    "int (length (hub_events h)) \<le> BufferSize (default_config cfg)"
    "\<forall>b \<in> set (g_flushed h). b \<noteq> [] \<and> int (length b) \<le> MaxBatchEvents (default_config cfg)"
    "set (concat (g_flushed h) @ run_batch h @ hub_events h) \<subseteq> valid_events"
    "set (hub_inflight h) \<subseteq> valid_events"
    "sum_list (g_warned h) + hub_dropped h = g_drops h"
    "hub_done h \<longrightarrow> run_stopping h \<and> run_batch h = []"
    "run_stopping h \<longrightarrow> hub_closed h \<and> \<not> run_timerActive h"
    "\<not> run_stopping h \<longrightarrow> run_timerActive h = (run_batch h \<noteq> [])"
    "hub_stop h = hub_closed h"
  using assms unfolding hub_inv_def by - (elim conjE, simp)+

lemma hub_inv_new: "hub_inv cfg sinks (NewHub cfg sinks w)"
  using default_config_pos(1)[of cfg] by (simp add: hub_inv_def NewHub_def less_imp_le)

lemma hub_inv_emit_check:
  assumes "hub_inv cfg sinks h"
  shows "hub_inv cfg sinks (Emit_check e h)"
proof (cases "hub_closed h \<or> Event_Validate e \<noteq> Inr ()")
  case True
  then have "Emit_check e h = h"
    by (cases "Event_Validate e") (auto simp: Emit_check_def)
  with assms show ?thesis by simp
next
  case False
  then have "e \<in> valid_events" by (simp add: valid_events_def)
  with False hub_invD[OF assms] show ?thesis by (simp add: hub_inv_def Emit_check_def)
qed

lemma hub_inv_emit_send:
  assumes "hub_inv cfg sinks h" "e \<in> set (hub_inflight h)"
  shows "hub_inv cfg sinks (Emit_send now e h)"
proof -
  note I = hub_invD[OF assms(1)]
  have sub: "set (remove1 e (hub_inflight h)) \<subseteq> valid_events" and e: "e \<in> valid_events"
    using I(8) assms(2) set_remove1_subset[of e "hub_inflight h"] by blast+
  obtain ok lim where lim: "rateLimiter_Allow now (hub_limiter h) = (ok, lim)"
    by (cases "rateLimiter_Allow now (hub_limiter h)")
  show ?thesis
  proof (cases "int (length (hub_events h)) < BufferSize (default_config cfg)")
    case True
    with I sub e show ?thesis by (simp add: hub_inv_def Emit_send_def)
  next
    case False
    with I sub lim show ?thesis by (cases ok) (simp_all add: hub_inv_def Emit_send_def Let_def)
  qed
qed

lemma hub_inv_receive:
  assumes "hub_inv cfg sinks h" "\<not> run_stopping h" "hub_events h = e # r"
  shows "hub_inv cfg sinks (run_receive e r h)"
proof -
  have "\<not> MaxBatchWait (default_config cfg) \<le> 0" by (simp add: not_le)
  then show ?thesis
    using hub_invD[OF assms(1)] assms(2,3)
    by (cases "MaxBatchEvents (default_config cfg) \<le> int (length (run_batch h)) + 1")
       (simp_all add: hub_inv_def run_receive_def enqueueEvent_def flush_def stopTimer_def
        resetTimer_def Let_def)
qed

lemma hub_inv_timer:
  assumes "hub_inv cfg sinks h" "\<not> run_stopping h"
  shows "hub_inv cfg sinks (run_timer_fired h)"
  using hub_invD[OF assms(1)] assms(2)
  by (simp add: hub_inv_def run_timer_fired_def flush_def Let_def)

lemma hub_inv_stop:
  assumes "hub_inv cfg sinks h" "hub_stop h"
  shows "hub_inv cfg sinks (run_stop h)"
  using hub_invD[OF assms(1)] assms(2) by (simp add: hub_inv_def run_stop_def stopTimer_def)

lemma hub_inv_drain:
  assumes "hub_inv cfg sinks h" "run_stopping h" "\<not> hub_done h" "hub_events h = e # r"
  shows "hub_inv cfg sinks (drain_receive e r h)"
  using hub_invD[OF assms(1)] assms(2-4)
  by (cases "MaxBatchEvents (default_config cfg) \<le> int (length (run_batch h)) + 1")
     (simp_all add: hub_inv_def drain_receive_def flush_def Let_def)

lemma hub_inv_finish:
  assumes "hub_inv cfg sinks h" "run_stopping h"
  shows "hub_inv cfg sinks (drain_finish h)"
  using hub_invD[OF assms(1)] assms(2)
  by (simp add: hub_inv_def drain_finish_def flush_def closeSinks_def)

lemma hub_inv_close:
  assumes "hub_inv cfg sinks h"
  shows "hub_inv cfg sinks (hub_Close h)"
proof (cases "hub_closed h")
  case True
  with assms show ?thesis by (simp add: hub_Close_def)
next
  case False
  with hub_invD[OF assms] show ?thesis by (simp add: hub_inv_def hub_Close_def)
qed

lemma hub_inv_step:
  assumes "hub_step h h'" "hub_inv cfg sinks h"
  shows "hub_inv cfg sinks h'"
  using assms
proof (induction rule: hub_step.induct)
  case (emit_check h e)
  then show ?case by (rule hub_inv_emit_check)
next
  case (emit_send e h now)
  show ?case by (rule hub_inv_emit_send[OF emit_send(2,1)])
next
  case (receive h e r)
  show ?case by (rule hub_inv_receive[OF receive(3,1,2)])
next
  case (timer h)
  show ?case by (rule hub_inv_timer[OF timer(3,1)])
next
  case (stop h)
  show ?case by (rule hub_inv_stop[OF stop(3,2)])
next
  case (drain h e r)
  show ?case by (rule hub_inv_drain[OF drain(4,1,2,3)])
next
  case (finish h)
  show ?case by (rule hub_inv_finish[OF finish(4,1)])
next
  case (close h)
  then show ?case by (rule hub_inv_close)
qed

lemma hub_inv_reach: "hub_reach cfg sinks w h \<Longrightarrow> hub_inv cfg sinks h"
  by (induction rule: hub_reach.induct) (auto intro: hub_inv_new hub_inv_step)

subsection \<open>Shutdown\<close>

text \<open>A closed hub: what it had accepted by then (\<open>acc\<close>) stays at the front and is flushed by the time the
  goroutine ends; all it accepts later comes from the emitters that had passed the closed check
  (\<open>fl\<close>).\<close>

definition draining :: "Event list \<Rightarrow> Event multiset \<Rightarrow> 's Hub \<Rightarrow> bool" where
  "draining acc fl h \<longleftrightarrow> hub_closed h
     \<and> (\<exists>late. g_accepted h = acc @ late \<and> mset late + mset (hub_inflight h) \<subseteq># fl)
     \<and> (hub_done h \<longrightarrow> prefix acc (concat (g_flushed h)))"

lemma draining_start: "hub_closed h \<Longrightarrow> \<not> hub_done h \<Longrightarrow> draining (g_accepted h) (mset (hub_inflight h)) h"
  by (simp add: draining_def)

lemma draining_send:
  assumes "draining acc fl h" "evt \<in> set (hub_inflight h)"
  shows "draining acc fl (Emit_send now evt h)"
proof -
  obtain late where late: "g_accepted h = acc @ late" "mset late + mset (hub_inflight h) \<subseteq># fl" "hub_closed h"
    "hub_done h \<longrightarrow> prefix acc (concat (g_flushed h))"
    using assms(1) unfolding draining_def by blast
  let ?rest = "mset (remove1 evt (hub_inflight h))"
  have "mset (hub_inflight h) = add_mset evt ?rest" using assms(2) by simp
  with late(2) have more: "add_mset evt (mset late + ?rest) \<subseteq># fl" by (simp only: union_mset_add_mset_right)
  obtain ok lim where lim: "rateLimiter_Allow now (hub_limiter h) = (ok, lim)" by fastforce
  show ?thesis
  proof (cases "int (length (hub_events h)) < BufferSize (hub_cfg h)")
    case True
    with late more show ?thesis
      by (simp add: draining_def Emit_send_def del: mset_remove1)
  next
    case False
    have "mset late + ?rest \<subseteq># fl" using more by (meson mset_subset_eq_insertD subset_mset.less_imp_le)
    with late False lim show ?thesis by (cases ok) (auto simp: draining_def Emit_send_def Let_def)
  qed
qed

lemma draining_step:
  assumes "hub_step h h'" "hub_inv cfg sinks h" "draining acc fl h"
  shows "draining acc fl h'"
  using assms
proof (induction rule: hub_step.induct)
  case (emit_check h e)
  then show ?case by (simp add: draining_def Emit_check_def)
next
  case (emit_send e h now)
  then show ?case by (intro draining_send)
next
  case (receive h e r)
  then have "\<not> hub_done h" using hub_invD(10)[OF receive(3)] by blast
  with receive show ?case
    by (auto simp: draining_def run_receive_def enqueueEvent_def flush_def stopTimer_def resetTimer_def Let_def)
next
  case (finish h)
  then have "concat (g_flushed h) @ run_batch h = g_accepted h" using hub_invD(3)[OF finish(4)] by simp
  with finish show ?case by (auto simp: draining_def drain_finish_def closeSinks_def flush_def)
next
  case (timer h)
  then have "\<not> hub_done h" using hub_invD(10)[OF timer(3)] by blast
  with timer show ?case by (auto simp: draining_def run_timer_fired_def flush_def Let_def)
qed (auto simp: draining_def run_stop_def stopTimer_def drain_receive_def flush_def hub_Close_def Let_def)

lemma hub_reach_steps: "hub_step\<^sup>*\<^sup>* h h' \<Longrightarrow> hub_reach cfg sinks w h \<Longrightarrow> hub_reach cfg sinks w h'"
  by (induction rule: rtranclp_induct) (auto intro: hub_next)

lemma draining_steps:
  "hub_step\<^sup>*\<^sup>* h h' \<Longrightarrow> hub_reach cfg sinks w h \<Longrightarrow> draining acc fl h \<Longrightarrow> draining acc fl h'"
proof (induction rule: rtranclp_induct)
  case (step a b)
  from draining_step[OF step(2) hub_inv_reach[OF hub_reach_steps[OF step(1)]]] step show ?case by blast
qed

text \<open>When the goroutine has ended, what it left in the channel was sent after the close.\<close>

lemma drained:
  assumes "hub_inv cfg sinks h" "draining acc fl h" "hub_done h"
  shows "prefix acc (concat (g_flushed h))" "g_accepted h = concat (g_flushed h) @ hub_events h" "mset (hub_events h) \<subseteq># fl"
proof -
  note I = hub_invD[OF assms(1)]
  show pre: "prefix acc (concat (g_flushed h))" using assms(2,3) by (simp add: draining_def)
  show acc: "g_accepted h = concat (g_flushed h) @ hub_events h" using I(3,10) assms(3) by simp
  obtain late where late: "g_accepted h = acc @ late" "mset late + mset (hub_inflight h) \<subseteq># fl"
    using assms(2) unfolding draining_def by blast
  obtain v where "concat (g_flushed h) = acc @ v" using pre by (auto simp: prefix_def)
  with acc late(1) have "late = v @ hub_events h" by simp
  then have "mset (hub_events h) \<subseteq># mset late" by simp
  also have "mset late \<subseteq># fl" using late(2) by (metis mset_subset_eq_add_left subset_mset.order_trans)
  finally show "mset (hub_events h) \<subseteq># fl" .
qed

text \<open>Steps of a closed hub that change its state: each makes progress towards the end.\<close>

definition hub_move :: "'s Hub \<Rightarrow> 's Hub \<Rightarrow> bool" where
  "hub_move h h' \<longleftrightarrow> hub_step h h' \<and> h' \<noteq> h"

definition hub_work :: "'s Hub \<Rightarrow> nat" where
  "hub_work h = 3 * length (hub_inflight h) + 2 * length (hub_events h) + (if run_timerActive h then 1 else 0)
     + (if run_stopping h then 0 else 1) + (if hub_done h then 0 else 1)"

lemma hub_work_send:
  assumes "evt \<in> set (hub_inflight h)"
  shows "hub_work (Emit_send now evt h) < hub_work h"
proof -
  have "length (remove1 evt (hub_inflight h)) + 1 = length (hub_inflight h)"
    using assms by (simp add: length_remove1) (metis Suc_pred length_pos_if_in_set)
  moreover obtain ok lim where "rateLimiter_Allow now (hub_limiter h) = (ok, lim)" by fastforce
  ultimately show ?thesis by (cases ok) (simp_all add: hub_work_def Emit_send_def Let_def)
qed

lemma hub_work_step:
  assumes "hub_step h h'" "hub_closed h"
  shows "hub_closed h' \<and> (h' = h \<or> hub_work h' < hub_work h)"
  using assms
proof (induction rule: hub_step.induct)
  case (emit_check h e)
  then show ?case by (simp add: Emit_check_def)
next
  case (emit_send e h now)
  obtain ok lim where "rateLimiter_Allow now (hub_limiter h) = (ok, lim)" by fastforce
  then have "hub_closed (Emit_send now e h)" using emit_send(2) by (cases ok) (simp_all add: Emit_send_def Let_def)
  with hub_work_send[OF emit_send(1)] show ?case by simp
next
  case (close h)
  then show ?case by (simp add: hub_Close_def)
qed (auto simp: hub_work_def run_receive_def enqueueEvent_def run_timer_fired_def run_stop_def stopTimer_def resetTimer_def
      drain_receive_def drain_finish_def closeSinks_def flush_def Let_def)

lemma hub_moves_bounded: "(hub_move ^^ n) h h' \<Longrightarrow> hub_closed h \<Longrightarrow> n + hub_work h' \<le> hub_work h"
proof (induction n arbitrary: h')
  case (Suc n)
  then obtain m where m: "(hub_move ^^ n) h m" "hub_move m h'" by auto
  have "hub_closed m" using m(1) Suc.prems(2)
  proof (induction n arbitrary: m)
    case (Suc k)
    then obtain b where "(hub_move ^^ k) h b" "hub_move b m" by auto
    with Suc.IH Suc.prems(2) hub_work_step show ?case unfolding hub_move_def[of b] by blast
  qed auto
  with hub_work_step[of m h'] m(2) Suc.IH[OF m(1) Suc.prems(2)] show ?case by (auto simp: hub_move_def)
qed auto

lemma hub_can_move:
  assumes "hub_inv cfg sinks h" "hub_closed h" "\<not> hub_done h"
  shows "\<exists>h'. hub_move h h'"
proof (cases "run_stopping h")
  case False
  have "hub_stop h" using hub_invD(13)[OF assms(1)] assms(2) by simp
  have "run_stopping (run_stop h)" by (simp add: run_stop_def)
  then have "run_stop h \<noteq> h" using False by auto
  with hub_step.stop[OF False \<open>hub_stop h\<close>] show ?thesis unfolding hub_move_def by blast
next
  case True
  show ?thesis
  proof (cases "hub_events h")
    case Nil
    have "hub_done (drain_finish h)" by (simp add: drain_finish_def)
    then have "drain_finish h \<noteq> h" using assms(3) by auto
    with hub_step.finish[OF True assms(3) Nil] show ?thesis unfolding hub_move_def by blast
  next
    case (Cons e r)
    have "hub_events (drain_receive e r h) = r" by (simp add: drain_receive_def flush_def Let_def)
    then have "drain_receive e r h \<noteq> h" using Cons by auto
    with hub_step.drain[OF True assms(3) Cons] show ?thesis unfolding hub_move_def by blast
  qed
qed

lemma handleStop_steps:
  "run_stopping h \<Longrightarrow> \<not> hub_done h \<Longrightarrow> hub_step\<^sup>*\<^sup>* h (handleStop h) \<and> hub_done (handleStop h)"
proof (induction h rule: handleStop.induct)
  case (1 h)
  show ?case
  proof (cases "hub_events h")
    case Nil
    have "hub_done (drain_finish h)" by (simp add: drain_finish_def)
    with Nil 1(2,3) show ?thesis
      by (auto simp: handleStop.simps[of h] intro: r_into_rtranclp hub_step.finish)
  next
    case (Cons e r)
    have "run_stopping (drain_receive e r h)" "\<not> hub_done (drain_receive e r h)"
      using 1(2,3) by (simp_all add: drain_receive_def flush_def Let_def)
    from "1.IH"[OF Cons this] hub_step.drain[OF 1(2,3) Cons] Cons show ?thesis
      by (auto simp: handleStop.simps[of h] intro: converse_rtranclp_into_rtranclp)
  qed
qed

text \<open>What the sinks have seen: exactly the flushed batches, each sink in turn per batch, until
  the sinks are closed.\<close>

definition sinks_world :: "'s Sink option list \<Rightarrow> Event list list \<Rightarrow> 's \<Rightarrow> 's" where
  "sinks_world sinks bs w = fold (\<lambda>b. flush_sinks b sinks) bs w"

lemma hub_world_step:
  assumes "hub_step h h'" "hub_world h = sinks_world (hub_sinks h) (g_flushed h) w" "\<not> hub_done h'"
  shows "hub_world h' = sinks_world (hub_sinks h') (g_flushed h') w"
  using assms
proof (induction rule: hub_step.induct)
  case (emit_send e h now)
  obtain ok lim where "rateLimiter_Allow now (hub_limiter h) = (ok, lim)"
    by (cases "rateLimiter_Allow now (hub_limiter h)")
  with emit_send show ?case by (cases ok) (simp_all add: Emit_send_def Let_def)
next
  case (emit_check h e)
  then show ?case by (cases "Event_Validate e") (simp_all add: Emit_check_def)
next
  case (receive h e r)
  then show ?case
    by (simp add: run_receive_def enqueueEvent_def flush_def stopTimer_def resetTimer_def
        sinks_world_def Let_def)
next
  case (finish h)
  then show ?case by (simp add: drain_finish_def)
qed (simp_all add: run_timer_fired_def run_stop_def stopTimer_def drain_receive_def flush_def
      hub_Close_def sinks_world_def Let_def)

lemma hub_done_stays:
  assumes "hub_step h h'" "hub_done h"
  shows "hub_done h'"
  using assms
proof (induction rule: hub_step.induct)
  case (emit_check h e)
  then show ?case by (cases "Event_Validate e") (simp_all add: Emit_check_def)
next
  case (emit_send e h now)
  obtain ok lim where "rateLimiter_Allow now (hub_limiter h) = (ok, lim)"
    by (cases "rateLimiter_Allow now (hub_limiter h)")
  with emit_send show ?case by (cases ok) (simp_all add: Emit_send_def Let_def)
next
  case (receive h e r)
  then show ?case
    by (simp add: run_receive_def enqueueEvent_def flush_def stopTimer_def resetTimer_def Let_def)
qed (simp_all add: run_timer_fired_def run_stop_def stopTimer_def drain_finish_def flush_def
      hub_Close_def Let_def)

lemma hub_world_reach:
  "hub_reach cfg sinks w h \<Longrightarrow> \<not> hub_done h \<Longrightarrow>
     hub_world h = sinks_world (hub_sinks h) (g_flushed h) w"
proof (induction rule: hub_reach.induct)
  case hub_start
  then show ?case by (simp add: NewHub_def sinks_world_def)
next
  case (hub_next h h')
  from hub_next.prems hub_done_stays[OF hub_next.hyps(2)] have "\<not> hub_done h" by blast
  from hub_world_step[OF hub_next.hyps(2) hub_next.IH[OF this] hub_next.prems] show ?case .
qed

end
