(* ===== verification/ProgressRepo.thy ===== *)
theory ProgressRepo
  imports Progress
begin

text \<open>
  The progress repository: its interface (internal/store/progress_repo.go) as a record of operations
  over a repository state, and the Postgres implementation
  (internal/storage/postgres/progress_store.go). The SQL statements of the source are given their
  relational meaning on the two tables; a failing database call is the next entry of a fault script
  in the state, so every error path can be taken.
\<close>

subsection \<open>Rows and interface\<close>

type_synonym JobRunStatus = bytes

abbreviation RunRunning :: JobRunStatus where "RunRunning \<equiv> ''running''"
abbreviation RunSuccess :: JobRunStatus where "RunSuccess \<equiv> ''success''"
abbreviation RunError :: JobRunStatus where "RunError \<equiv> ''error''"

record JobRun =
  run_ID :: uuid
  run_JobID :: uuid
  run_StartedAt :: timestamp
  run_FinishedAt :: "timestamp option"
  run_Status :: JobRunStatus
  run_ErrorMessage :: "bytes option"

record SiteStats =
  st_JobID :: uuid
  st_Site :: bytes
  st_LastUpdate :: timestamp
  st_Visits :: int
  st_BytesTotal :: int
  st_Fetch2xx :: int
  st_Fetch3xx :: int
  st_Fetch4xx :: int
  st_Fetch5xx :: int

definition ErrNotFound :: error where
  "ErrNotFound = ErrorString ''progress record not found''"

record 'r ProgressRepository =
  repo_UpsertJobStart :: "uuid \<Rightarrow> timestamp \<Rightarrow> 'r \<Rightarrow> error option \<times> 'r"
  repo_CompleteJob :: "uuid \<Rightarrow> timestamp \<Rightarrow> JobRunStatus \<Rightarrow> bytes option \<Rightarrow> 'r \<Rightarrow> error option \<times> 'r"
  repo_UpsertSiteStats ::
    "uuid \<Rightarrow> bytes \<Rightarrow> int \<Rightarrow> int \<Rightarrow> StatusClass \<Rightarrow> timestamp \<Rightarrow> 'r \<Rightarrow> error option \<times> 'r"
  repo_GetJob :: "uuid \<Rightarrow> 'r \<Rightarrow> JobRun result \<times> 'r"
  repo_ListJobs :: "JobRunStatus option \<Rightarrow> int \<Rightarrow> int \<Rightarrow> 'r \<Rightarrow> JobRun list result \<times> 'r"
  repo_ListJobSites :: "uuid \<Rightarrow> int \<Rightarrow> int \<Rightarrow> 'r \<Rightarrow> SiteStats list result \<times> 'r"

subsection \<open>The database\<close>

record DB =
  job_runs :: "JobRun list"
  site_stats :: "SiteStats list"
  db_faults :: "error option list"

text \<open>One call of the pool: it fails with the next scripted error and changes nothing, or runs the
  statement, whose meaning is a number of affected rows (or a result) and new tables.\<close>

definition pool_exec :: "(DB \<Rightarrow> 'a \<times> DB) \<Rightarrow> DB \<Rightarrow> 'a result \<times> DB" where
  "pool_exec stmt db =
     (case db_faults db of
        [] \<Rightarrow> (case stmt db of (n, db') \<Rightarrow> (Inr n, db'))
      | None # fs \<Rightarrow> (case stmt (db\<lparr>db_faults := fs\<rparr>) of (n, db') \<Rightarrow> (Inr n, db'))
      | Some e # fs \<Rightarrow> (Inl e, db\<lparr>db_faults := fs\<rparr>))"

definition sql_insert_job_run :: "uuid \<Rightarrow> uuid \<Rightarrow> timestamp \<Rightarrow> JobRunStatus \<Rightarrow> DB \<Rightarrow> nat \<times> DB" where
  "sql_insert_job_run i jobID startedAt status db =
     (let clash = (\<lambda>r. run_ID r = i \<and> run_StartedAt r = startedAt) in
      if list_ex clash (job_runs db) then
        (length (filter (\<lambda>r. clash r \<and> run_Status r \<noteq> status) (job_runs db)),
         db\<lparr>job_runs := map (\<lambda>r. if clash r \<and> run_Status r \<noteq> status
                                then r\<lparr>run_Status := status\<rparr> else r) (job_runs db)\<rparr>)
      else
        (1, db\<lparr>job_runs := job_runs db @
              [\<lparr>run_ID = i, run_JobID = jobID, run_StartedAt = startedAt, run_FinishedAt = None,
                run_Status = status, run_ErrorMessage = None\<rparr>]\<rparr>))"

definition UpsertJobStart :: "uuid \<Rightarrow> timestamp \<Rightarrow> DB \<Rightarrow> error option \<times> DB" where
  "UpsertJobStart jobID startedAt db =
     (case pool_exec (sql_insert_job_run jobID jobID startedAt RunRunning) db of
        (Inl e, db') \<Rightarrow> (Some (Wrapped ''failed to upsert job start'' e), db')
      | (Inr _, db') \<Rightarrow> (None, db'))"

definition sql_complete_job ::
    "timestamp \<Rightarrow> JobRunStatus \<Rightarrow> bytes option \<Rightarrow> uuid \<Rightarrow> DB \<Rightarrow> nat \<times> DB" where
  "sql_complete_job finishedAt status errMsg i db =
     (length (filter (\<lambda>r. run_ID r = i) (job_runs db)),
      db\<lparr>job_runs := map (\<lambda>r. if run_ID r = i
          then r\<lparr>run_FinishedAt := Some finishedAt, run_Status := status, run_ErrorMessage := errMsg\<rparr>
          else r) (job_runs db)\<rparr>)"

definition CompleteJob ::
    "uuid \<Rightarrow> timestamp \<Rightarrow> JobRunStatus \<Rightarrow> bytes option \<Rightarrow> DB \<Rightarrow> error option \<times> DB" where
  "CompleteJob jobID finishedAt status errMsg db =
     (case pool_exec (sql_complete_job finishedAt status errMsg jobID) db of
        (Inl e, db') \<Rightarrow> (Some (Wrapped ''failed to complete job'' e), db')
      | (Inr _, db') \<Rightarrow> (None, db'))"

text \<open>The four UPDATE statements differ in the counter column they add to.\<close>

definition add_class :: "StatusClass \<Rightarrow> int \<Rightarrow> SiteStats \<Rightarrow> SiteStats" where
  "add_class cls n r =
     (if cls = Status2xx then r\<lparr>st_Fetch2xx := st_Fetch2xx r + n\<rparr>
      else if cls = Status3xx then r\<lparr>st_Fetch3xx := st_Fetch3xx r + n\<rparr>
      else if cls = Status4xx then r\<lparr>st_Fetch4xx := st_Fetch4xx r + n\<rparr>
      else r\<lparr>st_Fetch5xx := st_Fetch5xx r + n\<rparr>)"

definition bump :: "int \<Rightarrow> int \<Rightarrow> StatusClass \<Rightarrow> timestamp \<Rightarrow> SiteStats \<Rightarrow> SiteStats" where
  "bump dv db cls at r =
     add_class cls dv (r\<lparr>st_Visits := st_Visits r + dv, st_BytesTotal := st_BytesTotal r + db,
                         st_LastUpdate := at\<rparr>)"

definition same_row :: "uuid \<Rightarrow> bytes \<Rightarrow> SiteStats \<Rightarrow> bool" where
  "same_row j s r \<longleftrightarrow> st_JobID r = j \<and> st_Site r = s"

definition sql_update_stats ::
    "uuid \<Rightarrow> bytes \<Rightarrow> int \<Rightarrow> int \<Rightarrow> StatusClass \<Rightarrow> timestamp \<Rightarrow> DB \<Rightarrow> nat \<times> DB" where
  "sql_update_stats j s dv dby cls at db =
     (length (filter (same_row j s) (site_stats db)),
      db\<lparr>site_stats := map (\<lambda>r. if same_row j s r then bump dv dby cls at r else r) (site_stats db)\<rparr>)"

definition sql_insert_stats :: "SiteStats \<Rightarrow> DB \<Rightarrow> nat \<times> DB" where
  "sql_insert_stats row db =
     (if list_ex (same_row (st_JobID row) (st_Site row)) (site_stats db) then (0, db)
      else (1, db\<lparr>site_stats := site_stats db @ [row]\<rparr>))"

definition known_class :: "StatusClass \<Rightarrow> bool" where
  "known_class cls \<longleftrightarrow> cls \<in> {Status2xx, Status3xx, Status4xx, Status5xx}"

definition UpsertSiteStats ::
    "uuid \<Rightarrow> bytes \<Rightarrow> int \<Rightarrow> int \<Rightarrow> StatusClass \<Rightarrow> timestamp \<Rightarrow> DB \<Rightarrow> error option \<times> DB" where
  "UpsertSiteStats jobID site deltaVisits deltaBytes statusClass at db =
     (if \<not> known_class statusClass
      then (Some (ErrorString (''unknown status class: '' @ statusClass)), db)
      else
        (case pool_exec (sql_update_stats jobID site deltaVisits deltaBytes statusClass at) db of
           (Inl e, db1) \<Rightarrow> (Some (Wrapped ''failed to update site stats'' e), db1)
         | (Inr n, db1) \<Rightarrow>
             if n = 0 then
               (let row = add_class statusClass deltaVisits
                      \<lparr>st_JobID = jobID, st_Site = site, st_LastUpdate = at, st_Visits = deltaVisits,
                       st_BytesTotal = deltaBytes, st_Fetch2xx = 0, st_Fetch3xx = 0, st_Fetch4xx = 0,
                       st_Fetch5xx = 0\<rparr>
                in case pool_exec (sql_insert_stats row) db1 of
                     (Inl e, db2) \<Rightarrow> (Some (Wrapped ''failed to insert site stats'' e), db2)
                   | (Inr _, db2) \<Rightarrow> (None, db2))
             else (None, db1)))"

subsection \<open>Queries\<close>

text \<open>A query without ORDER BY reads the rows in table order; ORDER BY is a stable sort of it.\<close>

definition repo_get_job :: "uuid \<Rightarrow> DB \<Rightarrow> JobRun result \<times> DB" where
  "repo_get_job jobID db =
     (case pool_exec (\<lambda>d. (find (\<lambda>r. run_ID r = jobID) (job_runs d), d)) db of
        (Inl e, db') \<Rightarrow> (Inl (Wrapped ''failed to get job'' e), db')
      | (Inr None, db') \<Rightarrow> (Inl ErrNotFound, db')
      | (Inr (Some run), db') \<Rightarrow> (Inr run, db'))"

definition limit_offset :: "int \<Rightarrow> int \<Rightarrow> 'a list \<Rightarrow> 'a list" where
  "limit_offset limit offset rows = take (nat limit) (drop (nat offset) rows)"

definition repo_list_jobs ::
    "JobRunStatus option \<Rightarrow> int \<Rightarrow> int \<Rightarrow> DB \<Rightarrow> JobRun list result \<times> DB" where
  "repo_list_jobs status limit offset db =
     (case pool_exec (\<lambda>d. (limit_offset limit offset
              (sort_key (\<lambda>r. - run_StartedAt r)
                (filter (\<lambda>r. status = None \<or> status = Some (run_Status r)) (job_runs d))), d)) db of
        (Inl e, db') \<Rightarrow> (Inl (Wrapped ''failed to list jobs'' e), db')
      | (Inr rows, db') \<Rightarrow> (Inr rows, db'))"

definition repo_list_job_sites :: "uuid \<Rightarrow> int \<Rightarrow> int \<Rightarrow> DB \<Rightarrow> SiteStats list result \<times> DB" where
  "repo_list_job_sites jobID limit offset db =
     (case pool_exec (\<lambda>d. (limit_offset limit offset
              (sort_key (\<lambda>r. - st_LastUpdate r)
                (filter (\<lambda>r. st_JobID r = jobID) (site_stats d))), d)) db of
        (Inl e, db') \<Rightarrow> (Inl (Wrapped ''failed to list job sites'' e), db')
      | (Inr rows, db') \<Rightarrow> (Inr rows, db'))"

definition postgres_repo :: "DB ProgressRepository" where
  "postgres_repo =
     \<lparr>repo_UpsertJobStart = UpsertJobStart, repo_CompleteJob = CompleteJob,
      repo_UpsertSiteStats = UpsertSiteStats, repo_GetJob = repo_get_job,
      repo_ListJobs = repo_list_jobs, repo_ListJobSites = repo_list_job_sites\<rparr>"

subsection \<open>Totals per job and site\<close>

definition row_sum :: "(SiteStats \<Rightarrow> int) \<Rightarrow> uuid \<Rightarrow> bytes \<Rightarrow> DB \<Rightarrow> int" where
  "row_sum f j s db = sum_list (map f (filter (same_row j s) (site_stats db)))"

text \<open>The table has at most one row per job and site, as its conflict target requires.\<close>

definition stats_unique :: "DB \<Rightarrow> bool" where
  "stats_unique db \<longleftrightarrow> distinct (map (\<lambda>r. (st_JobID r, st_Site r)) (site_stats db))"

definition runs_unique :: "DB \<Rightarrow> bool" where
  "runs_unique db \<longleftrightarrow> distinct (map (\<lambda>r. (run_ID r, run_StartedAt r)) (job_runs db))"

lemma key_add_class [simp]:
  "st_JobID (add_class c n r) = st_JobID r" "st_Site (add_class c n r) = st_Site r"
  "st_Visits (add_class c n r) = st_Visits r" "st_BytesTotal (add_class c n r) = st_BytesTotal r"
  by (simp_all add: add_class_def)

lemma bump_simps [simp]:
  "st_JobID (bump dv db c at r) = st_JobID r" "st_Site (bump dv db c at r) = st_Site r"
  "st_Visits (bump dv db c at r) = st_Visits r + dv"
  "st_BytesTotal (bump dv db c at r) = st_BytesTotal r + db"
  by (simp_all add: bump_def)

lemma same_row_bump [simp]: "same_row j s (bump dv db c at r) = same_row j s r"
  by (simp add: same_row_def)

lemma map_upd_keys:
  "map (\<lambda>r. (st_JobID r, st_Site r)) (map (\<lambda>r. if P r then bump dv db c at r else r) rs)
   = map (\<lambda>r. (st_JobID r, st_Site r)) rs"
  by simp

lemma unique_filter:
  assumes "distinct (map (\<lambda>r. (st_JobID r, st_Site r)) rs)"
  shows "filter (same_row j s) rs = [] \<or> (\<exists>r. filter (same_row j s) rs = [r])"
  using assms
proof (induction rs)
  case (Cons r rs)
  show ?case
  proof (cases "same_row j s r")
    case True
    with Cons.prems have "filter (same_row j s) rs = []"
      by (auto simp: same_row_def filter_empty_conv image_iff)
    with True show ?thesis by simp
  next
    case False
    with Cons show ?thesis by simp
  qed
qed simp

lemma filter_map_upd:
  "filter (same_row j s) (map (\<lambda>r. if same_row j' s' r then bump dv db c at r else r) rs)
   = map (\<lambda>r. if same_row j' s' r then bump dv db c at r else r) (filter (same_row j s) rs)"
  by (induction rs) auto

text \<open>One upsert of a known class on a healthy database: it succeeds, keeps the key unique, and
  moves exactly the totals of its own row.\<close>

lemma UpsertSiteStats_ok:
  assumes "db_faults db = []" "known_class cls" "stats_unique db"
  shows "\<exists>db'. UpsertSiteStats j s dv dby cls at db = (None, db') \<and> db_faults db' = []
    \<and> stats_unique db' \<and> job_runs db' = job_runs db
    \<and> (\<forall>j' s'. row_sum st_Visits j' s' db' =
         row_sum st_Visits j' s' db + (if j' = j \<and> s' = s then dv else 0))
    \<and> (\<forall>j' s'. row_sum st_BytesTotal j' s' db' =
         row_sum st_BytesTotal j' s' db + (if j' = j \<and> s' = s then dby else 0))"
proof (cases "filter (same_row j s) (site_stats db) = []")
  case True
  have none: "\<not> list_ex (same_row j s) (site_stats db)"
    using True by (simp add: list_ex_iff filter_empty_conv)
  have id: "map (\<lambda>r. if same_row j s r then bump dv dby cls at r else r) (site_stats db) = site_stats db"
    using True by (auto simp: filter_empty_conv intro: map_idI)
  let ?row = "add_class cls dv \<lparr>st_JobID = j, st_Site = s, st_LastUpdate = at, st_Visits = dv,
     st_BytesTotal = dby, st_Fetch2xx = 0, st_Fetch3xx = 0, st_Fetch4xx = 0, st_Fetch5xx = 0\<rparr>"
  have eq: "UpsertSiteStats j s dv dby cls at db =
      (None, db\<lparr>site_stats := site_stats db @ [?row]\<rparr>)"
    using assms True none
    by (simp add: UpsertSiteStats_def pool_exec_def sql_update_stats_def sql_insert_stats_def id Let_def)
  moreover have "stats_unique (db\<lparr>site_stats := site_stats db @ [?row]\<rparr>)"
    using assms(3) True by (force simp: stats_unique_def filter_empty_conv same_row_def)
  ultimately show ?thesis
    using assms(1) by (auto simp: row_sum_def same_row_def)
next
  case False
  then obtain r where r: "filter (same_row j s) (site_stats db) = [r]"
    using unique_filter[of "site_stats db" j s] assms(3) by (auto simp: stats_unique_def)
  let ?db' = "db\<lparr>site_stats := map (\<lambda>r. if same_row j s r then bump dv dby cls at r else r) (site_stats db)\<rparr>"
  have "same_row j s r"
    using r by (auto simp: filter_eq_Cons_iff)
  have other: "map (\<lambda>r. if same_row j s r then bump dv dby cls at r else r) (filter (same_row j' s') (site_stats db))
      = filter (same_row j' s') (site_stats db)" if "\<not> (j' = j \<and> s' = s)" for j' s'
    using that by (intro map_idI) (auto simp: same_row_def)
  have eq: "UpsertSiteStats j s dv dby cls at db = (None, ?db')"
    using assms r by (simp add: UpsertSiteStats_def pool_exec_def sql_update_stats_def)
  have sums: "row_sum st_Visits j' s' ?db' = row_sum st_Visits j' s' db + (if j' = j \<and> s' = s then dv else 0)
      \<and> row_sum st_BytesTotal j' s' ?db' = row_sum st_BytesTotal j' s' db + (if j' = j \<and> s' = s then dby else 0)"
    for j' s'
    using r \<open>same_row j s r\<close> other[of j' s']
    by (cases "j' = j \<and> s' = s") (auto simp: row_sum_def filter_map_upd)
  moreover have "stats_unique ?db'"
    using assms(3) by (simp add: stats_unique_def comp_def if_distrib cong: if_cong)
  ultimately show ?thesis using eq assms(1) by auto
qed

lemma UpsertSiteStats_unknown:
  "\<not> known_class cls \<Longrightarrow> UpsertSiteStats j s dv dby cls at db =
     (Some (ErrorString (''unknown status class: '' @ cls)), db)"
  by (simp add: UpsertSiteStats_def)

lemma repo_list_jobs_fault:
  assumes "repo_list_jobs status limit offset db = (Inl e, db')"
  shows "db_faults db \<noteq> [] \<and> job_runs db' = job_runs db \<and> site_stats db' = site_stats db"
  using assms by (auto simp: repo_list_jobs_def pool_exec_def split: list.splits option.splits prod.splits sum.splits)

lemma repo_list_jobs_rows:
  assumes "repo_list_jobs status limit offset db = (Inr rows, db')"
  shows "rows = limit_offset limit offset (sort_key (\<lambda>r. - run_StartedAt r)
      (filter (\<lambda>r. status = None \<or> status = Some (run_Status r)) (job_runs db)))
    \<and> job_runs db' = job_runs db \<and> site_stats db' = site_stats db"
  using assms by (auto simp: repo_list_jobs_def pool_exec_def split: list.splits option.splits prod.splits sum.splits)

end
