(* ===== verification/Sinks.thy ===== *)
theory Sinks
  imports Hub ProgressRepo "HOL-Library.AList" "HOL-Library.Multiset"
begin

text \<open>
  The progress sinks (internal/progress/sinks): the store sink, which folds a batch into per-key
  deltas and forwards them to the repository, the Prometheus sink with its job tracker, and the log
  sink. Go iterates over a map in an unspecified order; the parameter \<open>ord\<close> of the store sink is that
  order.

  The locale \<open>stats_repository\<close> is what the store sink relies on for the site statistics: an upsert
  of a known class adds its deltas to its own row. The Postgres repository without faults interprets
  it.
\<close>

subsection \<open>Store sink\<close>

type_synonym statsKey = "uuid \<times> bytes \<times> StatusClass"

record statsDelta =
  sd_visits :: int
  sd_bytes :: int
  sd_at :: timestamp

definition handleJobEvent :: "'r ProgressRepository \<Rightarrow> uuid \<Rightarrow> Event \<Rightarrow> 'r \<Rightarrow> error option \<times> 'r" where
  "handleJobEvent repo jobID evt r =
     (if evt_Stage evt = StageJobStart then
        (case repo_UpsertJobStart repo jobID (evt_TS evt) r of
           (Some e, r') \<Rightarrow> (Some (Wrapped ''upsert job start'' e), r')
         | (None, r') \<Rightarrow> (None, r'))
      else if evt_Stage evt = StageJobDone then
        (case repo_CompleteJob repo jobID (evt_TS evt) RunSuccess None r of
           (Some e, r') \<Rightarrow> (Some (Wrapped ''complete job'' e), r')
         | (None, r') \<Rightarrow> (None, r'))
      else if evt_Stage evt = StageJobError then
        (let note = (if evt_Note evt \<noteq> '''' then Some (evt_Note evt) else None) in
         case repo_CompleteJob repo jobID (evt_TS evt) RunError note r of
           (Some e, r') \<Rightarrow> (Some (Wrapped ''complete job'' e), r')
         | (None, r') \<Rightarrow> (None, r'))
      else (None, r))"

definition recordSiteStats ::
    "(statsKey \<times> statsDelta) list \<Rightarrow> uuid \<Rightarrow> Event \<Rightarrow> (statsKey \<times> statsDelta) list" where
  "recordSiteStats stats jobID evt =
     (if evt_Site evt = '''' then stats
      else
        let key = (jobID, evt_Site evt, evt_StatusClass evt);
            stat = (case map_of stats key of
                      None \<Rightarrow> \<lparr>sd_visits = 0, sd_bytes = 0, sd_at = 0\<rparr>
                    | Some d \<Rightarrow> d)
        in AList.update key
             \<lparr>sd_visits = i64 (sd_visits stat + evt_Visits evt),
              sd_bytes = i64 (sd_bytes stat + evt_Bytes evt),
              sd_at = (if sd_at stat < evt_TS evt \<or> time_IsZero (sd_at stat)
                       then evt_TS evt else sd_at stat)\<rparr> stats)"

fun consume_events ::
    "'r ProgressRepository \<Rightarrow> Event list \<Rightarrow> (statsKey \<times> statsDelta) list \<Rightarrow> 'r \<Rightarrow>
     error option \<times> (statsKey \<times> statsDelta) list \<times> 'r" where
  "consume_events repo [] stats r = (None, stats, r)"
| "consume_events repo (evt # batch) stats r =
     (if evt_Stage evt \<in> {StageJobStart, StageJobDone, StageJobError} then
        (case handleJobEvent repo (JobUUID evt) evt r of
           (Some e, r') \<Rightarrow> (Some e, stats, r')
         | (None, r') \<Rightarrow> consume_events repo batch stats r')
      else if evt_Stage evt = StageFetchDone then
        consume_events repo batch (recordSiteStats stats (JobUUID evt) evt) r
      else consume_events repo batch stats r)"

fun upsert_deltas ::
    "'r ProgressRepository \<Rightarrow> (statsKey \<times> statsDelta) list \<Rightarrow> 'r \<Rightarrow> error option \<times> 'r" where
  "upsert_deltas repo [] r = (None, r)"
| "upsert_deltas repo (((j, s, c), d) # ds) r =
     (if sd_visits d = 0 \<and> sd_bytes d = 0 then upsert_deltas repo ds r
      else
        (case repo_UpsertSiteStats repo j s (sd_visits d) (sd_bytes d) c (sd_at d) r of
           (Some e, r') \<Rightarrow> (Some (Wrapped ''upsert site stats'' e), r')
         | (None, r') \<Rightarrow> upsert_deltas repo ds r'))"

definition StoreSink_Consume ::
    "'r ProgressRepository option \<Rightarrow> ((statsKey \<times> statsDelta) list \<Rightarrow> (statsKey \<times> statsDelta) list) \<Rightarrow>
     Event list \<Rightarrow> 'r \<Rightarrow> error option \<times> 'r" where
  "StoreSink_Consume repo ord batch r =
     (case repo of
        None \<Rightarrow> (None, r)
      | Some rp \<Rightarrow>
          (case consume_events rp batch [] r of
             (Some e, _, r') \<Rightarrow> (Some e, r')
           | (None, stats, r') \<Rightarrow> upsert_deltas rp (ord stats) r'))"

definition StoreSink_Close :: "'r \<Rightarrow> error option \<times> 'r" where
  "StoreSink_Close r = (None, r)"

subsection \<open>Aggregation\<close>

text \<open>The totals a batch should add for a job and site, and those held in the pending deltas.\<close>

definition counted :: "uuid \<Rightarrow> bytes \<Rightarrow> Event \<Rightarrow> bool" where
  "counted j s e \<longleftrightarrow> evt_Stage e = StageFetchDone \<and> evt_JobID e = j \<and> evt_Site e = s \<and> s \<noteq> ''''"

definition batch_sum :: "(Event \<Rightarrow> int) \<Rightarrow> uuid \<Rightarrow> bytes \<Rightarrow> Event list \<Rightarrow> int" where
  "batch_sum f j s batch = sum_list (map f (filter (counted j s) batch))"

definition delta_sum ::
    "(statsDelta \<Rightarrow> int) \<Rightarrow> uuid \<Rightarrow> bytes \<Rightarrow> (statsKey \<times> statsDelta) list \<Rightarrow> int" where
  "delta_sum f j s stats =
     sum_list (map (\<lambda>(k, d). f d) (filter (\<lambda>((j', s', c), d). j' = j \<and> s' = s) stats))"

lemma delta_sum_Nil [simp]: "delta_sum f j s [] = 0"
  by (simp add: delta_sum_def)

lemma delta_sum_Cons [simp]:
  "delta_sum f j s (((j', s', c), d) # ds) = (if j' = j \<and> s' = s then f d else 0) + delta_sum f j s ds"
  by (simp add: delta_sum_def)

lemma delta_sum_update:
  "delta_sum f j s (AList.update (j', s', c) d stats) =
     delta_sum f j s stats + (if j' = j \<and> s' = s
       then f d - (case map_of stats (j', s', c) of None \<Rightarrow> 0 | Some d0 \<Rightarrow> f d0) else 0)"
proof (induction stats)
  case Nil
  then show ?case by simp
next
  case (Cons p stats)
  obtain j1 s1 c1 d1 where p: "p = ((j1, s1, c1), d1)" by (metis prod.exhaust)
  with Cons show ?case by auto
qed

lemma delta_sum_mset: "mset xs = mset ys \<Longrightarrow> delta_sum f j s xs = delta_sum f j s ys"
  unfolding delta_sum_def by (metis (no_types, lifting) mset_filter mset_map sum_mset_sum_list)

text \<open>All sums stay inside 64 bits: event deltas are not negative and their total fits.\<close>

definition small_batch :: "Event list \<Rightarrow> bool" where
  "small_batch batch \<longleftrightarrow>
     (\<forall>e \<in> set batch. 0 \<le> evt_Visits e \<and> 0 \<le> evt_Bytes e)
     \<and> sum_list (map evt_Visits batch) < 2 ^ 63 \<and> sum_list (map evt_Bytes batch) < 2 ^ 63"

definition bounded_deltas :: "int \<Rightarrow> int \<Rightarrow> (statsKey \<times> statsDelta) list \<Rightarrow> bool" where
  "bounded_deltas v b stats \<longleftrightarrow>
     (\<forall>k d. map_of stats k = Some d \<longrightarrow> 0 \<le> sd_visits d \<and> sd_visits d \<le> v \<and> 0 \<le> sd_bytes d \<and> sd_bytes d \<le> b)"

lemma record_step:
  assumes "bounded_deltas v b stats" "0 \<le> evt_Visits e" "0 \<le> evt_Bytes e"
    "0 \<le> v" "0 \<le> b" "v + evt_Visits e < 2 ^ 63" "b + evt_Bytes e < 2 ^ 63"
    "evt_Stage e = StageFetchDone"
  shows "bounded_deltas (v + evt_Visits e) (b + evt_Bytes e) (recordSiteStats stats (evt_JobID e) e)"
    and "delta_sum sd_visits j s (recordSiteStats stats (evt_JobID e) e) =
      delta_sum sd_visits j s stats + batch_sum evt_Visits j s [e]"
    and "delta_sum sd_bytes j s (recordSiteStats stats (evt_JobID e) e) =
      delta_sum sd_bytes j s stats + batch_sum evt_Bytes j s [e]"
proof -
  let ?key = "(evt_JobID e, evt_Site e, evt_StatusClass e)"
  define old where "old = (case map_of stats ?key of
      None \<Rightarrow> \<lparr>sd_visits = 0, sd_bytes = 0, sd_at = 0\<rparr> | Some d \<Rightarrow> d)"
  have old: "0 \<le> sd_visits old" "sd_visits old \<le> v" "0 \<le> sd_bytes old" "sd_bytes old \<le> b"
    using assms(1,4,5) by (auto simp: old_def bounded_deltas_def split: option.splits)
  have id: "i64 (sd_visits old + evt_Visits e) = sd_visits old + evt_Visits e"
    "i64 (sd_bytes old + evt_Bytes e) = sd_bytes old + evt_Bytes e"
    using old assms(2,3,6,7) by (auto intro!: i64_id simp: in_i64_def)
  obtain t where rec: "evt_Site e \<noteq> '''' \<Longrightarrow> recordSiteStats stats (evt_JobID e) e =
      AList.update ?key \<lparr>sd_visits = sd_visits old + evt_Visits e,
        sd_bytes = sd_bytes old + evt_Bytes e, sd_at = t\<rparr> stats"
    using id by (auto simp: recordSiteStats_def Let_def old_def)
  have skip: "evt_Site e = '''' \<Longrightarrow> recordSiteStats stats (evt_JobID e) e = stats"
    by (simp add: recordSiteStats_def)
  show "bounded_deltas (v + evt_Visits e) (b + evt_Bytes e) (recordSiteStats stats (evt_JobID e) e)"
  proof (cases "evt_Site e = ''''")
    case True
    with skip assms(1-3) show ?thesis by (force simp: bounded_deltas_def)
  next
    case False
    with rec old assms(1-3) show ?thesis by (force simp: bounded_deltas_def update_conv)
  qed
  show "delta_sum sd_visits j s (recordSiteStats stats (evt_JobID e) e) =
      delta_sum sd_visits j s stats + batch_sum evt_Visits j s [e]"
    using rec skip assms(8)
    by (cases "evt_Site e = ''''")
       (auto simp: delta_sum_update batch_sum_def counted_def old_def split: option.splits)
  show "delta_sum sd_bytes j s (recordSiteStats stats (evt_JobID e) e) =
      delta_sum sd_bytes j s stats + batch_sum evt_Bytes j s [e]"
    using rec skip assms(8)
    by (cases "evt_Site e = ''''")
       (auto simp: delta_sum_update batch_sum_def counted_def old_def split: option.splits)
qed

lemma batch_sum_Cons: "batch_sum f j s (e # es) = batch_sum f j s [e] + batch_sum f j s es"
  by (simp add: batch_sum_def)

definition fetch_classes_known :: "Event list \<Rightarrow> bool" where
  "fetch_classes_known batch \<longleftrightarrow>
     list_all (\<lambda>e. evt_Stage e = StageFetchDone \<and> evt_Site e \<noteq> '''' \<longrightarrow> known_class (evt_StatusClass e)) batch"

lemma batch_sum_other_stage [simp]:
  "evt_Stage e \<noteq> StageFetchDone \<Longrightarrow> batch_sum f j s [e] = 0"
  by (simp add: batch_sum_def counted_def)

definition known_keys :: "(statsKey \<times> statsDelta) list \<Rightarrow> bool" where
  "known_keys stats \<longleftrightarrow> list_all (\<lambda>((j, s, c), d). known_class c) stats"

lemma known_keys_simps [simp]:
  "known_keys []" "known_keys (((j, s, c), d) # ds) \<longleftrightarrow> known_class c \<and> known_keys ds"
  by (simp_all add: known_keys_def)

lemma known_keys_update: "known_keys xs \<Longrightarrow> known_class c \<Longrightarrow> known_keys (AList.update (j, s, c) d xs)"
  by (induction xs) (auto simp: known_keys_def)

lemma recordSiteStats_known:
  assumes "known_keys stats" "evt_Site e \<noteq> '''' \<Longrightarrow> known_class (evt_StatusClass e)"
  shows "known_keys (recordSiteStats stats jobID e)"
  using assms by (simp add: recordSiteStats_def Let_def known_keys_update)

text \<open>A repository the sink can rely on: on a good state the job operations succeed and leave the
  site totals alone, and an upsert of a known class succeeds and adds its deltas to its own totals.\<close>

locale stats_repository =
  fixes repo :: "'r ProgressRepository"
    and good :: "'r \<Rightarrow> bool"
    and visits :: "uuid \<Rightarrow> bytes \<Rightarrow> 'r \<Rightarrow> int"
    and volume :: "uuid \<Rightarrow> bytes \<Rightarrow> 'r \<Rightarrow> int"
  assumes start_ok: "good r \<Longrightarrow>
      \<exists>r'. repo_UpsertJobStart repo j at r = (None, r') \<and> good r'
        \<and> (\<forall>j s. visits j s r' = visits j s r \<and> volume j s r' = volume j s r)"
    and complete_ok: "good r \<Longrightarrow>
      \<exists>r'. repo_CompleteJob repo j at st msg r = (None, r') \<and> good r'
        \<and> (\<forall>j s. visits j s r' = visits j s r \<and> volume j s r' = volume j s r)"
    and upsert_ok: "good r \<Longrightarrow> known_class c \<Longrightarrow>
      \<exists>r'. repo_UpsertSiteStats repo j s dv dby c at r = (None, r') \<and> good r'
        \<and> (\<forall>j' s'. visits j' s' r' = visits j' s' r + (if j' = j \<and> s' = s then dv else 0)
             \<and> volume j' s' r' = volume j' s' r + (if j' = j \<and> s' = s then dby else 0))"
begin

lemma job_event_ok:
  assumes "good r"
  shows "\<exists>r'. handleJobEvent repo j e r = (None, r') \<and> good r'
    \<and> (\<forall>j s. visits j s r' = visits j s r \<and> volume j s r' = volume j s r)"
proof -
  obtain r1 where 1: "repo_UpsertJobStart repo j (evt_TS e) r = (None, r1)" "good r1"
    "\<forall>j s. visits j s r1 = visits j s r \<and> volume j s r1 = volume j s r"
    using start_ok[OF assms] by blast
  obtain r2 where 2: "repo_CompleteJob repo j (evt_TS e) RunSuccess None r = (None, r2)" "good r2"
    "\<forall>j s. visits j s r2 = visits j s r \<and> volume j s r2 = volume j s r"
    using complete_ok[OF assms] by blast
  obtain r3 where 3: "repo_CompleteJob repo j (evt_TS e) RunError
      (if evt_Note e \<noteq> '''' then Some (evt_Note e) else None) r = (None, r3)" "good r3"
    "\<forall>j s. visits j s r3 = visits j s r \<and> volume j s r3 = volume j s r"
    using complete_ok[OF assms] by blast
  show ?thesis
    using 1 2 3 assms by (simp add: handleJobEvent_def Let_def)
qed

lemma consume_events_ok:
  assumes "good r" "fetch_classes_known batch"
    "bounded_deltas v b stats" "0 \<le> v" "0 \<le> b" "known_keys stats"
    "\<forall>e \<in> set batch. 0 \<le> evt_Visits e \<and> 0 \<le> evt_Bytes e"
    "v + sum_list (map evt_Visits batch) < 2 ^ 63" "b + sum_list (map evt_Bytes batch) < 2 ^ 63"
  shows "\<exists>stats' r'. consume_events repo batch stats r = (None, stats', r') \<and> good r' \<and> known_keys stats'
    \<and> (\<forall>j s. visits j s r' = visits j s r \<and> volume j s r' = volume j s r)
    \<and> (\<forall>j s. delta_sum sd_visits j s stats' = delta_sum sd_visits j s stats + batch_sum evt_Visits j s batch)
    \<and> (\<forall>j s. delta_sum sd_bytes j s stats' = delta_sum sd_bytes j s stats + batch_sum evt_Bytes j s batch)"
  using assms
proof (induction batch arbitrary: v b stats r)
  case Nil
  then show ?case by (simp add: batch_sum_def)
next
  case (Cons e batch)
  have nn: "0 \<le> evt_Visits e" "0 \<le> evt_Bytes e"
    "0 \<le> sum_list (map evt_Visits batch)" "0 \<le> sum_list (map evt_Bytes batch)"
    using Cons.prems(7) by (auto intro!: sum_list_nonneg)
  have known: "fetch_classes_known batch"
    using Cons.prems(2) by (simp add: fetch_classes_known_def)
  have lt: "v + sum_list (map evt_Visits batch) < 2 ^ 63" "b + sum_list (map evt_Bytes batch) < 2 ^ 63"
    "v + evt_Visits e < 2 ^ 63" "b + evt_Bytes e < 2 ^ 63"
    using Cons.prems(8,9) nn by simp_all
  consider (job) "evt_Stage e \<in> {StageJobStart, StageJobDone, StageJobError}"
    | (fetch) "evt_Stage e = StageFetchDone"
    | (skip) "evt_Stage e \<notin> {StageJobStart, StageJobDone, StageJobError}" "evt_Stage e \<noteq> StageFetchDone"
    by blast
  then show ?case
  proof cases
    case job
    then have nf: "evt_Stage e \<noteq> StageFetchDone" by auto
    obtain r1 where r1: "handleJobEvent repo (JobUUID e) e r = (None, r1)" "good r1"
      "\<forall>j s. visits j s r1 = visits j s r \<and> volume j s r1 = volume j s r"
      using job_event_ok[OF Cons.prems(1)] by blast
    with Cons.IH[OF r1(2) known Cons.prems(3-6)] Cons.prems(7) lt job nf show ?thesis
      by (simp add: batch_sum_Cons[of _ _ _ e batch])
  next
    case skip
    with Cons.IH[OF Cons.prems(1) known Cons.prems(3-6)] Cons.prems(7) lt show ?thesis
      by (simp add: batch_sum_Cons[of _ _ _ e batch])
  next
    case fetch
    let ?st = "recordSiteStats stats (evt_JobID e) e"
    note step = record_step[OF Cons.prems(3) nn(1,2) Cons.prems(4,5) lt(3,4) fetch]
    have kn: "known_keys ?st"
      using Cons.prems(2,6) fetch by (intro recordSiteStats_known) (auto simp: fetch_classes_known_def)
    have "\<exists>stats' r'. consume_events repo batch ?st r = (None, stats', r') \<and> good r' \<and> known_keys stats'
      \<and> (\<forall>j s. visits j s r' = visits j s r \<and> volume j s r' = volume j s r)
      \<and> (\<forall>j s. delta_sum sd_visits j s stats' = delta_sum sd_visits j s ?st + batch_sum evt_Visits j s batch)
      \<and> (\<forall>j s. delta_sum sd_bytes j s stats' = delta_sum sd_bytes j s ?st + batch_sum evt_Bytes j s batch)"
      using Cons.prems(4,5,7-9) nn
      by (intro Cons.IH[OF Cons.prems(1) known step(1)] kn) (simp_all add: add.assoc)
    then show ?thesis
      using fetch step(2,3) by (simp add: JobUUID_def batch_sum_Cons[of _ _ _ e batch] add.assoc)
  qed
qed

lemma upsert_deltas_ok:
  assumes "good r" "known_keys ds"
  shows "\<exists>r'. upsert_deltas repo ds r = (None, r') \<and> good r'
    \<and> (\<forall>j s. visits j s r' = visits j s r + delta_sum sd_visits j s ds)
    \<and> (\<forall>j s. volume j s r' = volume j s r + delta_sum sd_bytes j s ds)"
  using assms
proof (induction ds arbitrary: r)
  case (Cons p ds)
  obtain j s c d where p: "p = ((j, s, c), d)" by (metis prod.exhaust)
  show ?case
  proof (cases "sd_visits d = 0 \<and> sd_bytes d = 0")
    case True
    with Cons.IH[OF Cons.prems(1)] Cons.prems(2) p show ?thesis by (auto split: if_splits)
  next
    case False
    obtain r1 where r1: "repo_UpsertSiteStats repo j s (sd_visits d) (sd_bytes d) c (sd_at d) r = (None, r1)"
      "good r1"
      "\<And>j' s'. visits j' s' r1 = visits j' s' r + (if j' = j \<and> s' = s then sd_visits d else 0)"
      "\<And>j' s'. volume j' s' r1 = volume j' s' r + (if j' = j \<and> s' = s then sd_bytes d else 0)"
      using upsert_ok[OF Cons.prems(1), of c j s "sd_visits d" "sd_bytes d" "sd_at d"] Cons.prems(2) p
      by auto
    from Cons.IH[OF r1(2)] Cons.prems(2) p obtain r2 where
      "upsert_deltas repo ds r1 = (None, r2)" "good r2"
      "\<And>j s. visits j s r2 = visits j s r1 + delta_sum sd_visits j s ds"
      "\<And>j s. volume j s r2 = volume j s r1 + delta_sum sd_bytes j s ds"
      by auto
    with r1 False p show ?thesis by auto
  qed
qed simp

theorem Consume_totals:
  assumes "good r" "small_batch batch" "fetch_classes_known batch" "\<And>xs. mset (ord xs) = mset xs"
  shows "\<exists>r'. StoreSink_Consume (Some repo) ord batch r = (None, r') \<and> good r'
    \<and> (\<forall>j s. visits j s r' = visits j s r + batch_sum evt_Visits j s batch)
    \<and> (\<forall>j s. volume j s r' = volume j s r + batch_sum evt_Bytes j s batch)"
proof -
  obtain stats r1 where 1: "consume_events repo batch [] r = (None, stats, r1)" "good r1"
    "known_keys stats"
    "\<And>j s. visits j s r1 = visits j s r" "\<And>j s. volume j s r1 = volume j s r"
    "\<And>j s. delta_sum sd_visits j s stats = batch_sum evt_Visits j s batch"
    "\<And>j s. delta_sum sd_bytes j s stats = batch_sum evt_Bytes j s batch"
    using consume_events_ok[OF assms(1,3), of 0 0 "[]"] assms(2)
    by (auto simp: small_batch_def bounded_deltas_def)
  have "known_keys (ord stats)"
    using 1(3) assms(4)[of stats] unfolding known_keys_def by (metis list_all_iff set_mset_mset)
  from upsert_deltas_ok[OF 1(2) this] 1 delta_sum_mset[OF assms(4)[of stats]] show ?thesis
    by (auto simp: StoreSink_Consume_def)
qed

end

lemma row_sum_runs [simp]: "row_sum f j s (db\<lparr>job_runs := rs\<rparr>) = row_sum f j s db"
  by (simp add: row_sum_def)

lemma stats_unique_runs [simp]: "stats_unique (db\<lparr>job_runs := rs\<rparr>) = stats_unique db"
  by (simp add: stats_unique_def)

interpretation pg: stats_repository postgres_repo "\<lambda>db. db_faults db = [] \<and> stats_unique db"
  "row_sum st_Visits" "row_sum st_BytesTotal"
proof unfold_locales
  fix r :: DB and j at st msg
  assume g: "db_faults r = [] \<and> stats_unique r"
  show "\<exists>r'. repo_UpsertJobStart postgres_repo j at r = (None, r') \<and> (db_faults r' = [] \<and> stats_unique r')
      \<and> (\<forall>j s. row_sum st_Visits j s r' = row_sum st_Visits j s r
           \<and> row_sum st_BytesTotal j s r' = row_sum st_BytesTotal j s r)"
    using g by (simp add: postgres_repo_def UpsertJobStart_def pool_exec_def sql_insert_job_run_def Let_def)
  show "\<exists>r'. repo_CompleteJob postgres_repo j at st msg r = (None, r') \<and> (db_faults r' = [] \<and> stats_unique r')
      \<and> (\<forall>j s. row_sum st_Visits j s r' = row_sum st_Visits j s r
           \<and> row_sum st_BytesTotal j s r' = row_sum st_BytesTotal j s r)"
    using g by (simp add: postgres_repo_def CompleteJob_def pool_exec_def sql_complete_job_def)
next
  fix r :: DB and c j s dv dby at
  assume g: "db_faults r = [] \<and> stats_unique r" and c: "known_class c"
  show "\<exists>r'. repo_UpsertSiteStats postgres_repo j s dv dby c at r = (None, r')
      \<and> (db_faults r' = [] \<and> stats_unique r')
      \<and> (\<forall>j' s'. row_sum st_Visits j' s' r' = row_sum st_Visits j' s' r + (if j' = j \<and> s' = s then dv else 0)
           \<and> row_sum st_BytesTotal j' s' r' = row_sum st_BytesTotal j' s' r + (if j' = j \<and> s' = s then dby else 0))"
    using UpsertSiteStats_ok[of r c j s dv dby at] g c by (auto simp: postgres_repo_def)
qed

subsection \<open>A batch with an unknown status class\<close>

definition pending :: "statsKey \<Rightarrow> (statsKey \<times> statsDelta) list \<Rightarrow> bool" where
  "pending k stats \<longleftrightarrow> (\<exists>d. map_of stats k = Some d \<and> 0 < sd_visits d)"

lemma pending_record:
  assumes "bounded_deltas v b stats" "0 \<le> evt_Visits e" "v + evt_Visits e < 2 ^ 63"
    "pending k stats"
  shows "pending k (recordSiteStats stats (evt_JobID e) e)"
proof -
  obtain d where d: "map_of stats k = Some d" "0 < sd_visits d" "sd_visits d \<le> v"
    using assms(1,4) unfolding pending_def bounded_deltas_def by blast
  then have "i64 (sd_visits d + evt_Visits e) = sd_visits d + evt_Visits e"
    using assms(2,3) by (intro i64_id) (simp add: in_i64_def)
  with d assms(2) show ?thesis
    by (auto simp: pending_def recordSiteStats_def Let_def update_conv)
qed

lemma pending_recorded:
  assumes "bounded_deltas v b stats" "0 \<le> v" "0 < evt_Visits e" "v + evt_Visits e < 2 ^ 63"
    "evt_Site e \<noteq> ''''"
  shows "pending (evt_JobID e, evt_Site e, evt_StatusClass e) (recordSiteStats stats (evt_JobID e) e)"
proof -
  let ?k = "(evt_JobID e, evt_Site e, evt_StatusClass e)"
  let ?d = "case map_of stats ?k of None \<Rightarrow> \<lparr>sd_visits = 0, sd_bytes = 0, sd_at = 0\<rparr> | Some d \<Rightarrow> d"
  have "0 \<le> sd_visits ?d" "sd_visits ?d \<le> v"
    using assms(1,2) by (auto simp: bounded_deltas_def split: option.splits)
  then have "i64 (sd_visits ?d + evt_Visits e) = sd_visits ?d + evt_Visits e" "0 < sd_visits ?d + evt_Visits e"
    using assms(3,4) by (auto intro!: i64_id simp: in_i64_def)
  with assms(5) show ?thesis
    by (simp add: pending_def recordSiteStats_def Let_def update_conv)
qed

lemma consume_events_pending:
  assumes "consume_events repo batch stats r = (None, stats', r')"
    "bounded_deltas v b stats" "0 \<le> v" "0 \<le> b"
    "\<forall>e \<in> set batch. 0 \<le> evt_Visits e \<and> 0 \<le> evt_Bytes e"
    "v + sum_list (map evt_Visits batch) < 2 ^ 63" "b + sum_list (map evt_Bytes batch) < 2 ^ 63"
    "pending k stats \<or> (\<exists>e \<in> set batch. evt_Stage e = StageFetchDone \<and> evt_Site e \<noteq> '''' \<and> 0 < evt_Visits e
        \<and> k = (evt_JobID e, evt_Site e, evt_StatusClass e))"
  shows "pending k stats'"
  using assms
proof (induction batch arbitrary: v b stats r)
  case (Cons e batch)
  have nn: "0 \<le> evt_Visits e" "0 \<le> evt_Bytes e"
    "0 \<le> sum_list (map evt_Visits batch)" "0 \<le> sum_list (map evt_Bytes batch)"
    using Cons.prems(5) by (auto intro!: sum_list_nonneg)
  have lt: "v + sum_list (map evt_Visits batch) < 2 ^ 63" "b + sum_list (map evt_Bytes batch) < 2 ^ 63"
    "v + evt_Visits e < 2 ^ 63" "b + evt_Bytes e < 2 ^ 63"
    using Cons.prems(6,7) nn by simp_all
  show ?case
  proof (cases "evt_Stage e = StageFetchDone")
    case True
    let ?st = "recordSiteStats stats (evt_JobID e) e"
    note step = record_step(1)[OF Cons.prems(2) nn(1,2) Cons.prems(3,4) lt(3,4) True]
    have run: "consume_events repo batch ?st r = (None, stats', r')"
      using Cons.prems(1) True by (simp add: JobUUID_def)
    have "pending k ?st \<or> (\<exists>e \<in> set batch. evt_Stage e = StageFetchDone \<and> evt_Site e \<noteq> '''' \<and> 0 < evt_Visits e
        \<and> k = (evt_JobID e, evt_Site e, evt_StatusClass e))"
      using Cons.prems(8) pending_record[OF Cons.prems(2) nn(1) lt(3), of k]
        pending_recorded[OF Cons.prems(2,3) _ lt(3)] by auto
    then show ?thesis
      using Cons.prems(3,4,5,6,7) nn by (intro Cons.IH[OF run step]) (simp_all add: add.assoc)
  next
    case False
    then have "\<exists>r1. consume_events repo batch stats r1 = (None, stats', r')"
      using Cons.prems(1) by (auto split: if_splits prod.splits option.splits)
    moreover have "pending k stats \<or> (\<exists>e \<in> set batch. evt_Stage e = StageFetchDone \<and> evt_Site e \<noteq> ''''
        \<and> 0 < evt_Visits e \<and> k = (evt_JobID e, evt_Site e, evt_StatusClass e))"
      using Cons.prems(8) False by auto
    ultimately show ?thesis
      using Cons.IH[OF _ Cons.prems(2-4)] Cons.prems(5) lt by auto
  qed
qed simp

lemma upsert_deltas_unknown:
  assumes "((j, s, c), d) \<in> set ds" "sd_visits d \<noteq> 0" "\<not> known_class c"
  shows "fst (upsert_deltas postgres_repo ds db) \<noteq> None"
  using assms
proof (induction ds arbitrary: db)
  case (Cons p ds)
  obtain j1 s1 c1 d1 where p: "p = ((j1, s1, c1), d1)" by (metis prod.exhaust)
  show ?case
  proof (cases "p = ((j, s, c), d)")
    case True
    with Cons.prems show ?thesis by (simp add: postgres_repo_def UpsertSiteStats_unknown)
  next
    case False
    with Cons.prems have "((j, s, c), d) \<in> set ds" by simp
    with Cons.IH Cons.prems(2,3) p show ?thesis
      by (auto split: prod.splits option.splits)
  qed
qed simp

subsection \<open>Prometheus sink\<close>

text \<open>The collectors of the Prometheus client: counters and the gauge hold the number of calls, a
  histogram and the byte counter the sequence of observed values per label.\<close>

record PrometheusSink =
  jobsStarted :: nat
  jobsCompleted :: "bytes \<Rightarrow> nat"
  jobsRunning :: int
  jobRuntime :: "(bytes \<times> duration) list"
  fetchRequests :: "bytes \<times> bytes \<Rightarrow> nat"
  fetchBytes :: "(bytes \<times> int) list"
  fetchDuration :: "((bytes \<times> bytes) \<times> duration) list"
  running :: "uuid list"

definition NewPrometheusSink :: PrometheusSink where
  "NewPrometheusSink =
     \<lparr>jobsStarted = 0, jobsCompleted = (\<lambda>_. 0), jobsRunning = 0, jobRuntime = [],
      fetchRequests = (\<lambda>_. 0), fetchBytes = [], fetchDuration = [], running = []\<rparr>"

definition tracker_start :: "uuid \<Rightarrow> PrometheusSink \<Rightarrow> bool \<times> PrometheusSink" where
  "tracker_start i p =
     (if i \<in> set (running p) then (False, p) else (True, p\<lparr>running := i # running p\<rparr>))"

definition tracker_complete :: "uuid \<Rightarrow> PrometheusSink \<Rightarrow> bool \<times> PrometheusSink" where
  "tracker_complete i p =
     (if i \<notin> set (running p) then (False, p) else (True, p\<lparr>running := remove1 i (running p)\<rparr>))"

definition observeRuntime :: "Event \<Rightarrow> bytes \<Rightarrow> PrometheusSink \<Rightarrow> PrometheusSink" where
  "observeRuntime evt label p =
     (if 0 < evt_Dur evt then p\<lparr>jobRuntime := jobRuntime p @ [(label, evt_Dur evt)]\<rparr> else p)"

definition prom_completed :: "bytes \<Rightarrow> PrometheusSink \<Rightarrow> PrometheusSink" where
  "prom_completed label p = p\<lparr>jobsCompleted := (jobsCompleted p)(label := jobsCompleted p label + 1)\<rparr>"

definition prom_handleJobEvent :: "Event \<Rightarrow> PrometheusSink \<Rightarrow> PrometheusSink" where
  "prom_handleJobEvent evt p =
     (let p1 = (if evt_Stage evt = StageJobStart then
                  (let p0 = p\<lparr>jobsStarted := jobsStarted p + 1\<rparr> in
                   case tracker_start (evt_JobID evt) p0 of
                     (True, p') \<Rightarrow> p'\<lparr>jobsRunning := jobsRunning p' + 1\<rparr>
                   | (False, p') \<Rightarrow> p')
                else if evt_Stage evt = StageJobDone then
                  observeRuntime evt ''success'' (prom_completed ''success'' p)
                else if evt_Stage evt = StageJobError then
                  observeRuntime evt ''error'' (prom_completed ''error'' p)
                else p)
      in if evt_Stage evt \<noteq> StageJobStart then
           (case tracker_complete (evt_JobID evt) p1 of
              (True, p') \<Rightarrow> p'\<lparr>jobsRunning := jobsRunning p' - 1\<rparr>
            | (False, p') \<Rightarrow> p')
         else p1)"

definition handleFetchEvent :: "Event \<Rightarrow> PrometheusSink \<Rightarrow> PrometheusSink" where
  "handleFetchEvent evt p =
     (let site = (if evt_Site evt = '''' then ''unknown'' else evt_Site evt);
          cls = (if evt_StatusClass evt = '''' then StatusOther else evt_StatusClass evt);
          p1 = p\<lparr>fetchRequests := (fetchRequests p)((site, cls) := fetchRequests p (site, cls) + 1)\<rparr>;
          p2 = (if 0 < evt_Bytes evt then p1\<lparr>fetchBytes := fetchBytes p1 @ [(site, evt_Bytes evt)]\<rparr> else p1)
      in if 0 < evt_Dur evt then p2\<lparr>fetchDuration := fetchDuration p2 @ [((site, cls), evt_Dur evt)]\<rparr>
         else p2)"

definition consumeEvent :: "Event \<Rightarrow> PrometheusSink \<Rightarrow> PrometheusSink" where
  "consumeEvent evt p =
     (if evt_Stage evt \<in> {StageJobStart, StageJobDone, StageJobError} then prom_handleJobEvent evt p
      else if evt_Stage evt = StageFetchDone then handleFetchEvent evt p
      else p)"

definition PrometheusSink_Consume :: "Event list \<Rightarrow> PrometheusSink \<Rightarrow> error option \<times> PrometheusSink" where
  "PrometheusSink_Consume batch p = (None, fold consumeEvent batch p)"

text \<open>The jobs a sequence of events leaves running: a start adds its job, an end removes it.\<close>

fun running_after :: "Event list \<Rightarrow> uuid set \<Rightarrow> uuid set" where
  "running_after [] R = R"
| "running_after (e # es) R =
     running_after es
       (if evt_Stage e = StageJobStart then insert (evt_JobID e) R
        else if evt_Stage e \<in> {StageJobDone, StageJobError} then R - {evt_JobID e}
        else R)"

definition prom_inv :: "PrometheusSink \<Rightarrow> bool" where
  "prom_inv p \<longleftrightarrow> distinct (running p) \<and> jobsRunning p = int (length (running p))"

lemma prom_observe_simps [simp]:
  "running (observeRuntime e l p) = running p" "jobsRunning (observeRuntime e l p) = jobsRunning p"
  "running (prom_completed l p) = running p" "jobsRunning (prom_completed l p) = jobsRunning p"
  "jobsStarted (observeRuntime e l p) = jobsStarted p" "jobsStarted (prom_completed l p) = jobsStarted p"
  "jobsCompleted (observeRuntime e l p) = jobsCompleted p"
  by (simp_all add: observeRuntime_def prom_completed_def)

lemma prom_job_start:
  assumes "evt_Stage e = StageJobStart" "prom_inv p"
  shows "prom_inv (prom_handleJobEvent e p)
    \<and> set (running (prom_handleJobEvent e p)) = insert (evt_JobID e) (set (running p))"
  using assms by (auto simp: prom_inv_def prom_handleJobEvent_def tracker_start_def Let_def)

lemma tracker_complete_running:
  assumes "prom_inv p"
  shows "let p' = (case tracker_complete i p of (True, q) \<Rightarrow> q\<lparr>jobsRunning := jobsRunning q - 1\<rparr> | (False, q) \<Rightarrow> q)
    in prom_inv p' \<and> set (running p') = set (running p) - {i}"
proof (cases "i \<in> set (running p)")
  case True
  then have "0 < length (running p)" by (cases "running p") auto
  with True assms show ?thesis
    by (simp add: prom_inv_def tracker_complete_def length_remove1 of_nat_diff set_remove1_eq Suc_le_eq)
next
  case False
  with assms show ?thesis by (simp add: tracker_complete_def)
qed

lemma prom_job_end:
  assumes "evt_Stage e \<in> {StageJobDone, StageJobError}" "prom_inv p"
  shows "prom_inv (prom_handleJobEvent e p)
    \<and> set (running (prom_handleJobEvent e p)) = set (running p) - {evt_JobID e}"
proof -
  have "prom_inv (observeRuntime e l (prom_completed l p))" for l
    using assms(2) by (simp add: prom_inv_def)
  from tracker_complete_running[OF this, of "evt_JobID e"] assms(1) show ?thesis
    by (auto simp: prom_handleJobEvent_def Let_def)
qed

lemma prom_fetch:
  "prom_inv p \<Longrightarrow> prom_inv (handleFetchEvent e p) \<and> running (handleFetchEvent e p) = running p"
  by (simp add: prom_inv_def handleFetchEvent_def Let_def)

lemma consumeEvent_running:
  assumes "prom_inv p"
  shows "prom_inv (consumeEvent e p)" "set (running (consumeEvent e p)) = running_after [e] (set (running p))"
proof -
  have "prom_inv (consumeEvent e p) \<and> set (running (consumeEvent e p)) = running_after [e] (set (running p))"
    using prom_job_start[OF _ assms, of e] prom_job_end[OF _ assms, of e] prom_fetch[OF assms, of e] assms
    by (auto simp: consumeEvent_def)
  then show "prom_inv (consumeEvent e p)" "set (running (consumeEvent e p)) = running_after [e] (set (running p))"
    by simp_all
qed

lemma fold_consumeEvent_running:
  "prom_inv p \<Longrightarrow> prom_inv (fold consumeEvent batch p)
     \<and> set (running (fold consumeEvent batch p)) = running_after batch (set (running p))"
proof (induction batch arbitrary: p)
  case (Cons e batch)
  with consumeEvent_running[of p e] show ?case by simp
qed simp

subsection \<open>Log sink\<close>

text \<open>The sink writes one structured record per event; the log is the list of the written fields.\<close>

type_synonym log_fields =
  "uuid \<times> Stage \<times> bytes \<times> bytes \<times> int \<times> int \<times> StatusClass \<times> duration \<times> bytes"

definition log_event :: "Event \<Rightarrow> log_fields" where
  "log_event evt =
     (evt_JobID evt, evt_Stage evt, evt_Site evt, evt_URL evt, evt_Bytes evt, evt_Visits evt,
      evt_StatusClass evt, evt_Dur evt, evt_Note evt)"

definition LogSink_Consume :: "Event list \<Rightarrow> log_fields list \<Rightarrow> error option \<times> log_fields list" where
  "LogSink_Consume batch l = (None, l @ map log_event batch)"

end
