(* ===== verification/JobRuns.thy ===== *)
theory JobRuns
  imports WorkerSpecs Sinks
begin

text \<open>
  What the progress repository knows of a job that a worker has processed: the path of an event from
  \<^verbatim>\<open>Worker.emitEvent\<close> through the batches of the hub and the store sink to the table of job runs.

  The abstract view of a job is a phase (nothing known, started, ended with a status), and a stream of
  events moves it. The locale \<open>run_repository\<close> is what the sink relies on for job runs; in it the store
  sink is shown to follow the phases, however the stream is cut into batches, whatever other jobs are
  in it and whether or not site statistics are refused. The Postgres repository interprets it.
\<close>

subsection \<open>Phases of a job\<close>

datatype phase = NotSeen | Started | Ended JobRunStatus timestamp

definition phase_step :: "uuid \<Rightarrow> Event \<Rightarrow> phase \<Rightarrow> phase" where
  "phase_step i e ph =
     (if evt_JobID e \<noteq> i then ph
      else if evt_Stage e = StageJobStart then Started
      else if evt_Stage e = StageJobDone then (if ph = NotSeen then NotSeen else Ended RunSuccess (evt_TS e))
      else if evt_Stage e = StageJobError then (if ph = NotSeen then NotSeen else Ended RunError (evt_TS e))
      else ph)"

text \<open>What a phase says of the rows of the job.\<close>

fun phase_rows :: "phase \<Rightarrow> JobRun list \<Rightarrow> bool" where
  "phase_rows NotSeen rows = True"
| "phase_rows Started rows = (rows \<noteq> [])"
| "phase_rows (Ended st t) rows =
     (rows \<noteq> [] \<and> list_all (\<lambda>r. run_Status r = st \<and> run_FinishedAt r = Some t) rows)"

lemma phase_other: "evt_JobID e \<noteq> i \<Longrightarrow> phase_step i e ph = ph"
  by (simp add: phase_step_def)

lemma fold_phase_filter: "fold (phase_step i) es ph = fold (phase_step i) (filter (\<lambda>e. evt_JobID e = i) es) ph"
  by (induction es arbitrary: ph) (simp_all add: phase_other)

lemma fold_phase_fetches:
  "list_all (\<lambda>e. evt_Stage e = StageFetchDone) es \<Longrightarrow> fold (phase_step i) es ph = ph"
  by (induction es) (simp_all add: phase_step_def)

lemma map_eq_snoc:
  assumes "map f xs = ys @ [y]"
  obtains mid x where "xs = mid @ [x]" "map f mid = ys" "f x = y"
  using assms by (cases xs rule: rev_cases) auto

text \<open>The events of one job, from its start over its pages to its end, end the phase.\<close>

lemma job_events_phase:
  assumes "map evt_Stage es = StageJobStart # replicate n StageFetchDone @ [st]" "st \<in> {StageJobDone, StageJobError}"
    and "\<forall>e \<in> set es. evt_JobID e = i"
  shows "fold (phase_step i) es ph = Ended (if st = StageJobDone then RunSuccess else RunError) (evt_TS (last es))"
proof -
  from assms(1) obtain e0 es1 where 0: "es = e0 # es1" "evt_Stage e0 = StageJobStart"
    "map evt_Stage es1 = replicate n StageFetchDone @ [st]" by blast
  from 0(3) obtain mid e1 where 1: "es1 = mid @ [e1]" "map evt_Stage mid = replicate n StageFetchDone" "evt_Stage e1 = st"
    by (rule map_eq_snoc)
  have "set (map evt_Stage mid) \<subseteq> {StageFetchDone}" unfolding 1(2) set_replicate_conv_if by (simp del: insert_iff)
  then have mid: "list_all (\<lambda>e. evt_Stage e = StageFetchDone) mid" by (auto simp: list_all_iff)
  have ids: "evt_JobID e0 = i" "evt_JobID e1 = i" using assms(3) 0(1) 1(1) by simp_all
  have start: "phase_step i e0 ph = Started" using ids 0(2) by (simp add: phase_step_def)
  have "phase_step i e1 Started = Ended (if st = StageJobDone then RunSuccess else RunError) (evt_TS e1)"
    using ids 1(3) assms(2) by (auto simp: phase_step_def)
  moreover have "fold (phase_step i) es ph = phase_step i e1 (fold (phase_step i) mid (phase_step i e0 ph))"
    by (simp add: 0(1) 1(1))
  moreover have "last es = e1" by (simp add: 0(1) 1(1))
  ultimately show ?thesis unfolding start fold_phase_fetches[OF mid] by simp
qed

subsection \<open>Repositories of job runs\<close>

definition finished :: "timestamp \<Rightarrow> JobRunStatus \<Rightarrow> bytes option \<Rightarrow> JobRun \<Rightarrow> JobRun" where
  "finished t st msg r = r\<lparr>run_FinishedAt := Some t, run_Status := st, run_ErrorMessage := msg\<rparr>"

lemma phase_rows_finished: "rows \<noteq> [] \<Longrightarrow> phase_rows (Ended st t) (map (finished t st msg) rows)"
  by (simp add: finished_def list_all_iff)

locale run_repository =
  fixes repo :: "'r ProgressRepository"
    and good :: "'r \<Rightarrow> bool"
    and runs :: "uuid \<Rightarrow> 'r \<Rightarrow> JobRun list"
  assumes run_start: "good r \<Longrightarrow> \<exists>r'. repo_UpsertJobStart repo j t r = (None, r') \<and> good r' \<and> runs j r' \<noteq> []
        \<and> (\<forall>i. i \<noteq> j \<longrightarrow> runs i r' = runs i r)"
    and run_complete: "good r \<Longrightarrow> \<exists>r'. repo_CompleteJob repo j t st msg r = (None, r') \<and> good r'
        \<and> runs j r' = map (finished t st msg) (runs j r) \<and> (\<forall>i. i \<noteq> j \<longrightarrow> runs i r' = runs i r)"
    and run_stats: "good r \<Longrightarrow> repo_UpsertSiteStats repo j s dv dby c t r = (e, r') \<Longrightarrow> good r' \<and> (\<forall>i. runs i r' = runs i r)"
    and run_get: "good r \<Longrightarrow> runs i r \<noteq> [] \<Longrightarrow> \<exists>run \<in> set (runs i r). repo_GetJob repo i r = (Inr run, r)"
begin

lemma complete_phase:
  assumes "good r" "phase_rows ph (runs i r)" "phase_step i e ph = (if evt_JobID e \<noteq> i \<or> ph = NotSeen then ph else Ended st (evt_TS e))"
  shows "\<exists>r'. repo_CompleteJob repo (evt_JobID e) (evt_TS e) st msg r = (None, r') \<and> good r' \<and> phase_rows (phase_step i e ph) (runs i r')"
proof -
  obtain r' where c: "repo_CompleteJob repo (evt_JobID e) (evt_TS e) st msg r = (None, r')" "good r'"
    "runs (evt_JobID e) r' = map (finished (evt_TS e) st msg) (runs (evt_JobID e) r)"
    "\<forall>i. i \<noteq> evt_JobID e \<longrightarrow> runs i r' = runs i r"
    using run_complete[OF assms(1)] by blast
  have "phase_rows (phase_step i e ph) (runs i r')"
  proof (cases "evt_JobID e \<noteq> i \<or> ph = NotSeen")
    case True
    then show ?thesis using assms(2,3) c(4) by auto
  next
    case False
    then have "runs i r \<noteq> []" using assms(2) by (cases ph) auto
    with phase_rows_finished False assms(3) c(3) show ?thesis by simp
  qed
  with c(1,2) show ?thesis by blast
qed

lemma job_event_phase:
  assumes "good r" "phase_rows ph (runs i r)" "evt_Stage e \<in> {StageJobStart, StageJobDone, StageJobError}"
  shows "\<exists>r'. handleJobEvent repo (JobUUID e) e r = (None, r') \<and> good r' \<and> phase_rows (phase_step i e ph) (runs i r')"
proof -
  consider "evt_Stage e = StageJobStart" | "evt_Stage e = StageJobDone" | "evt_Stage e = StageJobError" using assms(3) by blast
  then show ?thesis
  proof cases
    case 1
    obtain r' where s: "repo_UpsertJobStart repo (evt_JobID e) (evt_TS e) r = (None, r')" "good r'" "runs (evt_JobID e) r' \<noteq> []"
      "\<forall>i. i \<noteq> evt_JobID e \<longrightarrow> runs i r' = runs i r"
      using run_start[OF assms(1)] by blast
    have "phase_rows (phase_step i e ph) (runs i r')"
      using s(3,4) assms(2) 1 by (cases "evt_JobID e = i") (auto simp: phase_step_def)
    with s(1,2) 1 show ?thesis by (simp add: handleJobEvent_def JobUUID_def)
  next
    case 2
    have "phase_step i e ph = (if evt_JobID e \<noteq> i \<or> ph = NotSeen then ph else Ended RunSuccess (evt_TS e))"
      using 2 by (simp add: phase_step_def)
    from complete_phase[OF assms(1,2) this, of None] 2 show ?thesis by (auto simp: handleJobEvent_def JobUUID_def)
  next
    case 3
    let ?m = "if evt_Note e \<noteq> '''' then Some (evt_Note e) else None"
    have "phase_step i e ph = (if evt_JobID e \<noteq> i \<or> ph = NotSeen then ph else Ended RunError (evt_TS e))"
      using 3 by (simp add: phase_step_def)
    from complete_phase[OF assms(1,2) this, of ?m] obtain r' where
      "repo_CompleteJob repo (evt_JobID e) (evt_TS e) RunError ?m r = (None, r')" "good r'" "phase_rows (phase_step i e ph) (runs i r')"
      by blast
    with 3 show ?thesis by (simp add: handleJobEvent_def JobUUID_def Let_def)
  qed
qed

lemma phase_no_job_event: "evt_Stage e \<notin> {StageJobStart, StageJobDone, StageJobError} \<Longrightarrow> phase_step i e ph = ph"
  by (simp add: phase_step_def)

lemma consume_events_phase:
  "good r \<Longrightarrow> phase_rows ph (runs i r) \<Longrightarrow>
     \<exists>stats' r'. consume_events repo batch stats r = (None, stats', r') \<and> good r'
       \<and> phase_rows (fold (phase_step i) batch ph) (runs i r')"
proof (induction batch arbitrary: stats r ph)
  case (Cons e batch)
  show ?case
  proof (cases "evt_Stage e \<in> {StageJobStart, StageJobDone, StageJobError}")
    case True
    from job_event_phase[OF Cons.prems True] obtain r1 where
      "handleJobEvent repo (JobUUID e) e r = (None, r1)" "good r1" "phase_rows (phase_step i e ph) (runs i r1)" by blast
    with Cons.IH[of r1 "phase_step i e ph" stats] True show ?thesis by simp
  next
    case False
    with Cons.IH[OF Cons.prems] phase_no_job_event[OF False] show ?thesis by simp
  qed
qed simp

lemma upsert_deltas_phase:
  "good r \<Longrightarrow> good (snd (upsert_deltas repo ds r)) \<and> (\<forall>i. runs i (snd (upsert_deltas repo ds r)) = runs i r)"
proof (induction ds arbitrary: r)
  case (Cons x ds)
  obtain j s c d where x: "x = ((j, s, c), d)" by (metis prod.exhaust)
  show ?case
  proof (cases "sd_visits d = 0 \<and> sd_bytes d = 0")
    case True
    with Cons x show ?thesis by simp
  next
    case False
    obtain e r1 where u: "repo_UpsertSiteStats repo j s (sd_visits d) (sd_bytes d) c (sd_at d) r = (e, r1)" by fastforce
    from run_stats[OF Cons.prems u] have "good r1" "\<forall>i. runs i r1 = runs i r" by simp_all
    with Cons.IH[of r1] u x False show ?thesis by (cases e) auto
  qed
qed simp

lemma sink_phase:
  assumes "good r" "phase_rows ph (runs i r)"
  shows "good (snd (StoreSink_Consume (Some repo) ord batch r))
    \<and> phase_rows (fold (phase_step i) batch ph) (runs i (snd (StoreSink_Consume (Some repo) ord batch r)))"
proof -
  obtain stats' r' where "consume_events repo batch [] r = (None, stats', r')" "good r'"
    "phase_rows (fold (phase_step i) batch ph) (runs i r')"
    using consume_events_phase[OF assms] by blast
  with upsert_deltas_phase[of r' "ord stats'"] show ?thesis by (simp add: StoreSink_Consume_def)
qed

lemma batches_phase:
  "good r \<Longrightarrow> phase_rows ph (runs i r) \<Longrightarrow>
     good (fold (\<lambda>b r. snd (StoreSink_Consume (Some repo) ord b r)) batches r)
     \<and> phase_rows (fold (phase_step i) (concat batches) ph) (runs i (fold (\<lambda>b r. snd (StoreSink_Consume (Some repo) ord b r)) batches r))"
proof (induction batches arbitrary: r ph)
  case (Cons b batches)
  from sink_phase[OF Cons.prems, of ord b] have "good (snd (StoreSink_Consume (Some repo) ord b r))"
    "phase_rows (fold (phase_step i) b ph) (runs i (snd (StoreSink_Consume (Some repo) ord b r)))" by blast+
  from Cons.IH[OF this] show ?case by simp
qed simp

lemma ended_run_found:
  assumes "good r" "phase_rows (Ended st t) (runs i r)"
  shows "\<exists>run \<in> set (runs i r). repo_GetJob repo i r = (Inr run, r) \<and> run_Status run = st \<and> run_FinishedAt run = Some t"
proof -
  have ne: "runs i r \<noteq> []" using assms(2) by simp
  from run_get[OF assms(1) ne] assms(2) show ?thesis by (auto simp: list_all_iff)
qed

end

subsection \<open>The Postgres repository\<close>

definition job_rows :: "uuid \<Rightarrow> DB \<Rightarrow> JobRun list" where
  "job_rows i db = filter (\<lambda>r. run_ID r = i) (job_runs db)"

lemma filter_map_key:
  assumes "\<And>r. run_ID (f r) = run_ID r"
  shows "filter (\<lambda>r. run_ID r = i) (map f rows) = map f (filter (\<lambda>r. run_ID r = i) rows)"
  by (induction rows) (simp_all add: assms)

lemma insert_job_rows:
  assumes "sql_insert_job_run j j t st db = (n, db')"
  shows "job_rows j db' \<noteq> []" "i \<noteq> j \<Longrightarrow> job_rows i db' = job_rows i db" "db_faults db' = db_faults db"
proof -
  let ?clash = "\<lambda>r. run_ID r = j \<and> run_StartedAt r = t"
  let ?f = "\<lambda>r. if ?clash r \<and> run_Status r \<noteq> st then r\<lparr>run_Status := st\<rparr> else r"
  have "job_rows j db' \<noteq> [] \<and> (i \<noteq> j \<longrightarrow> job_rows i db' = job_rows i db) \<and> db_faults db' = db_faults db"
  proof (cases "list_ex ?clash (job_runs db)")
    case True
    then have d: "job_runs db' = map ?f (job_runs db)" "db_faults db' = db_faults db"
      using assms by (auto simp: sql_insert_job_run_def)
    have rows: "job_rows k db' = map ?f (job_rows k db)" for k
      unfolding job_rows_def d(1) by (rule filter_map_key) simp
    have "job_rows j db \<noteq> []" using True by (auto simp: job_rows_def list_ex_iff filter_empty_conv)
    moreover have "map ?f (job_rows i db) = job_rows i db" if "i \<noteq> j"
      using that by (intro map_idI) (auto simp: job_rows_def)
    ultimately show ?thesis using rows d by simp
  next
    case False
    then show ?thesis using assms by (auto simp: sql_insert_job_run_def job_rows_def)
  qed
  then show "job_rows j db' \<noteq> []" "i \<noteq> j \<Longrightarrow> job_rows i db' = job_rows i db" "db_faults db' = db_faults db" by blast+
qed

lemma complete_job_rows:
  assumes "sql_complete_job t st msg j db = (n, db')"
  shows "job_rows j db' = map (finished t st msg) (job_rows j db)" "i \<noteq> j \<Longrightarrow> job_rows i db' = job_rows i db"
    "db_faults db' = db_faults db"
proof -
  let ?f = "\<lambda>r. if run_ID r = j then finished t st msg r else r"
  have d: "job_runs db' = map ?f (job_runs db)" "db_faults db' = db_faults db"
    using assms by (auto simp: sql_complete_job_def finished_def[abs_def])
  have rows: "job_rows k db' = map ?f (job_rows k db)" for k
    unfolding job_rows_def d(1) by (rule filter_map_key) (simp add: finished_def)
  show "job_rows j db' = map (finished t st msg) (job_rows j db)" unfolding rows by (simp add: job_rows_def)
  show "i \<noteq> j \<Longrightarrow> job_rows i db' = job_rows i db" unfolding rows by (intro map_idI) (auto simp: job_rows_def)
  show "db_faults db' = db_faults db" by (simp add: d)
qed

lemma stats_job_rows:
  assumes "db_faults db = []" "UpsertSiteStats j s dv dby c t db = (e, db')"
  shows "job_runs db' = job_runs db \<and> db_faults db' = []"
  using assms
  by (auto simp: UpsertSiteStats_def pool_exec_def sql_update_stats_def sql_insert_stats_def Let_def split: if_splits)

interpretation pg_runs: run_repository postgres_repo "\<lambda>db. db_faults db = []" job_rows
proof (unfold_locales, goal_cases)
  case (1 db j t)
  obtain n db' where "sql_insert_job_run j j t RunRunning db = (n, db')" by fastforce
  from insert_job_rows[OF this] this 1 show ?case by (simp add: postgres_repo_def UpsertJobStart_def pool_exec_def)
next
  case (2 db j t st msg)
  obtain n db' where "sql_complete_job t st msg j db = (n, db')" by fastforce
  from complete_job_rows[OF this] this 2 show ?case by (simp add: postgres_repo_def CompleteJob_def pool_exec_def)
next
  case (3 db j s dv dby c t e db')
  then show ?case using stats_job_rows[of db j s dv dby c t e db'] by (simp add: postgres_repo_def job_rows_def)
next
  case (4 db i)
  then obtain run where f: "find (\<lambda>r. run_ID r = i) (job_runs db) = Some run"
    by (cases "find (\<lambda>r. run_ID r = i) (job_runs db)") (auto simp: job_rows_def find_None_iff filter_empty_conv)
  then have "run \<in> set (job_rows i db)" by (auto simp: find_Some_iff job_rows_def)
  with f 4 show ?case by (auto simp: postgres_repo_def repo_get_job_def pool_exec_def intro!: bexI[of _ run])
qed

text \<open>A sequence of batches, as the hub hands them to the sink one after the other; a failed batch is
  dropped and the next one is consumed all the same.\<close>

definition sink_batches :: "((statsKey \<times> statsDelta) list \<Rightarrow> (statsKey \<times> statsDelta) list) \<Rightarrow> Event list list \<Rightarrow> DB \<Rightarrow> DB" where
  "sink_batches ord batches db = fold (\<lambda>b db. snd (StoreSink_Consume (Some postgres_repo) ord b db)) batches db"

subsection \<open>The run of a job\<close>

text \<open>The events of a job that was brought to its final status.\<close>

lemma job_post_events:
  assumes "job_post W ctx item t" "parseJobUUID W (item_JobID item) = (i, True)" "Emit W \<noteq> None" "i \<noteq> uuid_Nil"
    and "picked status_call t = [x, (j, st, e, c, y)]"
  shows "isTerminal st \<and> ok_events i t \<and> (\<exists>n. stages t = StageJobStart # replicate n StageFetchDone @ [stageFromStatus st])"
proof -
  from assms(1,2) obtain jobCtx m where m: "t = CallIncActive # m @ [CallDecActive]"
    "body_post W jobCtx (item_JobID item) i True (length (URLs (item_Params item))) m"
    by (auto simp: job_post_def)
  have em: "emits W i True" using assms(3,4) by (simp add: emits_def)
  have "picked status_call m = [x, (j, st, e, c, y)]" using assms(5) m(1) by simp
  with m(2) em show ?thesis
    unfolding m(1) body_post_def by (auto split: if_splits simp: finalStatus_def)
qed

lemma job_events_own:
  assumes "job_post W ctx item t" "parseJobUUID W (item_JobID item) = (i, True)" "Emit W \<noteq> None" "i \<noteq> uuid_Nil" "length i = 16"
    and "picked status_call t = [x, (j, st, e, c, y)]"
  shows "filter (\<lambda>e. evt_JobID e = i) (picked event_call t) = picked event_call t"
  using job_post_events[OF assms(1-4,6)] assms(5) by (auto simp: ok_events_def list_all_iff ok_event_def)

lemma stageFromStatus_terminal:
  "isTerminal st \<Longrightarrow> stageFromStatus st \<in> {StageJobDone, StageJobError}"
  "stageFromStatus st = StageJobDone \<longleftrightarrow> st = JobStatusSucceeded"
  by (cases st; simp)+

lemma recorded_run:
  assumes "job_post W ctx item t" "parseJobUUID W (item_JobID item) = (i, True)" "Emit W \<noteq> None" "i \<noteq> uuid_Nil" "length i = 16"
    and "picked status_call t = [x, (j, st, e, c, y)]"
    and "filter (\<lambda>e. evt_JobID e = i) (concat batches) = picked event_call t" "db_faults db = []"
  shows "\<exists>run. repo_get_job i (sink_batches ord batches db) = (Inr run, sink_batches ord batches db) \<and> run_ID run = i
    \<and> run_Status run = (if st = JobStatusSucceeded then RunSuccess else RunError)
    \<and> run_FinishedAt run = Some (evt_TS (last (picked event_call t)))"
proof -
  let ?db = "sink_batches ord batches db" and ?t = "evt_TS (last (picked event_call t))"
  let ?st = "if stageFromStatus st = StageJobDone then RunSuccess else RunError"
  obtain n where ev: "isTerminal st" "ok_events i t" "stages t = StageJobStart # replicate n StageFetchDone @ [stageFromStatus st]"
    using job_post_events[OF assms(1-4,6)] by blast
  have ids: "\<forall>e \<in> set (picked event_call t). evt_JobID e = i"
    using job_events_own[OF assms(1-6)] by (simp add: filter_id_conv)
  have "fold (phase_step i) (concat batches) NotSeen = Ended ?st ?t"
    unfolding fold_phase_filter[of i "concat batches"] assms(7)
    by (rule job_events_phase[OF ev(3)[unfolded stages_def] stageFromStatus_terminal(1)[OF ev(1)] ids])
  with pg_runs.batches_phase[OF assms(8), of NotSeen i ord batches]
  have good: "db_faults ?db = []" "phase_rows (Ended ?st ?t) (job_rows i ?db)" by (simp_all add: sink_batches_def)
  from pg_runs.ended_run_found[OF good] obtain run where "run \<in> set (job_rows i ?db)" "repo_get_job i ?db = (Inr run, ?db)"
    "run_Status run = ?st" "run_FinishedAt run = Some ?t" by (auto simp: postgres_repo_def)
  then show ?thesis by (auto simp: job_rows_def stageFromStatus_terminal(2))
qed

end
