(* ===== verification/GoUrlRoundTrip.thy ===== *)
theory GoUrlRoundTrip
  imports GoUrl
begin

text \<open>
  Printing and parsing of URLs with user information: the alphabets of the encoded components, host and
  port, and the lemma that a printed connection URL parses back to its parts.
\<close>

definition url_safe :: "char \<Rightarrow> bool" where
  "url_safe c \<longleftrightarrow> 32 \<le> code c \<and> code c \<noteq> (127::nat) \<and> c \<noteq> CHR ''#'' \<and> c \<noteq> CHR ''?''"

lemma shouldEscape_control:
  assumes "code c < (32::nat) \<or> code c = (127::nat)"
  shows "shouldEscape c mode"
proof -
  have vis: "\<forall>x \<in> set (''!$&()*+,;=:[]<>-_.~$&+,/:;=?@!()*'' @ [CHR 0x27, CHR 0x22]). 33 \<le> code x \<and> code x < (127::nat)"
    by simp
  have "\<not> is_alnum c" using assms by (auto simp: is_alnum_def Let_def)
  moreover have "c \<notin> set (''!$&()*+,;=:[]<>-_.~$&+,/:;=?@!()*'' @ [CHR 0x27, CHR 0x22])" using assms vis by fastforce
  ultimately show ?thesis unfolding shouldEscape_def by simp
qed

lemma escaped_safe:
  assumes "x \<in> set (url_escape s mode)" "mode \<in> {encodePath, encodeUserPassword, encodeQueryComponent}"
  shows "url_safe x"
proof (rule ccontr)
  assume "\<not> url_safe x"
  then have "code x < (32::nat) \<or> code x = (127::nat) \<or> x = CHR ''#'' \<or> x = CHR ''?''"
    by (auto simp: url_safe_def)
  then have "shouldEscape x mode \<and> x \<noteq> CHR 0x25 \<and> x \<noteq> CHR ''+''"
  proof (elim disjE)
    assume "x = CHR ''#''" then show ?thesis by (simp add: shouldEscape_def is_alnum_def)
  next
    assume "x = CHR ''?''" then show ?thesis using assms(2) by (auto simp: shouldEscape_def is_alnum_def)
  qed (auto simp: shouldEscape_control)
  with escape_charset[OF assms(1)] show False by blast
qed

lemma userinfo_escaped:
  assumes "x \<in> set (url_escape s encodeUserPassword)"
  shows "x \<noteq> CHR ''@'' \<and> x \<noteq> CHR ''/'' \<and> x \<noteq> CHR '':'' \<and> validUserinfo [x]"
  using escape_charset[OF assms]
  by (auto simp: validUserinfo_def shouldEscape_def Let_def is_alnum_def split: if_splits)
lemma last_index_last: "c \<notin> set y \<Longrightarrow> last_index (x @ c # y) c = Some (length x)"
  using index_byte_first[of c "rev y" "rev x"] by (simp add: last_index_def)

lemma Cut_first: "c \<notin> set x \<Longrightarrow> strings_Cut (x @ c # y) c = (x, y, True)"
  by (simp add: strings_Cut_def index_byte_first)

lemma Cut_none: "c \<notin> set x \<Longrightarrow> strings_Cut x c = (x, '''', False)"
  by (simp add: strings_Cut_def iffD2[OF index_byte_None])

text \<open>\<^verbatim>\<open>net.JoinHostPort\<close>: a host with a colon is put in brackets.\<close>

definition net_JoinHostPort :: "bytes \<Rightarrow> bytes \<Rightarrow> bytes" where
  "net_JoinHostPort host port =
     (if CHR '':'' \<in> set host then ''['' @ host @ '']:'' @ port else host @ '':'' @ port)"

text \<open>Host names and IP addresses: what needs no escaping in a URL.\<close>

definition host_literal :: "bytes \<Rightarrow> bool" where
  "host_literal h \<longleftrightarrow> h \<noteq> '''' \<and> list_all (\<lambda>c. is_alnum c \<or> c \<in> set ''.-:'') h"

definition host_safe :: "char \<Rightarrow> bool" where
  "host_safe c \<longleftrightarrow> is_alnum c \<or> c \<in> set ''.-:[]''"

lemma host_safe_facts:
  assumes "host_safe c"
  shows "\<not> shouldEscape c encodeHost" "c \<noteq> CHR 0x25" "c \<noteq> CHR ''@''" "c \<noteq> CHR ''/''" "url_safe c"
  using assms by (auto simp: host_safe_def shouldEscape_def url_safe_def is_alnum_def Let_def)

lemma escape_host_safe: "list_all host_safe h \<Longrightarrow> url_escape h encodeHost = h"
  by (induction h) (auto simp: url_escape_def escape_char_def host_safe_facts(1))

lemma unescape_host_safe: "list_all host_safe h \<Longrightarrow> url_unescape encodeHost h = Some h"
  by (induction h) (auto simp: host_safe_facts)

lemma port_digits:
  assumes "0 \<le> p"
  shows "list_all host_safe (strconv_Itoa p)" "CHR '']'' \<notin> set (strconv_Itoa p)"
    "CHR '':'' \<notin> set (strconv_Itoa p)" "validOptionalPort (CHR '':'' # strconv_Itoa p)"
proof -
  have d: "list_all is_digit (strconv_Itoa p)" using assms digits_itoa by (simp add: strconv_Itoa_def)
  then show "list_all host_safe (strconv_Itoa p)"
    by (auto simp: list_all_iff is_digit_def host_safe_def is_alnum_def Let_def)
  show "CHR '']'' \<notin> set (strconv_Itoa p)" "CHR '':'' \<notin> set (strconv_Itoa p)"
    using d by (auto simp: list_all_iff is_digit_def)
  show "validOptionalPort (CHR '':'' # strconv_Itoa p)"
    using d by (auto simp: validOptionalPort_def list_all_iff is_digit_def)
qed

lemma host_literal_safe: "host_literal h \<Longrightarrow> list_all host_safe h"
  by (auto simp: host_literal_def list_all_iff host_safe_def)

lemma join_safe: "host_literal h \<Longrightarrow> 0 \<le> p \<Longrightarrow> list_all host_safe (net_JoinHostPort h (strconv_Itoa p))"
  using host_literal_safe[of h] port_digits(1)[of p] by (auto simp: net_JoinHostPort_def host_safe_def)

lemma host_literal_chars:
  assumes "host_literal h"
  shows "CHR ''['' \<notin> set h" "CHR '']'' \<notin> set h" "CHR 0x25 \<notin> set h"
  using assms by (auto simp: host_literal_def list_all_iff is_alnum_def Let_def)

lemma parseHost_join:
  assumes h: "host_literal h" and p: "0 \<le> p"
  shows "parseHost (net_JoinHostPort h (strconv_Itoa p)) = Some (net_JoinHostPort h (strconv_Itoa p))"
proof -
  note un = unescape_host_safe[OF join_safe[OF h p]]
  show ?thesis
  proof (cases "CHR '':'' \<in> set h")
    case True
    let ?hp = "(CHR ''['' # h) @ CHR '']'' # CHR '':'' # strconv_Itoa p"
    have j: "net_JoinHostPort h (strconv_Itoa p) = ?hp" using True by (simp add: net_JoinHostPort_def)
    have li: "last_index ?hp (CHR '']'') = Some (length (CHR ''['' # h))"
      using port_digits(2)[OF p] by (intro last_index_last) auto
    have "CHR 0x25 \<notin> set (CHR ''['' # h)" using host_literal_chars[OF h] by auto
    then have "find_sub (CHR ''['' # h) [CHR 0x25, CHR ''2'', CHR ''5''] = None"
      unfolding find_sub_def find_None_all
      by (metis (no_types, lifting) in_set_dropD list.set_intros(1) set_mono_prefix subsetD)
    with li port_digits(4)[OF p] un show ?thesis
      unfolding j by (simp add: parseHost_def)
  next
    case False
    have j: "net_JoinHostPort h (strconv_Itoa p) = h @ CHR '':'' # strconv_Itoa p"
      using False by (simp add: net_JoinHostPort_def)
    have "\<not> prefix ''['' (h @ CHR '':'' # strconv_Itoa p)"
      using host_literal_chars[OF h] h by (cases h) (auto simp: host_literal_def)
    with last_index_last[OF port_digits(3)[OF p], of h] port_digits(4)[OF p] un
    show ?thesis unfolding j by (simp add: parseHost_def)
  qed
qed


lemma userinfo_colon: "validUserinfo [CHR '':'']"
  by (simp add: validUserinfo_def)

lemma parseAuthority_userinfo:
  assumes "parseHost hp = Some hp" "CHR ''@'' \<notin> set hp"
  shows "parseAuthority (url_escape u encodeUserPassword @ CHR '':'' # url_escape w encodeUserPassword @ CHR ''@'' # hp)
    = Some (Some (u, Some w), hp)"
proof -
  let ?u = "url_escape u encodeUserPassword" and ?w = "url_escape w encodeUserPassword"
  have li: "last_index ((?u @ CHR '':'' # ?w) @ CHR ''@'' # hp) (CHR ''@'') = Some (length (?u @ CHR '':'' # ?w))"
    using assms(2) by (rule last_index_last)
  have v: "(\<forall>x \<in> set s. validUserinfo [x]) \<Longrightarrow> validUserinfo s" for s
    by (simp add: validUserinfo_def list_all_iff)
  have "\<forall>x \<in> set (?u @ CHR '':'' # ?w). validUserinfo [x]"
    using userinfo_escaped[of _ u] userinfo_escaped[of _ w] userinfo_colon by auto
  then have "validUserinfo (?u @ CHR '':'' # ?w)" by (rule v)
  moreover have "strings_Cut (?u @ CHR '':'' # ?w) (CHR '':'') = (?u, ?w, True)"
    using userinfo_escaped[of _ u] by (intro Cut_first) auto
  ultimately show ?thesis
    using li assms(1) by (simp add: parseAuthority_def unescape_escape Let_def)
qed

lemma setPath_escape: "setPath u (url_escape p encodePath) = Some (u\<lparr>Path := p, RawPath := ''''\<rparr>)"
  by (simp add: setPath_def unescape_escape)

lemma getScheme_postgres: "getScheme (''postgres:'' @ s) = Some (''postgres'', s)"
  by (simp add: getScheme_def)

lemma safe_separators: "url_safe (CHR ''/'')" "url_safe (CHR '':'')" "url_safe (CHR ''@'')"
  by (simp_all add: url_safe_def)

lemma safe_printed:
  assumes "\<forall>c \<in> set r. url_safe c" "list_all url_safe q"
  shows "\<forall>c \<in> set (''postgres:'' @ r @ (if q = [] then [] else CHR ''?'' # q)). url_safe c \<or> c = CHR ''?''"
proof -
  have "\<forall>c \<in> set ''postgres:''. url_safe c" by (simp add: url_safe_def)
  with assms show ?thesis unfolding list_all_iff set_append by auto
qed

lemma no_question_suffix:
  assumes "CHR ''?'' \<notin> set r" "CHR ''?'' \<notin> set q"
  shows "\<not> suffix ''?'' (r @ (if q = [] then [] else CHR ''?'' # q))"
proof
  let ?s = "r @ (if q = [] then [] else CHR ''?'' # q)"
  assume "suffix ''?'' ?s"
  then obtain zs where zs: "?s = zs @ ''?''" by (auto simp: suffix_def)
  then have "last ?s = CHR ''?''" "?s \<noteq> []" by simp_all
  show False
  proof (cases "q = []")
    case True
    with \<open>last ?s = _\<close> \<open>?s \<noteq> []\<close> have "CHR ''?'' \<in> set r" by (simp, metis last_in_set)
    with assms show False by simp
  next
    case False
    with \<open>last ?s = _\<close> have "last q = CHR ''?''" by simp
    with False assms(2) show False by (metis last_in_set)
  qed
qed

lemma no_control: "\<forall>c \<in> set s. url_safe c \<or> c = CHR ''?'' \<Longrightarrow> \<not> (\<exists>c \<in> set s. code c < (32::nat) \<or> code c = (127::nat))"
  by (force simp: url_safe_def)

text \<open>A printed URL with user, host and absolute path parses back.\<close>

lemma parse_postgres:
  assumes hp: "parseHost hp = Some hp" "list_all host_safe hp" and q: "list_all url_safe q"
  shows "url_Parse (''postgres://'' @ url_escape u encodeUserPassword @ CHR '':'' # url_escape w encodeUserPassword
      @ CHR ''@'' # hp @ url_escape (CHR ''/'' # n) encodePath @ (if q = '''' then '''' else CHR ''?'' # q))
    = Some (empty_url\<lparr>Scheme := ''postgres'', User := Some (u, Some w), Host := hp, Path := CHR ''/'' # n, RawQuery := q\<rparr>)"
    (is "url_Parse ?S = _")
proof -
  let ?U = "url_escape u encodeUserPassword" and ?W = "url_escape w encodeUserPassword"
  let ?P = "url_escape (CHR ''/'' # n) encodePath"
  let ?A = "?U @ CHR '':'' # ?W @ CHR ''@'' # hp"
  let ?Q = "if q = '''' then '''' else CHR ''?'' # q"
  let ?R = "CHR ''/'' # CHR ''/'' # ?A @ ?P"
  have P: "?P = CHR ''/'' # url_escape n encodePath"
    by (simp add: url_escape_def escape_char_def shouldEscape_def is_alnum_def)
  have safeR: "\<forall>c \<in> set ?R. url_safe c"
    using escaped_safe[of _ u encodeUserPassword] escaped_safe[of _ w encodeUserPassword]
      escaped_safe[of _ n encodePath] hp(2) host_safe_facts(5)
    unfolding P by (auto simp: list_all_iff safe_separators)
  then have qR: "CHR ''?'' \<notin> set ?R" and hR: "CHR ''#'' \<notin> set ?R" by (auto simp: url_safe_def)
  have S: "?S = ''postgres:'' @ ?R @ ?Q" by simp
  note safeS = safe_printed[OF safeR q, folded S]
  have hash: "CHR ''#'' \<notin> set ?S" using safeS unfolding url_safe_def by blast
  have ctl: "\<not> (\<exists>c \<in> set ?S. code c < (32::nat) \<or> code c = (127::nat))" using safeS by (rule no_control)
  have qq: "CHR ''?'' \<notin> set q" using q unfolding list_all_iff url_safe_def by blast
  note force = no_question_suffix[OF qR qq]
  have cut: "(case strings_Cut (?R @ ?Q) (CHR ''?'') of (a, b, _) \<Rightarrow> (a, b)) = (?R, q)"
    using Cut_first[OF qR, of q] Cut_none[OF qR] by (cases "q = ''''") auto
  have "CHR ''/'' \<notin> set ?A"
    using userinfo_escaped[of _ u] userinfo_escaped[of _ w] hp(2) host_safe_facts(4) by (auto simp: list_all_iff)
  then have slash: "index_byte (?A @ ?P) (CHR ''/'') = Some (length ?A)"
    unfolding P by (rule index_byte_first)
  have at: "CHR ''@'' \<notin> set hp" using hp(2) host_safe_facts(3) by (auto simp: list_all_iff)
  note auth = parseAuthority_userinfo[OF hp(1) at, of u w]
  have "?S \<noteq> ''*''" unfolding S by simp
  then have "parse_no_fragment ?S = Some (empty_url\<lparr>Scheme := ''postgres'', User := Some (u, Some w), Host := hp,
      Path := CHR ''/'' # n, RawQuery := q\<rparr>)"
    using ctl force cut slash auth
    unfolding parse_no_fragment_def S getScheme_postgres
    by (simp add: setPath_escape ascii_lower_def empty_url_def Let_def del: append_Cons append_assoc) 
  then show ?thesis using Cut_none[OF hash] by (simp add: url_Parse_def)
qed

lemma query_safe: "list_all url_safe (Values_Encode [(k, v)])"
  using escaped_safe[of _ k encodeQueryComponent] escaped_safe[of _ v encodeQueryComponent]
  by (auto simp: Values_Encode_def encode_pair_def list_all_iff url_safe_def[of "CHR ''=''"])

end
