(* ===== verification/Configuration.thy ===== *)
theory Configuration
  imports CrawlerTypes GoUrlRoundTrip Complex_Main
begin

text \<open>
  The service configuration (internal/config/config.go): the sections, the defaults, the resolution of
  the database DSN, the validation and \<^verbatim>\<open>Load\<close>. The viper library is a parameter: \<open>ReadInConfig\<close> and
  \<open>Unmarshal\<close> are its two calls, the latter with the defaults the code has registered.
\<close>

subsection \<open>Sections\<close>

record ApplicationConfig =
  ApplicationName :: bytes
  ServiceName :: bytes
  app_Version :: bytes
  app_ProjectID :: bytes
  ProjectNumber :: bytes
  Region :: bytes

record RateLimitConfig =
  rl_Enabled :: bool
  DefaultRPS :: rat
  DefaultBurst :: int

record MetricsConfig =
  met_Enabled :: bool
  met_Path :: bytes
  met_ProjectID :: bytes

record ServerConfig =
  srv_Port :: int
  srv_TimeoutSeconds :: int

record AuthConfig =
  auth_Enabled :: bool
  APIKey :: bytes

record CrawlerConfig =
  Concurrency :: int
  UserAgent :: bytes
  IgnoreRobots :: bool
  MaxDepthDefault :: int
  MaxPagesDefault :: int
  GlobalQueueDepth :: int

record HTTPConfig =
  http_TimeoutSeconds :: int

record HeadlessConfig =
  hl_Enabled :: bool
  MaxParallel :: int
  NavTimeoutSec :: int
  PromotionThresh :: int

record StorageConfig =
  Backend :: bytes
  Bucket :: bytes
  Prefix :: bytes
  st_ContentType :: bytes
  Local_BaseDir :: bytes

record DatabaseConfig =
  DSN :: bytes
  db_Host :: bytes
  db_Port :: int
  db_User :: bytes
  db_Password :: bytes
  db_Name :: bytes
  SSLMode :: bytes
  MaxConns :: int
  MinConns :: int
  MaxConnLifetime :: duration
  RetrievalTable :: bytes
  ProgressTable :: bytes
  StatsTable :: bytes

record PubSubConfig =
  TopicName :: bytes
  ps_ProjectID :: bytes

record LoggingConfig =
  Development :: bool

record ProgressBatchConfig =
  MaxEvents :: int
  MaxWaitMs :: int

record ProgressConfig =
  pr_Enabled :: bool
  pr_BufferSize :: int
  Batch :: ProgressBatchConfig
  SinkTimeoutMs :: int
  LogEnabled :: bool

record ServiceConfig =
  cfg_Application :: ApplicationConfig
  cfg_Server :: ServerConfig
  cfg_Auth :: AuthConfig
  cfg_Crawler :: CrawlerConfig
  cfg_HTTP :: HTTPConfig
  cfg_Headless :: HeadlessConfig
  cfg_Storage :: StorageConfig
  cfg_Database :: DatabaseConfig
  cfg_PubSub :: PubSubConfig
  cfg_Logging :: LoggingConfig
  cfg_Metrics :: MetricsConfig
  cfg_Progress :: ProgressConfig
  cfg_RateLimit :: RateLimitConfig
  StandardJobs :: "bytes \<rightharpoonup> JobParameters"

subsection \<open>Resolving the database DSN\<close>

definition blank :: "bytes \<Rightarrow> bool" where
  "blank s \<longleftrightarrow> strings_TrimSpace s = ''''"

fun strings_Join :: "bytes list \<Rightarrow> bytes \<Rightarrow> bytes" where
  "strings_Join [] sep = ''''"
| "strings_Join [w] sep = w"
| "strings_Join (w # ws) sep = w @ sep @ strings_Join ws sep"

definition missing_settings :: "DatabaseConfig \<Rightarrow> bytes list" where
  "missing_settings c =
     (if blank (db_Host c) then [''database.host''] else [])
     @ (if blank (db_User c) then [''database.user''] else [])
     @ (if blank (db_Password c) then [''database.password''] else [])
     @ (if blank (db_Name c) then [''database.name''] else [])"

definition dsn_url :: "DatabaseConfig \<Rightarrow> url" where
  "dsn_url c =
     (let port = (if db_Port c = 0 then 5432 else db_Port c);
          host = (if strings_HasPrefix (db_Host c) ''['' \<and> strings_HasSuffix (db_Host c) '']''
                  then butlast (tl (db_Host c)) else db_Host c);
          query = (if \<not> blank (SSLMode c) then [(''sslmode'', SSLMode c)] else [])
      in empty_url\<lparr>Scheme := ''postgres'', User := Some (db_User c, Some (db_Password c)),
           Host := net_JoinHostPort host (strconv_Itoa port), Path := ''/'' @ db_Name c,
           RawQuery := (if query \<noteq> [] then Values_Encode query else '''')\<rparr>)"

definition resolveDSN :: "DatabaseConfig \<Rightarrow> DatabaseConfig result" where
  "resolveDSN c =
     (if \<not> blank (DSN c) then Inr c
      else if blank (db_Host c) \<and> db_Port c = 0 \<and> blank (db_User c) \<and> blank (db_Password c)
        \<and> blank (db_Name c) \<and> blank (SSLMode c)
      then Inr c
      else
        let missing = missing_settings c in
        if missing \<noteq> [] then
          Inl (ErrorString (''database config incomplete: set '' @ strings_Join missing '', ''
            @ '' when database.dsn is omitted''))
        else Inr (c\<lparr>DSN := url_String (dsn_url c)\<rparr>))"

subsection \<open>Validation\<close>

definition check :: "bool \<Rightarrow> bytes \<Rightarrow> unit result \<Rightarrow> unit result" where
  "check bad msg rest = (if bad then Inl (ErrorString msg) else rest)"

definition Validate_storage :: "StorageConfig \<Rightarrow> unit result \<Rightarrow> unit result" where
  "Validate_storage s rest =
     (if Backend s = ''memory'' then rest
      else if Backend s = ''gcs'' then
        check (blank (Bucket s)) ''storage.bucket must be set when storage.backend is gcs'' rest
      else if Backend s = ''local'' then
        check (blank (Local_BaseDir s)) ''storage.local.base_dir must be set when storage.backend is local'' rest
      else Inl (ErrorString ''storage.backend must be either memory, gcs, or local''))"

definition Validate_progress :: "ProgressConfig \<Rightarrow> unit result \<Rightarrow> unit result" where
  "Validate_progress p rest =
     (if pr_Enabled p then
        check (pr_BufferSize p \<le> 0) ''progress.buffer_size must be > 0'' (
        check (MaxEvents (Batch p) \<le> 0) ''progress.batch.max_events must be > 0'' (
        check (MaxWaitMs (Batch p) \<le> 0) ''progress.batch.max_wait_ms must be > 0'' (
        check (SinkTimeoutMs p \<le> 0) ''progress.sink_timeout_ms must be > 0'' rest)))
      else rest)"

definition Validate :: "ServiceConfig \<Rightarrow> unit result" where
  "Validate c =
     check (srv_Port (cfg_Server c) \<le> 0) ''server.port must be > 0'' (
     check (Concurrency (cfg_Crawler c) \<le> 0) ''crawler.concurrency must be > 0'' (
     check (GlobalQueueDepth (cfg_Crawler c) \<le> 0) ''crawler.queue_depth must be > 0'' (
     check (MaxDepthDefault (cfg_Crawler c) < 0) ''crawler.max_depth_default must be >= 0'' (
     check (MaxPagesDefault (cfg_Crawler c) \<le> 0) ''crawler.max_pages_default must be > 0'' (
     check (http_TimeoutSeconds (cfg_HTTP c) \<le> 0) ''http.timeout_seconds must be > 0'' (
     check (hl_Enabled (cfg_Headless c) \<and> MaxParallel (cfg_Headless c) \<le> 0)
       ''headless.max_parallel must be > 0 when headless is enabled'' (
     check (auth_Enabled (cfg_Auth c) \<and> APIKey (cfg_Auth c) = '''')
       ''auth.api_key must be set when auth is enabled'' (
     Validate_storage (cfg_Storage c) (
     check (DSN (cfg_Database c) \<noteq> '''' \<and> blank (RetrievalTable (cfg_Database c)))
       ''database.retrieval_table must be set when database.dsn is provided'' (
     check (DSN (cfg_Database c) \<noteq> '''' \<and> blank (ProgressTable (cfg_Database c)))
       ''database.progress_table must be set when database.dsn is provided'' (
     check (DSN (cfg_Database c) \<noteq> '''' \<and> blank (StatsTable (cfg_Database c)))
       ''database.stats_table must be set when database.dsn is provided'' (
     check (TopicName (cfg_PubSub c) \<noteq> '''' \<and> blank (ps_ProjectID (cfg_PubSub c)))
       ''pubsub.project_id must be set when pubsub.topic_name is configured'' (
     Validate_progress (cfg_Progress c) (
     check (ApplicationName (cfg_Application c) = '''') ''application.application_name must be set'' (
     check (app_Version (cfg_Application c) = '''') ''application.version must be set'' (
     check (app_ProjectID (cfg_Application c) = '''') ''application.project_id must be set'' (
     Inr ())))))))))))))))))"

definition JobBudget :: "ServiceConfig \<Rightarrow> duration" where
  "JobBudget c = i64 (http_TimeoutSeconds (cfg_HTTP c) * Second)"

subsection \<open>Defaults and loading\<close>

datatype setting = SetStr bytes | SetInt int | SetBool bool | SetFloat rat

definition setDefaults :: "(bytes \<times> setting) list" where
  "setDefaults =
    [(''application.application_name'', SetStr ''realtime-cpi''),
     (''application.version'', SetStr ''1.0.0''),
     (''application.project_id'', SetStr ''realtime-cpi''),
     (''application.service_name'', SetStr ''real-cpi-crawler-service''),
     (''application.project_number'', SetStr ''582915052207''),
     (''application.region'', SetStr ''us-east4''),
     (''server.port'', SetInt 8080),
     (''server.timeout_seconds'', SetInt 60),
     (''crawler.concurrency'', SetInt 4),
     (''crawler.user_agent'', SetStr ''real-cpi-bot/0.1''),
     (''crawler.ignore_robots'', SetBool False),
     (''crawler.max_depth_default'', SetInt 1),
     (''crawler.max_pages_default'', SetInt 10),
     (''crawler.queue_depth'', SetInt 64),
     (''http.timeout_seconds'', SetInt 15),
     (''headless.enabled'', SetBool False),
     (''headless.max_parallel'', SetInt 1),
     (''headless.nav_timeout_seconds'', SetInt 25),
     (''headless.promotion_threshold'', SetInt 2048),
     (''storage.backend'', SetStr ''memory''),
     (''storage.prefix'', SetStr ''crawl''),
     (''storage.content_type'', SetStr ''text/html; charset=utf-8''),
     (''storage.local.base_dir'', SetStr ''tmp/storage''),
     (''database.port'', SetInt 5432),
     (''database.table'', SetStr ''retrievals''),
     (''logging.development'', SetBool True),
     (''metrics.enabled'', SetBool True),
     (''metrics.path'', SetStr ''/metrics''),
     (''metrics.project_id'', SetStr ''realtime-cpi''),
     (''progress.enabled'', SetBool True),
     (''progress.buffer_size'', SetInt 4096),
     (''progress.batch.max_events'', SetInt 1000),
     (''progress.batch.max_wait_ms'', SetInt 500),
     (''progress.sink_timeout_ms'', SetInt 10000),
     (''progress.log_enabled'', SetBool False),
     (''rate_limit.enabled'', SetBool True),
     (''rate_limit.default_rps'', SetFloat 1),
     (''rate_limit.default_burst'', SetInt 1)]"

text \<open>The struct as its \<^verbatim>\<open>mapstructure\<close> tags name the settings: a field is the setting with its key, or
  the zero value of its type when there is none.\<close>

definition str_of :: "(bytes \<rightharpoonup> setting) \<Rightarrow> bytes \<Rightarrow> bytes" where
  "str_of s k = (case s k of Some (SetStr x) \<Rightarrow> x | _ \<Rightarrow> '''')"

definition int_of :: "(bytes \<rightharpoonup> setting) \<Rightarrow> bytes \<Rightarrow> int" where
  "int_of s k = (case s k of Some (SetInt x) \<Rightarrow> x | _ \<Rightarrow> 0)"

definition bool_of :: "(bytes \<rightharpoonup> setting) \<Rightarrow> bytes \<Rightarrow> bool" where
  "bool_of s k = (case s k of Some (SetBool x) \<Rightarrow> x | _ \<Rightarrow> False)"

definition float_of :: "(bytes \<rightharpoonup> setting) \<Rightarrow> bytes \<Rightarrow> rat" where
  "float_of s k = (case s k of Some (SetFloat x) \<Rightarrow> x | _ \<Rightarrow> 0)"

definition database_of :: "(bytes \<rightharpoonup> setting) \<Rightarrow> DatabaseConfig" where
  "database_of s =
     \<lparr>DSN = str_of s ''database.dsn'', db_Host = str_of s ''database.host'', db_Port = int_of s ''database.port'',
      db_User = str_of s ''database.user'', db_Password = str_of s ''database.password'',
      db_Name = str_of s ''database.name'', SSLMode = str_of s ''database.sslmode'',
      MaxConns = int_of s ''database.max_conns'', MinConns = int_of s ''database.min_conns'',
      MaxConnLifetime = int_of s ''database.max_conn_lifetime'',
      RetrievalTable = str_of s ''database.retrieval_table'', ProgressTable = str_of s ''database.progress_table'',
      StatsTable = str_of s ''database.stats_table''\<rparr>"

definition config_of :: "(bytes \<rightharpoonup> setting) \<Rightarrow> (bytes \<rightharpoonup> JobParameters) \<Rightarrow> ServiceConfig" where
  "config_of s jobs =
     \<lparr>cfg_Application =
        \<lparr>ApplicationName = str_of s ''application.application_name'', ServiceName = str_of s ''application.service_name'',
         app_Version = str_of s ''application.version'', app_ProjectID = str_of s ''application.project_id'',
         ProjectNumber = str_of s ''application.project_number'', Region = str_of s ''application.region''\<rparr>,
      cfg_Server = \<lparr>srv_Port = int_of s ''server.port'', srv_TimeoutSeconds = int_of s ''server.timeout_seconds''\<rparr>,
      cfg_Auth = \<lparr>auth_Enabled = bool_of s ''auth.enabled'', APIKey = str_of s ''auth.api_key''\<rparr>,
      cfg_Crawler =
        \<lparr>Concurrency = int_of s ''crawler.concurrency'', UserAgent = str_of s ''crawler.user_agent'',
         IgnoreRobots = bool_of s ''crawler.ignore_robots'', MaxDepthDefault = int_of s ''crawler.max_depth_default'',
         MaxPagesDefault = int_of s ''crawler.max_pages_default'', GlobalQueueDepth = int_of s ''crawler.queue_depth''\<rparr>,
      cfg_HTTP = \<lparr>http_TimeoutSeconds = int_of s ''http.timeout_seconds''\<rparr>,
      cfg_Headless =
        \<lparr>hl_Enabled = bool_of s ''headless.enabled'', MaxParallel = int_of s ''headless.max_parallel'',
         NavTimeoutSec = int_of s ''headless.nav_timeout_seconds'', PromotionThresh = int_of s ''headless.promotion_threshold''\<rparr>,
      cfg_Storage =
        \<lparr>Backend = str_of s ''storage.backend'', Bucket = str_of s ''storage.bucket'', Prefix = str_of s ''storage.prefix'',
         st_ContentType = str_of s ''storage.content_type'', Local_BaseDir = str_of s ''storage.local.base_dir''\<rparr>,
      cfg_Database = database_of s,
      cfg_PubSub = \<lparr>TopicName = str_of s ''pubsub.topic_name'', ps_ProjectID = str_of s ''pubsub.project_id''\<rparr>,
      cfg_Logging = \<lparr>Development = bool_of s ''logging.development''\<rparr>,
      cfg_Metrics =
        \<lparr>met_Enabled = bool_of s ''metrics.enabled'', met_Path = str_of s ''metrics.path'',
         met_ProjectID = str_of s ''metrics.project_id''\<rparr>,
      cfg_Progress =
        \<lparr>pr_Enabled = bool_of s ''progress.enabled'', pr_BufferSize = int_of s ''progress.buffer_size'',
         Batch = \<lparr>MaxEvents = int_of s ''progress.batch.max_events'', MaxWaitMs = int_of s ''progress.batch.max_wait_ms''\<rparr>,
         SinkTimeoutMs = int_of s ''progress.sink_timeout_ms'', LogEnabled = bool_of s ''progress.log_enabled''\<rparr>,
      cfg_RateLimit =
        \<lparr>rl_Enabled = bool_of s ''rate_limit.enabled'', DefaultRPS = float_of s ''rate_limit.default_rps'',
         DefaultBurst = int_of s ''rate_limit.default_burst''\<rparr>,
      StandardJobs = jobs\<rparr>"

record viper =
  ReadInConfig :: "bytes \<Rightarrow> error option"
  Unmarshal :: "(bytes \<times> setting) list \<Rightarrow> bytes \<Rightarrow> ServiceConfig result"

definition override_port :: "bytes \<Rightarrow> ServiceConfig \<Rightarrow> ServiceConfig result" where
  "override_port env cfg =
     (let portEnv = strings_TrimSpace env in
      if portEnv = '''' then Inr cfg
      else
        case strconv_Atoi portEnv of
          Inl e \<Rightarrow> Inl (Wrapped ''parse PORT env var'' e)
        | Inr port \<Rightarrow>
            if port \<le> 0 then Inl (ErrorString (''parse PORT env var: '' @ [CHR 0x25] @ ''!w(<nil>)''))
            else Inr (cfg\<lparr>cfg_Server := (cfg_Server cfg)\<lparr>srv_Port := port\<rparr>\<rparr>))"

definition Load :: "viper \<Rightarrow> bytes \<Rightarrow> bytes \<Rightarrow> ServiceConfig result" where
  "Load v portEnv path =
     (case (if path \<noteq> '''' then ReadInConfig v path else None) of
        Some e \<Rightarrow> Inl (Wrapped ''read config'' e)
      | None \<Rightarrow>
          case Unmarshal v setDefaults path of
            Inl e \<Rightarrow> Inl (Wrapped ''unmarshal config'' e)
          | Inr cfg0 \<Rightarrow>
              case override_port portEnv cfg0 of
                Inl e \<Rightarrow> Inl e
              | Inr cfg1 \<Rightarrow>
                  case resolveDSN (cfg_Database cfg1) of
                    Inl e \<Rightarrow> Inl e
                  | Inr db \<Rightarrow>
                      let cfg = cfg1\<lparr>cfg_Database := db\<rparr> in
                      case Validate cfg of Inl e \<Rightarrow> Inl e | Inr _ \<Rightarrow> Inr cfg)"

subsection \<open>Lemmas\<close>

lemma check_ok [simp]: "check bad msg rest = Inr u \<longleftrightarrow> \<not> bad \<and> rest = Inr u"
  by (simp add: check_def)

lemma Validate_storage_ok [simp]:
  "Validate_storage s rest = Inr u \<longleftrightarrow> rest = Inr u
     \<and> (Backend s = ''memory'' \<or> Backend s = ''gcs'' \<and> \<not> blank (Bucket s)
        \<or> Backend s = ''local'' \<and> \<not> blank (Local_BaseDir s))"
  by (auto simp: Validate_storage_def)

lemma Validate_progress_ok [simp]:
  "Validate_progress p rest = Inr u \<longleftrightarrow> rest = Inr u
     \<and> (pr_Enabled p \<longrightarrow> 0 < pr_BufferSize p \<and> 0 < MaxEvents (Batch p) \<and> 0 < MaxWaitMs (Batch p)
        \<and> 0 < SinkTimeoutMs p)"
  by (auto simp: Validate_progress_def)

lemma strip_brackets:
  assumes "host_literal h" "hostname = h \<or> hostname = ''['' @ h @ '']''"
  shows "(if strings_HasPrefix hostname ''['' \<and> strings_HasSuffix hostname '']'' then butlast (tl hostname) else hostname) = h"
  using assms host_literal_chars[OF assms(1)]
  by (cases h) (auto simp: suffix_def prefix_def)

text \<open>The DSN is a URL that names the settings it was built from.\<close>

lemma dsn_roundtrip_url:
  assumes h: "host_literal h" "db_Host c = h \<or> db_Host c = ''['' @ h @ '']''" and p: "0 \<le> db_Port c"
  shows "url_Parse (url_String (dsn_url c)) = Some (dsn_url c)"
    and "Host (dsn_url c) = net_JoinHostPort h (strconv_Itoa (if db_Port c = 0 then 5432 else db_Port c))"
proof -
  let ?p = "if db_Port c = 0 then 5432 else db_Port c"
  let ?hp = "net_JoinHostPort h (strconv_Itoa ?p)"
  let ?q = "if \<not> blank (SSLMode c) then Values_Encode [(''sslmode'', SSLMode c)] else ''''"
  have p': "0 \<le> ?p" using p by simp
  have u: "dsn_url c = empty_url\<lparr>Scheme := ''postgres'', User := Some (db_User c, Some (db_Password c)), Host := ?hp,
      Path := CHR ''/'' # db_Name c, RawQuery := ?q\<rparr>"
    unfolding dsn_url_def Let_def strip_brackets[OF h] by simp
  then show "Host (dsn_url c) = ?hp" by simp
  have hp: "?hp \<noteq> ''''" by (simp add: net_JoinHostPort_def)
  have q: "list_all url_safe ?q" using query_safe by simp
  have "\<exists>r. url_escape (CHR ''/'' # db_Name c) encodePath = CHR ''/'' # r"
    by (simp add: url_escape_def escape_char_def shouldEscape_def is_alnum_def)
  then have "url_String (dsn_url c) = ''postgres://'' @ url_escape (db_User c) encodeUserPassword @ CHR '':''
      # url_escape (db_Password c) encodeUserPassword @ CHR ''@'' # ?hp @ url_escape (CHR ''/'' # db_Name c) encodePath
      @ (if ?q = '''' then '''' else CHR ''?'' # ?q)"
    using hp escape_host_safe[OF join_safe[OF h(1) p']]
    unfolding u by (auto simp: url_String_def EscapedPath_def Userinfo_String_def empty_url_def Let_def)
  then show "url_Parse (url_String (dsn_url c)) = Some (dsn_url c)"
    using parse_postgres[OF parseHost_join[OF h(1) p'] join_safe[OF h(1) p'] q] unfolding u by simp
qed

lemma Load_ok:
  assumes "Load v env path = Inr cfg"
  shows "Validate cfg = Inr ()" "\<exists>cfg0. Unmarshal v setDefaults path = Inr cfg0 \<and> resolveDSN (cfg_Database cfg0) = Inr (cfg_Database cfg)"
  using assms
  by (auto simp: Load_def override_port_def Let_def split: option.splits sum.splits if_splits)

lemma resolveDSN_ok:
  assumes "resolveDSN c = Inr c'" "blank (DSN c)" "\<not> blank (db_Host c)"
  shows "c' = c\<lparr>DSN := url_String (dsn_url c)\<rparr>"
  using assms by (auto simp: resolveDSN_def Let_def split: if_splits)

lemma sslmode_query: "Values_Get (url_Query (dsn_url c)) ''sslmode'' = (if blank (SSLMode c) then '''' else SSLMode c)"
  by (simp add: url_Query_def dsn_url_def Let_def ParseQuery_Encode Values_Get_def)
     (simp add: ParseQuery_def query_pair_def)

text \<open>Without a database setting of the deployment, only the default port is set.\<close>

lemma database_defaults:
  assumes "\<forall>k. strings_HasPrefix k ''database.'' \<longrightarrow> map_of overrides k = None"
  shows "database_of (map_of (overrides @ setDefaults)) = \<lparr>DSN = '''', db_Host = '''', db_Port = 5432, db_User = '''',
    db_Password = '''', db_Name = '''', SSLMode = '''', MaxConns = 0, MinConns = 0, MaxConnLifetime = 0,
    RetrievalTable = '''', ProgressTable = '''', StatsTable = ''''\<rparr>"
proof -
  have same: "str_of (map_of (overrides @ setDefaults)) (''database.'' @ k) = str_of (map_of setDefaults) (''database.'' @ k)"
    "int_of (map_of (overrides @ setDefaults)) (''database.'' @ k) = int_of (map_of setDefaults) (''database.'' @ k)" for k
    using assms by (simp_all add: str_of_def int_of_def map_add_def)
  from same(1)[of "''dsn''"] same(1)[of "''host''"] same(2)[of "''port''"] same(1)[of "''user''"]
    same(1)[of "''password''"] same(1)[of "''name''"] same(1)[of "''sslmode''"] same(2)[of "''max_conns''"]
    same(2)[of "''min_conns''"] same(2)[of "''max_conn_lifetime''"] same(1)[of "''retrieval_table''"]
    same(1)[of "''progress_table''"] same(1)[of "''stats_table''"]
  have "database_of (map_of (overrides @ setDefaults)) = database_of (map_of setDefaults)"
    unfolding database_of_def append_Cons append_Nil by presburger
  then show ?thesis by (simp add: database_of_def str_of_def int_of_def setDefaults_def)
qed

lemma resolve_port_only:
  assumes "db_Port c \<noteq> 0" "DSN c = ''''" "db_Host c = ''''" "db_User c = ''''" "db_Password c = ''''" "db_Name c = ''''"
  shows "resolveDSN c = Inl (ErrorString ''database config incomplete: set database.host, database.user, database.password, database.name when database.dsn is omitted'')"
  using assms by (simp add: resolveDSN_def missing_settings_def blank_def)

end
