(* ===== verification/ApiRequests.thy ===== *)
theory ApiRequests
  imports Configuration GoJson "HOL-Library.AList"
begin

text \<open>
  The request side of internal/api/server.go: decoding of the two request bodies into their structs,
  the defaults, and the job parameters built from them. A body is the JSON value that
  \<^verbatim>\<open>json.Decoder\<close> reads; \<open>None\<close> is a syntax error. The decoding follows the struct tags: keys match
  a field exactly or up to the letter case, unknown keys are skipped, \<^verbatim>\<open>null\<close> leaves a slice, string or
  map at its zero value and a pointer nil, and a value of the wrong type is an error.
\<close>

subsection \<open>Structs\<close>

record standardJobRequest =
  sreq_Name :: bytes

record customJobRequest =
  creq_URLs :: "bytes list"
  creq_MaxDepth :: "int option"
  creq_MaxPages :: "int option"
  creq_BudgetSeconds :: "int option"
  creq_HeadlessAllowed :: "bool option"
  creq_RespectRobots :: "bool option"
  creq_PerDomainCaps :: "(bytes \<times> int) list option"
  creq_Tags :: "(bytes \<times> bytes) list option"
  creq_AllowDomains :: "bytes list"
  creq_DenyDomains :: "bytes list"

definition zero_customJobRequest :: customJobRequest where
  "zero_customJobRequest = \<lparr>creq_URLs = [], creq_MaxDepth = None, creq_MaxPages = None, creq_BudgetSeconds = None,
     creq_HeadlessAllowed = None, creq_RespectRobots = None, creq_PerDomainCaps = None, creq_Tags = None,
     creq_AllowDomains = [], creq_DenyDomains = []\<rparr>"

subsection \<open>Decoding\<close>

definition key_matches :: "bytes \<Rightarrow> bytes \<Rightarrow> bool" where
  "key_matches name key \<longleftrightarrow> key = name \<or> map fold_rune (runes key) = map fold_rune (runes name)"

fun dec_int :: "json \<Rightarrow> int option" where
  "dec_int (JInt i) = (if in_i64 i then Some i else None)"
| "dec_int _ = None"

fun dec_intptr :: "json \<Rightarrow> int option option" where
  "dec_intptr JNull = Some None"
| "dec_intptr v = map_option Some (dec_int v)"

fun dec_boolptr :: "json \<Rightarrow> bool option option" where
  "dec_boolptr JNull = Some None"
| "dec_boolptr (JBool b) = Some (Some b)"
| "dec_boolptr _ = None"

fun dec_string :: "json \<Rightarrow> bytes option" where
  "dec_string JNull = Some ''''"
| "dec_string (JStr s) = Some s"
| "dec_string _ = None"

fun dec_all :: "(json \<Rightarrow> 'a option) \<Rightarrow> json list \<Rightarrow> 'a list option" where
  "dec_all f [] = Some []"
| "dec_all f (v # vs) = (case f v of None \<Rightarrow> None | Some x \<Rightarrow> map_option ((#) x) (dec_all f vs))"

fun dec_strings :: "json \<Rightarrow> bytes list option" where
  "dec_strings JNull = Some []"
| "dec_strings (JArr vs) = dec_all dec_string vs"
| "dec_strings _ = None"

text \<open>An object into a map: the entries are added one after the other.\<close>

fun dec_entries :: "(json \<Rightarrow> 'a option) \<Rightarrow> (bytes \<times> json) list \<Rightarrow> (bytes \<times> 'a) list \<Rightarrow> (bytes \<times> 'a) list option" where
  "dec_entries f [] m = Some m"
| "dec_entries f ((k, v) # kvs) m =
     (case f v of None \<Rightarrow> None | Some x \<Rightarrow> dec_entries f kvs (AList.update k x m))"

fun dec_map :: "(json \<Rightarrow> 'a option) \<Rightarrow> json \<Rightarrow> (bytes \<times> 'a) list option \<Rightarrow> (bytes \<times> 'a) list option option" where
  "dec_map f JNull old = Some None"
| "dec_map f (JObj kvs) old = map_option Some (dec_entries f kvs (case old of None \<Rightarrow> [] | Some m \<Rightarrow> m))"
| "dec_map f _ old = None"

fun dec_elem_int :: "json \<Rightarrow> int option" where
  "dec_elem_int JNull = Some 0"
| "dec_elem_int v = dec_int v"

definition dec_field :: "bytes \<Rightarrow> json \<Rightarrow> customJobRequest \<Rightarrow> customJobRequest option" where
  "dec_field key v r =
     (if key_matches ''urls'' key then map_option (\<lambda>x. r\<lparr>creq_URLs := x\<rparr>) (dec_strings v)
      else if key_matches ''max_depth'' key then map_option (\<lambda>x. r\<lparr>creq_MaxDepth := x\<rparr>) (dec_intptr v)
      else if key_matches ''max_pages'' key then map_option (\<lambda>x. r\<lparr>creq_MaxPages := x\<rparr>) (dec_intptr v)
      else if key_matches ''budget_seconds'' key then map_option (\<lambda>x. r\<lparr>creq_BudgetSeconds := x\<rparr>) (dec_intptr v)
      else if key_matches ''headless_allowed'' key then map_option (\<lambda>x. r\<lparr>creq_HeadlessAllowed := x\<rparr>) (dec_boolptr v)
      else if key_matches ''respect_robots'' key then map_option (\<lambda>x. r\<lparr>creq_RespectRobots := x\<rparr>) (dec_boolptr v)
      else if key_matches ''per_domain_caps'' key then
        map_option (\<lambda>x. r\<lparr>creq_PerDomainCaps := x\<rparr>) (dec_map dec_elem_int v (creq_PerDomainCaps r))
      else if key_matches ''tags'' key then
        map_option (\<lambda>x. r\<lparr>creq_Tags := x\<rparr>) (dec_map dec_string v (creq_Tags r))
      else if key_matches ''allow_domains'' key then map_option (\<lambda>x. r\<lparr>creq_AllowDomains := x\<rparr>) (dec_strings v)
      else if key_matches ''deny_domains'' key then map_option (\<lambda>x. r\<lparr>creq_DenyDomains := x\<rparr>) (dec_strings v)
      else Some r)"

fun dec_fields :: "(bytes \<times> json) list \<Rightarrow> customJobRequest \<Rightarrow> customJobRequest option" where
  "dec_fields [] r = Some r"
| "dec_fields ((k, v) # kvs) r = (case dec_field k v r of None \<Rightarrow> None | Some r' \<Rightarrow> dec_fields kvs r')"

fun decode_custom :: "json \<Rightarrow> customJobRequest option" where
  "decode_custom JNull = Some zero_customJobRequest"
| "decode_custom (JObj kvs) = dec_fields kvs zero_customJobRequest"
| "decode_custom _ = None"

fun dec_name :: "(bytes \<times> json) list \<Rightarrow> bytes \<Rightarrow> bytes option" where
  "dec_name [] name = Some name"
| "dec_name ((k, v) # kvs) name =
     (if key_matches ''name'' k then
        (case v of JNull \<Rightarrow> dec_name kvs name | JStr s \<Rightarrow> dec_name kvs s | _ \<Rightarrow> None)
      else dec_name kvs name)"

fun decode_standard :: "json \<Rightarrow> standardJobRequest option" where
  "decode_standard JNull = Some \<lparr>sreq_Name = ''''\<rparr>"
| "decode_standard (JObj kvs) = map_option (\<lambda>n. \<lparr>sreq_Name = n\<rparr>) (dec_name kvs '''')"
| "decode_standard _ = None"

subsection \<open>Defaults\<close>

definition valueOrDefault :: "'a option \<Rightarrow> 'a \<Rightarrow> 'a" where
  "valueOrDefault ptr def = (case ptr of None \<Rightarrow> def | Some x \<Rightarrow> x)"

definition boolOrDefault :: "bool option \<Rightarrow> bool \<Rightarrow> bool" where
  "boolOrDefault ptr def = (case ptr of None \<Rightarrow> def | Some x \<Rightarrow> x)"

definition applyDefaults :: "ServiceConfig \<Rightarrow> JobParameters \<Rightarrow> JobParameters" where
  "applyDefaults cfg params0 =
     (let p1 = (if MaxDepth params0 = 0 then params0\<lparr>MaxDepth := MaxDepthDefault (cfg_Crawler cfg)\<rparr> else params0);
          p2 = (if MaxPages p1 = 0 then p1\<lparr>MaxPages := MaxPagesDefault (cfg_Crawler cfg)\<rparr> else p1);
          p3 = (if BudgetSeconds p2 = 0 then p2\<lparr>BudgetSeconds := http_TimeoutSeconds (cfg_HTTP cfg)\<rparr> else p2);
          p4 = (if \<not> HeadlessProvided p3
                then p3\<lparr>HeadlessAllowed := hl_Enabled (cfg_Headless cfg), HeadlessProvided := True\<rparr> else p3);
          p5 = (if \<not> RespectRobotsProvided p4
                then p4\<lparr>RespectRobots := \<not> IgnoreRobots (cfg_Crawler cfg), RespectRobotsProvided := True\<rparr> else p4);
          p6 = (if PerDomainCaps p5 = None then p5\<lparr>PerDomainCaps := Some []\<rparr> else p5)
      in if Tags p6 = None then p6\<lparr>Tags := Some []\<rparr> else p6)"

definition toJobParameters :: "ServiceConfig \<Rightarrow> customJobRequest \<Rightarrow> JobParameters result" where
  "toJobParameters cfg req =
     (if creq_URLs req = [] then Inl (ErrorString ''urls required'')
      else Inr (applyDefaults cfg
        \<lparr>URLs = creq_URLs req,
         MaxDepth = valueOrDefault (creq_MaxDepth req) (MaxDepthDefault (cfg_Crawler cfg)),
         MaxPages = valueOrDefault (creq_MaxPages req) (MaxPagesDefault (cfg_Crawler cfg)),
         BudgetSeconds = valueOrDefault (creq_BudgetSeconds req) (http_TimeoutSeconds (cfg_HTTP cfg)),
         HeadlessAllowed = boolOrDefault (creq_HeadlessAllowed req) (hl_Enabled (cfg_Headless cfg)),
         HeadlessProvided = (creq_HeadlessAllowed req \<noteq> None),
         RespectRobots = boolOrDefault (creq_RespectRobots req) (\<not> IgnoreRobots (cfg_Crawler cfg)),
         RespectRobotsProvided = (creq_RespectRobots req \<noteq> None),
         PerDomainCaps = creq_PerDomainCaps req, Tags = creq_Tags req,
         AllowDomains = creq_AllowDomains req, DenyDomains = creq_DenyDomains req\<rparr>))"

definition cloneStringSlice :: "bytes list \<Rightarrow> bytes list" where
  "cloneStringSlice src = (if src = [] then [] else src)"

definition clone_map :: "('k \<times> 'v) list \<Rightarrow> ('k \<times> 'v) list" where
  "clone_map src = fold (\<lambda>(k, v) cp. AList.update k v cp) src []"

definition cloneJobParameters :: "JobParameters \<Rightarrow> JobParameters" where
  "cloneJobParameters src =
     src\<lparr>URLs := cloneStringSlice (URLs src), AllowDomains := cloneStringSlice (AllowDomains src),
        DenyDomains := cloneStringSlice (DenyDomains src),
        PerDomainCaps := map_option clone_map (PerDomainCaps src), Tags := map_option clone_map (Tags src)\<rparr>"

subsection \<open>Lemmas\<close>

lemma applyDefaults_simps [simp]:
  "URLs (applyDefaults cfg p) = URLs p" "AllowDomains (applyDefaults cfg p) = AllowDomains p"
  "DenyDomains (applyDefaults cfg p) = DenyDomains p"
  "MaxDepth (applyDefaults cfg p) = (if MaxDepth p = 0 then MaxDepthDefault (cfg_Crawler cfg) else MaxDepth p)"
  "MaxPages (applyDefaults cfg p) = (if MaxPages p = 0 then MaxPagesDefault (cfg_Crawler cfg) else MaxPages p)"
  "BudgetSeconds (applyDefaults cfg p) = (if BudgetSeconds p = 0 then http_TimeoutSeconds (cfg_HTTP cfg) else BudgetSeconds p)"
  "HeadlessProvided (applyDefaults cfg p)" "RespectRobotsProvided (applyDefaults cfg p)"
  "HeadlessAllowed (applyDefaults cfg p) = (if HeadlessProvided p then HeadlessAllowed p else hl_Enabled (cfg_Headless cfg))"
  "RespectRobots (applyDefaults cfg p) = (if RespectRobotsProvided p then RespectRobots p else \<not> IgnoreRobots (cfg_Crawler cfg))"
  "PerDomainCaps (applyDefaults cfg p) = Some (case PerDomainCaps p of None \<Rightarrow> [] | Some m \<Rightarrow> m)"
  "Tags (applyDefaults cfg p) = Some (case Tags p of None \<Rightarrow> [] | Some m \<Rightarrow> m)"
  by (auto simp: applyDefaults_def Let_def)

lemma applyDefaults_idem: "applyDefaults cfg (applyDefaults cfg p) = applyDefaults cfg p"
  by (rule JobParameters.equality) auto

lemma update_new: "k \<notin> fst ` set m \<Longrightarrow> AList.update k v m = m @ [(k, v)]"
  by (induction m) auto

lemma clone_map_id: "distinct (map fst m) \<Longrightarrow> clone_map m = m"
proof -
  have "distinct (map fst (acc @ m)) \<Longrightarrow> fold (\<lambda>(k, v) cp. AList.update k v cp) m acc = acc @ m" for acc
    by (induction m arbitrary: acc) (auto simp: update_new image_iff)
  from this[of "[]"] show "distinct (map fst m) \<Longrightarrow> clone_map m = m" by (simp add: clone_map_def)
qed

end
