(* ===== verification/Api.thy ===== *)
theory Api
  imports ApiRequests JobStore Dispatcher ProgressRepo Telemetry
begin

text \<open>
  The HTTP API (internal/api/server.go and progress_handlers.go): handlers, middleware and routes over
  the in-memory job store, the queue, the progress repository, the request metrics and the access log. A handler maps
  a request and a state to the possible responses and states; only the \<^verbatim>\<open>select\<close> of the queue makes more
  than one possible. \<open>Env\<close> carries what one request reads from its surroundings. The router
  (package chi) and the UUID package are parameters: a request has the pattern it was routed to.
\<close>

subsection \<open>Requests, responses, state\<close>

record jobDTO =
  jd_ID :: bytes
  jd_JobID :: bytes
  jd_StartedAt :: timestamp
  jd_FinishedAt :: "timestamp option"
  jd_Status :: bytes
  jd_Error :: "bytes option"

record siteDTO =
  sd_Site :: bytes
  sd_LastUpdate :: timestamp
  sd_Visits :: int
  sd_BytesTotal :: int
  sd_Fetch2xx :: int
  sd_Fetch3xx :: int
  sd_Fetch4xx :: int
  sd_Fetch5xx :: int

datatype Payload =
    StringMap "(bytes \<times> bytes) list"
  | JobBody Job
  | ResultBody JobResult
  | RunsBody "jobDTO list"
  | RunBody jobDTO
  | SitesBody "siteDTO list"
  | TextBody bytes
  | Exposition

record Response =
  rs_Status :: int
  rs_Header :: "(bytes \<times> bytes) list"
  rs_Payload :: Payload

record Request =
  rq_Method :: bytes
  rq_Pattern :: bytes
  rq_URL :: url
  rq_Header :: "bytes \<Rightarrow> bytes"
  rq_JobID :: bytes
  rq_Body :: "json option"
  rq_RequestID :: "bytes option"

text \<open>The identifier is the value that the request's context holds for \<^verbatim>\<open>requestIDKey\<close>.\<close>

record access =
  acc_Method :: bytes
  acc_Path :: bytes
  acc_Status :: int
  acc_Duration :: duration
  acc_RequestID :: bytes
  acc_TraceID :: "bytes option"

record Env =
  env_requestID :: bytes
  env_newID :: "bytes result"
  env_now :: timestamp
  env_queueDone :: "error option"
  env_timedOut :: bool
  env_elapsed :: duration
  env_logElapsed :: duration
  env_traceID :: "bytes option"
  env_noRoute :: Response

record 'r Server =
  s_cfg :: ServiceConfig
  s_repo :: "'r ProgressRepository option"
  s_parseUUID :: "bytes \<Rightarrow> uuid option"
  s_uuidString :: "uuid \<Rightarrow> bytes"
  s_tab :: "rune \<Rightarrow> rune"

record 'r ApiState =
  api_jobs :: JobStore
  api_queue :: Queue
  api_repo :: 'r
  api_metrics :: Metrics
  api_log :: "access list"

datatype 'a outcome = Returns 'a | Panics

type_synonym 'r handled = "Response outcome \<times> 'r ApiState"

subsection \<open>Writing responses\<close>

definition writeJSON :: "int \<Rightarrow> Payload \<Rightarrow> Response" where
  "writeJSON status payload =
     \<lparr>rs_Status = status, rs_Header = [(''Content-Type'', ''application/json'')], rs_Payload = payload\<rparr>"

definition writeError :: "int \<Rightarrow> bytes \<Rightarrow> Response" where
  "writeError status msg = writeJSON status (StringMap [(''error'', msg)])"

abbreviation respond :: "Response \<Rightarrow> 'r ApiState \<Rightarrow> 'r handled list" where
  "respond r s \<equiv> [(Returns r, s)]"

subsection \<open>Job endpoints\<close>

definition healthz :: "'r ApiState \<Rightarrow> 'r handled list" where
  "healthz s = respond (writeJSON 200 (StringMap [(''status'', ''ok'')])) s"

definition readyz :: "'r ApiState \<Rightarrow> 'r handled list" where
  "readyz s = respond (writeJSON 200 (StringMap [(''status'', ''ready'')])) s"

definition new_job :: "bytes \<Rightarrow> timestamp \<Rightarrow> JobParameters \<Rightarrow> Job" where
  "new_job jobID now params =
     \<lparr>job_ID = jobID, job_Status = JobStatusQueued, job_Submitted = now, job_Started = None, job_Finished = None,
      job_ErrorText = '''', job_Parameters = params, job_Counters = zero_counters\<rparr>"

definition new_item :: "bytes \<Rightarrow> timestamp \<Rightarrow> JobParameters \<Rightarrow> QueueItem" where
  "new_item jobID now params =
     \<lparr>item_JobID = jobID, item_JobStartedAt = now, item_Params = params, item_Attempt = 1,
      item_Submitted = time_Unix now\<rparr>"

definition enqueueJob :: "Env \<Rightarrow> JobParameters \<Rightarrow> 'r ApiState \<Rightarrow> (bytes result outcome \<times> 'r ApiState) list" where
  "enqueueJob env params s =
     (if URLs params = [] then [(Returns (Inl (ErrorString ''at least one URL required'')), s)]
      else
        case env_newID env of
          Inl e \<Rightarrow> [(Returns (Inl (Wrapped ''generate job id'' e)), s)]
        | Inr jobID \<Rightarrow>
            let now = env_now env in
            case CreateJob (new_job jobID now params) (api_jobs s) of
              (Inl e, _) \<Rightarrow> [(Returns (Inl (Wrapped ''create job'' e)), s)]
            | (Inr _, jobs) \<Rightarrow>
                map (\<lambda>(out, q). (case out of
                       EnqueuePanicked \<Rightarrow> Panics
                     | EnqueueReturned (Inl e) \<Rightarrow> Returns (Inl (Wrapped ''enqueue job'' e))
                     | EnqueueReturned (Inr _) \<Rightarrow> Returns (Inr jobID),
                     s\<lparr>api_jobs := jobs, api_queue := q\<rparr>))
                  (dispatcher_Enqueue (env_queueDone env) (new_item jobID now params) (api_queue s)))"

definition submitCustomJob :: "'r Server \<Rightarrow> Env \<Rightarrow> Request \<Rightarrow> 'r ApiState \<Rightarrow> 'r handled list" where
  "submitCustomJob srv env r s =
     (case Option.bind (rq_Body r) decode_custom of
        None \<Rightarrow> respond (writeError 400 ''invalid JSON'') s
      | Some req \<Rightarrow>
          case toJobParameters (s_cfg srv) req of
            Inl e \<Rightarrow> respond (writeError 400 (Error e)) s
          | Inr params \<Rightarrow>
              map (\<lambda>(out, s'). (case out of
                     Panics \<Rightarrow> Panics
                   | Returns (Inl e) \<Rightarrow>
                       Returns (writeError (if errors_Is e ContextDeadlineExceeded then 408 else 500) (Error e))
                   | Returns (Inr jobID) \<Rightarrow> Returns (writeJSON 202 (StringMap [(''job_id'', jobID)])), s'))
                (enqueueJob env params s))"

definition submitStandardJob :: "'r Server \<Rightarrow> Env \<Rightarrow> Request \<Rightarrow> 'r ApiState \<Rightarrow> 'r handled list" where
  "submitStandardJob srv env r s =
     (case Option.bind (rq_Body r) decode_standard of
        None \<Rightarrow> respond (writeError 400 ''missing job name'') s
      | Some req \<Rightarrow>
          if sreq_Name req = '''' then respond (writeError 400 ''missing job name'') s
          else
            case StandardJobs (s_cfg srv) (sreq_Name req) of
              None \<Rightarrow> respond (writeError 404 ''standard job template not found'') s
            | Some templateParams \<Rightarrow>
                map (\<lambda>(out, s'). (case out of
                       Panics \<Rightarrow> Panics
                     | Returns (Inl e) \<Rightarrow> Returns (writeError 500 (Error e))
                     | Returns (Inr jobID) \<Rightarrow> Returns (writeJSON 202 (StringMap [(''job_id'', jobID)])), s'))
                  (enqueueJob env (applyDefaults (s_cfg srv) (cloneJobParameters templateParams)) s))"

definition getJobStatus :: "Request \<Rightarrow> 'r ApiState \<Rightarrow> 'r handled list" where
  "getJobStatus r s =
     (case GetJob (rq_JobID r) (api_jobs s) of
        Inl _ \<Rightarrow> respond (writeError 404 ''job not found'') s
      | Inr job \<Rightarrow> respond (writeJSON 200 (JobBody job)) s)"

definition getJobResult :: "Request \<Rightarrow> 'r ApiState \<Rightarrow> 'r handled list" where
  "getJobResult r s =
     (case GetJob (rq_JobID r) (api_jobs s) of
        Inl _ \<Rightarrow> respond (writeError 404 ''job not found'') s
      | Inr job \<Rightarrow>
          case ListPages (rq_JobID r) (api_jobs s) of
            Inl _ \<Rightarrow> respond (writeError 500 ''failed to fetch job pages'') s
          | Inr pages \<Rightarrow> respond (writeJSON 200 (ResultBody \<lparr>res_Job = job, res_Pages = pages\<rparr>)) s)"

definition cancelJob :: "Env \<Rightarrow> Request \<Rightarrow> 'r ApiState \<Rightarrow> 'r handled list" where
  "cancelJob env r s =
     (case UpdateJobStatus (env_now env) (rq_JobID r) JobStatusCanceled ''canceled via API'' zero_counters (api_jobs s) of
        (Inl _, jobs) \<Rightarrow> respond (writeError 404 ''job not found'') (s\<lparr>api_jobs := jobs\<rparr>)
      | (Inr _, jobs) \<Rightarrow>
          respond (writeJSON 200 (StringMap [(''job_id'', rq_JobID r), (''status'', JobStatus_string JobStatusCanceled)]))
            (s\<lparr>api_jobs := jobs\<rparr>))"

subsection \<open>Progress endpoints\<close>

definition defaultJobLimit :: int where "defaultJobLimit = 50"
definition maxJobLimit :: int where "maxJobLimit = 500"
definition defaultSitesLimit :: int where "defaultSitesLimit = 100"
definition maxSitesLimit :: int where "maxSitesLimit = 1000"

definition parseJobID :: "'r Server \<Rightarrow> Request \<Rightarrow> uuid result" where
  "parseJobID srv r =
     (if rq_JobID r = '''' then Inl (ErrorString ''job_id is required'')
      else case s_parseUUID srv (rq_JobID r) of
             None \<Rightarrow> Inl (ErrorString ''invalid job_id'')
           | Some jobID \<Rightarrow> Inr jobID)"

definition parse_limit :: "url_values \<Rightarrow> int \<Rightarrow> int \<Rightarrow> int result" where
  "parse_limit q def maxLimit =
     (let limStr = Values_Get q ''limit'' in
      if limStr = '''' then Inr def
      else case strconv_Atoi limStr of
             Inl _ \<Rightarrow> Inl (ErrorString ''invalid limit'')
           | Inr val \<Rightarrow>
               if val \<le> 0 then Inl (ErrorString ''invalid limit'')
               else Inr (if maxLimit < val then maxLimit else val))"

definition parse_offset :: "url_values \<Rightarrow> int result" where
  "parse_offset q =
     (let offStr = Values_Get q ''offset'' in
      if offStr = '''' then Inr 0
      else case strconv_Atoi offStr of
             Inl _ \<Rightarrow> Inl (ErrorString ''invalid offset'')
           | Inr val \<Rightarrow> if val < 0 then Inl (ErrorString ''invalid offset'') else Inr val)"

definition parseLimitOffset :: "Request \<Rightarrow> int \<Rightarrow> int \<Rightarrow> (int \<times> int) result" where
  "parseLimitOffset r def maxLimit =
     (let q = url_Query (rq_URL r) in
      case parse_limit q def maxLimit of
        Inl e \<Rightarrow> Inl e
      | Inr limit \<Rightarrow> (case parse_offset q of Inl e \<Rightarrow> Inl e | Inr offset \<Rightarrow> Inr (limit, offset)))"

definition parseStatus :: "(rune \<Rightarrow> rune) \<Rightarrow> bytes \<Rightarrow> JobRunStatus result" where
  "parseStatus tab input =
     (let low = strings_ToLower tab input in
      if low = '''' \<or> low = ''running'' then Inr RunRunning
      else if low = ''success'' then Inr RunSuccess
      else if low = ''error'' \<or> low = ''failed'' \<or> low = ''failure'' then Inr RunError
      else Inl (ErrorString ''invalid status''))"

definition toJobDTO :: "'r Server \<Rightarrow> JobRun \<Rightarrow> jobDTO" where
  "toJobDTO srv job =
     \<lparr>jd_ID = s_uuidString srv (run_ID job), jd_JobID = s_uuidString srv (run_JobID job),
      jd_StartedAt = run_StartedAt job, jd_FinishedAt = run_FinishedAt job, jd_Status = run_Status job,
      jd_Error = run_ErrorMessage job\<rparr>"

definition toJobDTOs :: "'r Server \<Rightarrow> JobRun list \<Rightarrow> jobDTO list" where
  "toJobDTOs srv jobs = map (toJobDTO srv) jobs"

definition toSiteDTOs :: "SiteStats list \<Rightarrow> siteDTO list" where
  "toSiteDTOs sites = map (\<lambda>s.
     \<lparr>sd_Site = st_Site s, sd_LastUpdate = st_LastUpdate s, sd_Visits = st_Visits s, sd_BytesTotal = st_BytesTotal s,
      sd_Fetch2xx = st_Fetch2xx s, sd_Fetch3xx = st_Fetch3xx s, sd_Fetch4xx = st_Fetch4xx s,
      sd_Fetch5xx = st_Fetch5xx s\<rparr>) sites"

definition status_filter :: "'r Server \<Rightarrow> Request \<Rightarrow> JobRunStatus option result" where
  "status_filter srv r =
     (let statusParam = strings_TrimSpace (Values_Get (url_Query (rq_URL r)) ''status'') in
      if statusParam = '''' then Inr None
      else case parseStatus (s_tab srv) statusParam of Inl e \<Rightarrow> Inl e | Inr v \<Rightarrow> Inr (Some v))"

definition progress_ListJobs :: "'r Server \<Rightarrow> Request \<Rightarrow> 'r ApiState \<Rightarrow> 'r handled list" where
  "progress_ListJobs srv r s =
     (case s_repo srv of
        None \<Rightarrow> respond (writeError 503 ''progress repository unavailable'') s
      | Some repo \<Rightarrow>
          case parseLimitOffset r defaultJobLimit maxJobLimit of
            Inl e \<Rightarrow> respond (writeError 400 (Error e)) s
          | Inr (limit, offset) \<Rightarrow>
              case status_filter srv r of
                Inl e \<Rightarrow> respond (writeError 400 (Error e)) s
              | Inr status \<Rightarrow>
                  case repo_ListJobs repo status limit offset (api_repo s) of
                    (Inl _, db) \<Rightarrow> respond (writeError 500 ''failed to list jobs'') (s\<lparr>api_repo := db\<rparr>)
                  | (Inr jobs, db) \<Rightarrow>
                      respond (writeJSON 200 (RunsBody (toJobDTOs srv jobs))) (s\<lparr>api_repo := db\<rparr>))"

definition progress_GetJob :: "'r Server \<Rightarrow> Request \<Rightarrow> 'r ApiState \<Rightarrow> 'r handled list" where
  "progress_GetJob srv r s =
     (case s_repo srv of
        None \<Rightarrow> respond (writeError 503 ''progress repository unavailable'') s
      | Some repo \<Rightarrow>
          case parseJobID srv r of
            Inl e \<Rightarrow> respond (writeError 400 (Error e)) s
          | Inr jobID \<Rightarrow>
              case repo_GetJob repo jobID (api_repo s) of
                (Inl e, db) \<Rightarrow>
                  respond (if errors_Is e ErrNotFound then writeError 404 ''job not found''
                           else writeError 500 ''failed to load job'') (s\<lparr>api_repo := db\<rparr>)
              | (Inr job, db) \<Rightarrow> respond (writeJSON 200 (RunBody (toJobDTO srv job))) (s\<lparr>api_repo := db\<rparr>))"

definition progress_ListJobSites :: "'r Server \<Rightarrow> Request \<Rightarrow> 'r ApiState \<Rightarrow> 'r handled list" where
  "progress_ListJobSites srv r s =
     (case s_repo srv of
        None \<Rightarrow> respond (writeError 503 ''progress repository unavailable'') s
      | Some repo \<Rightarrow>
          case parseJobID srv r of
            Inl e \<Rightarrow> respond (writeError 400 (Error e)) s
          | Inr jobID \<Rightarrow>
              case parseLimitOffset r defaultSitesLimit maxSitesLimit of
                Inl e \<Rightarrow> respond (writeError 400 (Error e)) s
              | Inr (limit, offset) \<Rightarrow>
                  case repo_ListJobSites repo jobID limit offset (api_repo s) of
                    (Inl _, db) \<Rightarrow> respond (writeError 500 ''failed to list job sites'') (s\<lparr>api_repo := db\<rparr>)
                  | (Inr sites, db) \<Rightarrow>
                      respond (writeJSON 200 (SitesBody (toSiteDTOs sites))) (s\<lparr>api_repo := db\<rparr>))"

subsection \<open>Routes and middleware\<close>

datatype endpoint =
    Healthz | Readyz | MetricsHandler | ListJobsE | GetJobE | ListJobSitesE
  | SubmitCustom | SubmitStandard | JobStatusE | JobResultE | CancelE

text \<open>The method \<^verbatim>\<open>*\<close> stands for every method (\<^verbatim>\<open>r.Handle\<close>).\<close>

definition routes :: "ServiceConfig \<Rightarrow> ((bytes \<times> bytes) \<times> endpoint) list" where
  "routes cfg =
     [((''GET'', ''/healthz''), Healthz), ((''GET'', ''/readyz''), Readyz)]
     @ (if met_Enabled (cfg_Metrics cfg) then [((''*'', met_Path (cfg_Metrics cfg)), MetricsHandler)] else [])
     @ [((''GET'', ''/api/jobs''), ListJobsE), ((''GET'', ''/api/jobs/{job_id}''), GetJobE),
        ((''GET'', ''/api/jobs/{job_id}/sites''), ListJobSitesE),
        ((''POST'', ''/v1/jobs/custom''), SubmitCustom), ((''POST'', ''/v1/jobs/standard''), SubmitStandard),
        ((''GET'', ''/v1/jobs/{job_id}/status''), JobStatusE), ((''GET'', ''/v1/jobs/{job_id}/result''), JobResultE),
        ((''POST'', ''/v1/jobs/{job_id}/cancel''), CancelE)]"

definition routed :: "ServiceConfig \<Rightarrow> Request \<Rightarrow> endpoint option" where
  "routed cfg r =
     map_option snd (find (\<lambda>((m, p), _). p = rq_Pattern r \<and> (m = rq_Method r \<or> m = ''*'')) (routes cfg))"

fun endpoint_handler :: "'r Server \<Rightarrow> Env \<Rightarrow> endpoint \<Rightarrow> Request \<Rightarrow> 'r ApiState \<Rightarrow> 'r handled list" where
  "endpoint_handler srv env Healthz r s = healthz s"
| "endpoint_handler srv env Readyz r s = readyz s"
| "endpoint_handler srv env MetricsHandler r s =
     respond \<lparr>rs_Status = 200, rs_Header = [], rs_Payload = Exposition\<rparr> s"
| "endpoint_handler srv env ListJobsE r s = progress_ListJobs srv r s"
| "endpoint_handler srv env GetJobE r s = progress_GetJob srv r s"
| "endpoint_handler srv env ListJobSitesE r s = progress_ListJobSites srv r s"
| "endpoint_handler srv env SubmitCustom r s = submitCustomJob srv env r s"
| "endpoint_handler srv env SubmitStandard r s = submitStandardJob srv env r s"
| "endpoint_handler srv env JobStatusE r s = getJobStatus r s"
| "endpoint_handler srv env JobResultE r s = getJobResult r s"
| "endpoint_handler srv env CancelE r s = cancelJob env r s"

type_synonym 'r http_handler = "Request \<Rightarrow> 'r ApiState \<Rightarrow> 'r handled list"

definition apiKeyMiddleware :: "bytes \<Rightarrow> 'r http_handler \<Rightarrow> 'r http_handler" where
  "apiKeyMiddleware expected next r s =
     (let key0 = rq_Header r ''X-API-Key'';
          key = (if key0 = '''' then Values_Get (url_Query (rq_URL r)) ''api_key'' else key0)
      in if key \<noteq> expected then respond (writeError 403 ''unauthorized'') s else next r s)"

text \<open>\<^verbatim>\<open>http.TimeoutHandler\<close>: when the handler is late its response is replaced, its effects remain; a
  panic in time is passed on.\<close>

definition timeoutMiddleware :: "Env \<Rightarrow> 'r http_handler \<Rightarrow> 'r http_handler" where
  "timeoutMiddleware env next r s =
     map (\<lambda>(out, s'). (if env_timedOut env
        then Returns \<lparr>rs_Status = 503, rs_Header = [], rs_Payload = TextBody ''request timed out''\<rparr> else out, s'))
       (next r s)"

definition recoverMiddleware :: "'r http_handler \<Rightarrow> 'r http_handler" where
  "recoverMiddleware next r s =
     map (\<lambda>(out, s'). (case out of
        Panics \<Rightarrow> Returns (writeError 500 ''internal server error'') | Returns resp \<Rightarrow> Returns resp, s')) (next r s)"

text \<open>The writers that two middleware functions put around the server's remember the status code; what is
  written is passed on, which in the model is the response returned. A code of 200 that is never
  written explicitly is the initial value.\<close>

record statusRecorder =
  rec_statusCode :: int

definition statusRecorder_WriteHeader :: "int \<Rightarrow> statusRecorder \<Rightarrow> statusRecorder" where
  "statusRecorder_WriteHeader c rec = rec\<lparr>rec_statusCode := c\<rparr>"

record responseWriter =
  rw_status :: int

definition responseWriter_WriteHeader :: "int \<Rightarrow> responseWriter \<Rightarrow> responseWriter" where
  "responseWriter_WriteHeader c rw = rw\<lparr>rw_status := c\<rparr>"

definition telemetry_Middleware :: "Env \<Rightarrow> 'r http_handler \<Rightarrow> 'r http_handler" where
  "telemetry_Middleware env next r s =
     map (\<lambda>(out, s'). case out of
        Panics \<Rightarrow> (Panics, s')
      | Returns resp \<Rightarrow>
          let ww = statusRecorder_WriteHeader (rs_Status resp) \<lparr>rec_statusCode = 200\<rparr> in
          (Returns resp, s'\<lparr>api_metrics := ObserveHTTPRequest (rq_Method r)
             (if rq_Pattern r = '''' then ''unknown'' else rq_Pattern r) (rec_statusCode ww) (env_elapsed env)
             (api_metrics s')\<rparr>)) (next r s)"

text \<open>The copy of this function in internal/middleware, which the service does not install, with the
  writer type of its own.\<close>

definition metrics_Middleware :: "Env \<Rightarrow> 'r http_handler \<Rightarrow> 'r http_handler" where
  "metrics_Middleware env next r s =
     map (\<lambda>(out, s'). case out of
        Panics \<Rightarrow> (Panics, s')
      | Returns resp \<Rightarrow>
          let ww = responseWriter_WriteHeader (rs_Status resp) \<lparr>rw_status = 200\<rparr>;
              routePattern = (if rq_Pattern r = '''' then ''unknown'' else rq_Pattern r)
          in (Returns resp, s'\<lparr>api_metrics :=
               ObserveHTTPRequest (rq_Method r) routePattern (rw_status ww) (env_elapsed env) (api_metrics s')\<rparr>)) (next r s)"

definition requestIDFromContext :: "Request \<Rightarrow> bytes" where
  "requestIDFromContext r = (case rq_RequestID r of Some v \<Rightarrow> v | None \<Rightarrow> '''')"

definition routeLabel :: "Request \<Rightarrow> bytes" where
  "routeLabel r = (if rq_Pattern r \<noteq> '''' then rq_Pattern r else Path (rq_URL r))"

definition loggingMiddleware :: "Env \<Rightarrow> 'r http_handler \<Rightarrow> 'r http_handler" where
  "loggingMiddleware env next r s =
     map (\<lambda>(out, s'). case out of
        Panics \<Rightarrow> (Panics, s')
      | Returns resp \<Rightarrow>
          let ww = responseWriter_WriteHeader (rs_Status resp) \<lparr>rw_status = 200\<rparr> in
          (Returns resp, s'\<lparr>api_log := api_log s' @
             [\<lparr>acc_Method = rq_Method r, acc_Path = routeLabel r, acc_Status = rw_status ww,
               acc_Duration = env_logElapsed env, acc_RequestID = requestIDFromContext r,
               acc_TraceID = env_traceID env\<rparr>]\<rparr>)) (next r s)"

definition requestIDMiddleware :: "Env \<Rightarrow> 'r http_handler \<Rightarrow> 'r http_handler" where
  "requestIDMiddleware env next r s =
     map (\<lambda>(out, s'). (case out of
        Panics \<Rightarrow> Panics
      | Returns resp \<Rightarrow> Returns (resp\<lparr>rs_Header := (''X-Request-ID'', env_requestID env) # rs_Header resp\<rparr>), s'))
       (next (r\<lparr>rq_RequestID := Some (env_requestID env)\<rparr>) s)"

text \<open>The router behind the middleware; a request that matches no route gets the router's own answer.\<close>

definition route :: "'r Server \<Rightarrow> Env \<Rightarrow> 'r http_handler" where
  "route srv env r s =
     (case routed (s_cfg srv) r of
        None \<Rightarrow> respond (env_noRoute env) s
      | Some e \<Rightarrow> endpoint_handler srv env e r s)"

definition ServeHTTP :: "'r Server \<Rightarrow> Env \<Rightarrow> 'r http_handler" where
  "ServeHTTP srv env =
     requestIDMiddleware env (telemetry_Middleware env (loggingMiddleware env (recoverMiddleware
       (timeoutMiddleware env
          (if auth_Enabled (cfg_Auth (s_cfg srv)) then apiKeyMiddleware (APIKey (cfg_Auth (s_cfg srv))) (route srv env)
           else route srv env)))))"

end
