(* ===== verification/ApiSpecs.thy ===== *)
theory ApiSpecs
  imports Api
begin

text \<open>
  What a request to the API can do: the possible effects of every handler on the state and the response
  that goes with each, carried through the middleware; the requests that are always answered; the bounds
  of the progress listings.
\<close>

subsection \<open>Submissions\<close>

lemma dispatcher_Enqueue_outcomes:
  assumes "(out, q') \<in> set (dispatcher_Enqueue done item q)"
  shows "(out = EnqueueReturned (Inr ()) \<and> q' = q\<lparr>q_ch := q_ch q @ [item]\<rparr> \<and> length (q_ch q) < q_cap q \<and> \<not> q_closed q)
    \<or> (q' = q \<and> (\<exists>e. out = EnqueueReturned (Inl e))) \<or> (q' = q \<and> out = EnqueuePanicked)"
  using assms by (auto simp: dispatcher_Enqueue_def Enqueue_def split: option.splits if_splits)

text \<open>The state after a submission: accepted, rejected before anything was stored, or a stored job that
  could not be enqueued.\<close>

definition accepted :: "bytes \<Rightarrow> timestamp \<Rightarrow> JobParameters \<Rightarrow> 'r ApiState \<Rightarrow> 'r ApiState \<Rightarrow> bool" where
  "accepted jobID now params s s' \<longleftrightarrow>
     URLs params \<noteq> [] \<and> js_jobs (api_jobs s) jobID = None
     \<and> length (q_ch (api_queue s)) < q_cap (api_queue s)
     \<and> s' = s\<lparr>api_jobs := (api_jobs s)\<lparr>js_jobs := (js_jobs (api_jobs s))(jobID \<mapsto> new_job jobID now params)\<rparr>,
              api_queue := (api_queue s)\<lparr>q_ch := q_ch (api_queue s) @ [new_item jobID now params]\<rparr>\<rparr>"

definition orphaned :: "bytes \<Rightarrow> timestamp \<Rightarrow> JobParameters \<Rightarrow> 'r ApiState \<Rightarrow> 'r ApiState \<Rightarrow> bool" where
  "orphaned jobID now params s s' \<longleftrightarrow>
     js_jobs (api_jobs s) jobID = None
     \<and> s' = s\<lparr>api_jobs := (api_jobs s)\<lparr>js_jobs := (js_jobs (api_jobs s))(jobID \<mapsto> new_job jobID now params)\<rparr>\<rparr>"

lemma enqueueJob_cases:
  assumes "(out, s') \<in> set (enqueueJob env params s)"
  obtains (accept) jobID where "out = Returns (Inr jobID)" "accepted jobID (env_now env) params s s'"
  | (reject) e where "out = Returns (Inl e)" "s' = s"
  | (orphan) jobID where "\<not> (\<exists>i. out = Returns (Inr i))" "orphaned jobID (env_now env) params s s'"
proof (cases "URLs params = []")
  case True
  with assms that(2) show ?thesis by (simp add: enqueueJob_def)
next
  case ne: False
  show ?thesis
  proof (cases "env_newID env")
    case (Inl e)
    with assms ne that(2) show ?thesis by (simp add: enqueueJob_def)
  next
    case (Inr jobID)
    show ?thesis
    proof (cases "js_jobs (api_jobs s) jobID")
      case (Some j)
      with assms ne Inr that(2) show ?thesis by (simp add: enqueueJob_def CreateJob_def new_job_def)
    next
      case None
      let ?j = "new_job jobID (env_now env) params"
      let ?item = "new_item jobID (env_now env) params"
      let ?jobs = "(api_jobs s)\<lparr>js_jobs := (js_jobs (api_jobs s))(jobID \<mapsto> ?j)\<rparr>"
      have cj: "CreateJob ?j (api_jobs s) = (Inr (), ?jobs)"
        using None by (simp add: CreateJob_def) (simp add: new_job_def)
      from assms ne Inr cj obtain out' q' where
        q: "(out', q') \<in> set (dispatcher_Enqueue (env_queueDone env) ?item (api_queue s))"
        and o': "out = (case out' of EnqueuePanicked \<Rightarrow> Panics
                     | EnqueueReturned (Inl e) \<Rightarrow> Returns (Inl (Wrapped ''enqueue job'' e))
                     | EnqueueReturned (Inr _) \<Rightarrow> Returns (Inr jobID))"
        and s': "s' = s\<lparr>api_jobs := ?jobs, api_queue := q'\<rparr>"
        by (auto simp: enqueueJob_def Let_def)
      from dispatcher_Enqueue_outcomes[OF q] show ?thesis
      proof (elim disjE)
        assume a: "out' = EnqueueReturned (Inr ()) \<and> q' = (api_queue s)\<lparr>q_ch := q_ch (api_queue s) @ [?item]\<rparr>
          \<and> length (q_ch (api_queue s)) < q_cap (api_queue s) \<and> \<not> q_closed (api_queue s)"
        show ?thesis using that(1)[of jobID] a o' s' ne None by (simp add: accepted_def)
      next
        assume a: "q' = api_queue s \<and> (\<exists>e. out' = EnqueueReturned (Inl e))"
        then have "orphaned jobID (env_now env) params s s'" using s' None by (simp add: orphaned_def)
        then show ?thesis using that(3) a o' by auto
      next
        assume a: "q' = api_queue s \<and> out' = EnqueuePanicked"
        then have "orphaned jobID (env_now env) params s s'" using s' None by (simp add: orphaned_def)
        then show ?thesis using that(3) a o' by auto
      qed
    qed
  qed
qed

text \<open>Every way a request can change the state.\<close>

definition canceled :: "bytes \<Rightarrow> timestamp \<Rightarrow> 'r ApiState \<Rightarrow> 'r ApiState \<Rightarrow> bool" where
  "canceled jobID now s s' \<longleftrightarrow> (\<exists>job. js_jobs (api_jobs s) jobID = Some job
     \<and> s' = s\<lparr>api_jobs := (api_jobs s)\<lparr>js_jobs := (js_jobs (api_jobs s))
                (jobID \<mapsto> apply_status now JobStatusCanceled ''canceled via API'' zero_counters job)\<rparr>\<rparr>)"

definition same_jobs :: "'r ApiState \<Rightarrow> 'r ApiState \<Rightarrow> bool" where
  "same_jobs s s' \<longleftrightarrow> (\<exists>db. s' = s\<lparr>api_repo := db\<rparr>)"

datatype effect = Accepted bytes JobParameters | Orphaned | Canceled bytes | ReadOnly

definition effect_on :: "timestamp \<Rightarrow> effect \<Rightarrow> 'r ApiState \<Rightarrow> 'r ApiState \<Rightarrow> bool" where
  "effect_on now e s s' =
     (case e of
        Accepted jobID params \<Rightarrow> accepted jobID now params s s'
      | Orphaned \<Rightarrow> \<exists>jobID params. orphaned jobID now params s s'
      | Canceled jobID \<Rightarrow> canceled jobID now s s'
      | ReadOnly \<Rightarrow> same_jobs s s')"

text \<open>The response that goes with each effect.\<close>

definition answers :: "Response outcome \<Rightarrow> effect \<Rightarrow> bool" where
  "answers out e =
     (case e of
        Accepted jobID _ \<Rightarrow> out = Returns (writeJSON 202 (StringMap [(''job_id'', jobID)]))
      | Canceled jobID \<Rightarrow> out = Returns (writeJSON 200 (StringMap [(''job_id'', jobID), (''status'', ''canceled'')]))
      | _ \<Rightarrow> \<forall>resp. out = Returns resp \<longrightarrow> rs_Status resp \<noteq> 202)"

lemma same_jobs_refl [simp]: "same_jobs s s" "same_jobs s (s\<lparr>api_repo := db\<rparr>)"
  by (auto simp: same_jobs_def intro: exI[of _ "api_repo s"])

lemma readonly_respond:
  assumes "(out, s') \<in> set (respond resp s1)" "rs_Status resp \<noteq> 202" "same_jobs s s1"
  shows "\<exists>e. effect_on now e s s' \<and> answers out e"
  using assms by (intro exI[of _ ReadOnly]) (simp add: effect_on_def answers_def)

lemma writeJSON_status [simp]: "rs_Status (writeJSON c p) = c" "rs_Status (writeError c m) = c"
  by (simp_all add: writeJSON_def writeError_def)

lemma submission_effect:
  assumes "(out, s') \<in> set (map (\<lambda>(o1, s'). (case o1 of
                     Panics \<Rightarrow> Panics
                   | Returns (Inl e) \<Rightarrow> Returns (writeError (code_of e) (Error e))
                   | Returns (Inr jobID) \<Rightarrow> Returns (writeJSON 202 (StringMap [(''job_id'', jobID)])), s'))
                (enqueueJob env params s))"
    and "\<And>e. code_of e \<noteq> 202"
  shows "\<exists>e. effect_on (env_now env) e s s' \<and> answers out e"
proof -
  from assms(1) obtain o1 where o1: "(o1, s') \<in> set (enqueueJob env params s)"
    and out: "out = (case o1 of Panics \<Rightarrow> Panics
                   | Returns (Inl e) \<Rightarrow> Returns (writeError (code_of e) (Error e))
                   | Returns (Inr jobID) \<Rightarrow> Returns (writeJSON 202 (StringMap [(''job_id'', jobID)])))"
    by auto
  from o1 show ?thesis
  proof (cases rule: enqueueJob_cases)
    case (accept jobID)
    then show ?thesis using out by (intro exI[of _ "Accepted jobID params"]) (simp add: effect_on_def answers_def)
  next
    case (reject e)
    then show ?thesis using out assms(2) by (intro exI[of _ ReadOnly]) (simp add: effect_on_def answers_def)
  next
    case (orphan jobID)
    then have "effect_on (env_now env) Orphaned s s'" by (auto simp: effect_on_def)
    moreover have "answers out Orphaned"
      using orphan(1) out assms(2) by (auto simp: answers_def split: outcome.splits sum.splits)
    ultimately show ?thesis by blast
  qed
qed

lemma submitCustomJob_effect:
  assumes "(out, s') \<in> set (submitCustomJob srv env r s)"
  shows "\<exists>e. effect_on (env_now env) e s s' \<and> answers out e"
proof (cases "Option.bind (rq_Body r) decode_custom")
  case None
  then show ?thesis using assms by (intro readonly_respond) (auto simp: submitCustomJob_def)
next
  case (Some req)
  show ?thesis
  proof (cases "toJobParameters (s_cfg srv) req")
    case (Inl e)
    then show ?thesis using Some assms by (intro readonly_respond) (auto simp: submitCustomJob_def)
  next
    case (Inr params)
    show ?thesis
      using submission_effect[of out s' "\<lambda>e. if errors_Is e ContextDeadlineExceeded then 408 else 500" env params s]
        Some Inr assms unfolding submitCustomJob_def by simp
  qed
qed

lemma submitStandardJob_effect:
  assumes "(out, s') \<in> set (submitStandardJob srv env r s)"
  shows "\<exists>e. effect_on (env_now env) e s s' \<and> answers out e"
proof (cases "Option.bind (rq_Body r) decode_standard")
  case None
  then show ?thesis using assms by (intro readonly_respond) (auto simp: submitStandardJob_def)
next
  case (Some req)
  show ?thesis
  proof (cases "sreq_Name req = '''' \<or> StandardJobs (s_cfg srv) (sreq_Name req) = None")
    case True
    then show ?thesis using Some assms
      by (intro exI[of _ ReadOnly]) (auto simp: submitStandardJob_def effect_on_def answers_def split: if_splits)
  next
    case False
    then obtain t where "StandardJobs (s_cfg srv) (sreq_Name req) = Some t" by blast
    with submission_effect[of out s' "\<lambda>e. 500" env "applyDefaults (s_cfg srv) (cloneJobParameters t)" s] False Some assms
    show ?thesis unfolding submitStandardJob_def by simp
  qed
qed

lemma cancelJob_effect:
  assumes "(out, s') \<in> set (cancelJob env r s)"
  shows "\<exists>e. effect_on (env_now env) e s s' \<and> answers out e"
proof (cases "js_jobs (api_jobs s) (rq_JobID r)")
  case None
  then show ?thesis using assms
    by (intro readonly_respond) (auto simp: cancelJob_def store_simps same_jobs_def intro: exI[of _ "api_repo s"])
next
  case (Some job)
  then show ?thesis using assms
    by (intro exI[of _ "Canceled (rq_JobID r)"])
       (simp add: cancelJob_def store_simps effect_on_def answers_def canceled_def)
qed

text \<open>Handlers that only read.\<close>

definition quiet :: "'r handled \<Rightarrow> 'r ApiState \<Rightarrow> bool" where
  "quiet h s \<longleftrightarrow> same_jobs s (snd h) \<and> (\<exists>resp. fst h = Returns resp \<and> rs_Status resp \<noteq> 202)"

lemma quiet_effect: "quiet (out, s') s \<Longrightarrow> \<exists>e. effect_on now e s s' \<and> answers out e"
  by (intro exI[of _ ReadOnly]) (auto simp: quiet_def effect_on_def answers_def)

lemma quiet_respond [simp]: "rs_Status resp \<noteq> 202 \<Longrightarrow> quiet (Returns resp, s) s" "rs_Status resp \<noteq> 202 \<Longrightarrow> quiet (Returns resp, s\<lparr>api_repo := db\<rparr>) s"
  by (simp_all add: quiet_def)

lemma quiet_repo_call:
  assumes "\<And>e. rs_Status (f e) \<noteq> 202" "\<And>x. rs_Status (g x) \<noteq> 202"
  shows "\<forall>h \<in> set (case p of (Inl e, db) \<Rightarrow> respond (f e) (s\<lparr>api_repo := db\<rparr>)
    | (Inr x, db) \<Rightarrow> respond (g x) (s\<lparr>api_repo := db\<rparr>)). quiet h s"
  using assms by (cases p; cases "fst p") auto

lemma quiet_handlers:
  "\<forall>h \<in> set (progress_ListJobs srv r s). quiet h s"
  "\<forall>h \<in> set (progress_GetJob srv r s). quiet h s"
  "\<forall>h \<in> set (progress_ListJobSites srv r s). quiet h s"
  "\<forall>h \<in> set (getJobStatus r s). quiet h s"
  "\<forall>h \<in> set (getJobResult r s). quiet h s"
proof -
  show "\<forall>h \<in> set (progress_ListJobs srv r s). quiet h s"
    unfolding progress_ListJobs_def
    by (cases "s_repo srv"; cases "parseLimitOffset r defaultJobLimit maxJobLimit"; cases "status_filter srv r")
       (auto intro!: quiet_repo_call[rule_format] split: prod.split)
  show "\<forall>h \<in> set (progress_GetJob srv r s). quiet h s"
    unfolding progress_GetJob_def
    by (cases "s_repo srv"; cases "parseJobID srv r") (auto intro!: quiet_repo_call[rule_format] split: prod.split if_splits)
  show "\<forall>h \<in> set (progress_ListJobSites srv r s). quiet h s"
    unfolding progress_ListJobSites_def
    by (cases "s_repo srv"; cases "parseJobID srv r"; cases "parseLimitOffset r defaultSitesLimit maxSitesLimit")
       (auto intro!: quiet_repo_call[rule_format] split: prod.split)
qed (simp_all add: getJobStatus_def getJobResult_def split: sum.split)

lemma endpoint_effect:
  assumes "(out, s') \<in> set (endpoint_handler srv env ep r s)"
  shows "\<exists>e. effect_on (env_now env) e s s' \<and> answers out e"
proof (cases ep)
  case Healthz
  with assms show ?thesis by (intro readonly_respond) (auto simp: healthz_def)
next
  case Readyz
  with assms show ?thesis by (intro readonly_respond) (auto simp: readyz_def)
next
  case MetricsHandler
  with assms show ?thesis by (intro readonly_respond) auto
qed (use assms in \<open>auto intro: submitCustomJob_effect submitStandardJob_effect cancelJob_effect
      quiet_effect[OF bspec[OF quiet_handlers(1)]] quiet_effect[OF bspec[OF quiet_handlers(2)]]
      quiet_effect[OF bspec[OF quiet_handlers(3)]] quiet_effect[OF bspec[OF quiet_handlers(4)]]
      quiet_effect[OF bspec[OF quiet_handlers(5)]]\<close>)

lemma authorized_effect:
  assumes "(out, s') \<in> set ((if auth_Enabled (cfg_Auth (s_cfg srv))
      then apiKeyMiddleware (APIKey (cfg_Auth (s_cfg srv))) (route srv env) else route srv env) r s)"
    and "rs_Status (env_noRoute env) \<noteq> 202"
  shows "\<exists>e. effect_on (env_now env) e s s' \<and> answers out e"
proof -
  have routed: ?thesis if "(out, s') \<in> set (route srv env r s)"
    using that endpoint_effect[of out s' srv env _ r s] readonly_respond[of out s' "env_noRoute env" s s "env_now env"] assms(2)
    by (auto simp: route_def split: option.splits)
  show ?thesis
  proof (cases "(out, s') \<in> set (route srv env r s)")
    case False
    with assms(1) have "(out, s') \<in> set (respond (writeError 403 ''unauthorized'') s)"
      by (auto simp: apiKeyMiddleware_def Let_def split: if_splits)
    then show ?thesis by (rule readonly_respond) simp_all
  qed (rule routed)
qed

text \<open>The whole chain: every outcome is a response, and it tells the effect.\<close>

definition serves :: "Env \<Rightarrow> Response \<Rightarrow> effect \<Rightarrow> bool" where
  "serves env resp e =
     (if env_timedOut env then rs_Status resp = 503
      else case e of
        Accepted jobID _ \<Rightarrow> rs_Status resp = 202 \<and> rs_Payload resp = StringMap [(''job_id'', jobID)]
      | Canceled jobID \<Rightarrow> rs_Status resp = 200 \<and> rs_Payload resp = StringMap [(''job_id'', jobID), (''status'', ''canceled'')]
      | _ \<Rightarrow> rs_Status resp \<noteq> 202)"

text \<open>What the outer middleware records of an answered request.\<close>

definition observed :: "Env \<Rightarrow> Request \<Rightarrow> Response \<Rightarrow> 'r ApiState \<Rightarrow> 'r ApiState" where
  "observed env r resp s = s\<lparr>
     api_metrics := ObserveHTTPRequest (rq_Method r) (if rq_Pattern r = '''' then ''unknown'' else rq_Pattern r)
       (rs_Status resp) (env_elapsed env) (api_metrics s),
     api_log := api_log s @
       [\<lparr>acc_Method = rq_Method r, acc_Path = routeLabel r, acc_Status = rs_Status resp, acc_Duration = env_logElapsed env,
         acc_RequestID = env_requestID env, acc_TraceID = env_traceID env\<rparr>]\<rparr>"

lemma observed_simps [simp]:
  "api_jobs (observed env r resp s) = api_jobs s" "api_queue (observed env r resp s) = api_queue s"
  "api_repo (observed env r resp s) = api_repo s"
  by (simp_all add: observed_def)

definition delivered :: "Env \<Rightarrow> Response outcome \<Rightarrow> Response" where
  "delivered env out =
     (let resp = (if env_timedOut env then \<lparr>rs_Status = 503, rs_Header = [], rs_Payload = TextBody ''request timed out''\<rparr>
                  else case out of Panics \<Rightarrow> writeError 500 ''internal server error'' | Returns x \<Rightarrow> x)
      in resp\<lparr>rs_Header := (''X-Request-ID'', env_requestID env) # rs_Header resp\<rparr>)"

lemma delivered_simps [simp]:
  "rs_Status (delivered env out) = (if env_timedOut env then 503 else case out of Panics \<Rightarrow> 500 | Returns x \<Rightarrow> rs_Status x)"
  "\<not> env_timedOut env \<Longrightarrow> rs_Payload (delivered env (Returns x)) = rs_Payload x"
  "(''X-Request-ID'', env_requestID env) \<in> set (rs_Header (delivered env out))"
  by (simp_all add: delivered_def Let_def split: outcome.split)

lemma routeLabel_id [simp]: "routeLabel (r\<lparr>rq_RequestID := x\<rparr>) = routeLabel r"
  by (simp add: routeLabel_def)

lemma chain_outcomes:
  "requestIDMiddleware env (telemetry_Middleware env (loggingMiddleware env (recoverMiddleware
      (timeoutMiddleware env next)))) r s
   = map (\<lambda>(out, s'). (Returns (delivered env out), observed env r (delivered env out) s'))
       (next (r\<lparr>rq_RequestID := Some (env_requestID env)\<rparr>) s)"
  by (auto simp: requestIDMiddleware_def telemetry_Middleware_def loggingMiddleware_def recoverMiddleware_def
      timeoutMiddleware_def observed_def delivered_def requestIDFromContext_def statusRecorder_WriteHeader_def
      responseWriter_WriteHeader_def Let_def split: outcome.split)

text \<open>Installing the unused copy instead of the telemetry middleware would change nothing.\<close>

lemma metrics_Middleware_copy: "metrics_Middleware env next = telemetry_Middleware env next"
  by (intro ext) (auto simp: metrics_Middleware_def telemetry_Middleware_def statusRecorder_WriteHeader_def
      responseWriter_WriteHeader_def Let_def split: outcome.split)

lemma ServeHTTP_outcomes:
  "ServeHTTP srv env r s = map (\<lambda>(out, s'). (Returns (delivered env out), observed env r (delivered env out) s'))
     ((if auth_Enabled (cfg_Auth (s_cfg srv)) then apiKeyMiddleware (APIKey (cfg_Auth (s_cfg srv))) (route srv env)
       else route srv env) (r\<lparr>rq_RequestID := Some (env_requestID env)\<rparr>) s)"
  by (simp only: ServeHTTP_def chain_outcomes)

lemma ServeHTTP_effect:
  assumes "(out, s2) \<in> set (ServeHTTP srv env r s)" "rs_Status (env_noRoute env) \<noteq> 202"
  obtains e s1 resp where "out = Returns resp" "effect_on (env_now env) e s s1" "s2 = observed env r resp s1"
    "serves env resp e" "(''X-Request-ID'', env_requestID env) \<in> set (rs_Header resp)"
proof -
  from assms(1) obtain out1 s1 where
    o1: "(out1, s1) \<in> set ((if auth_Enabled (cfg_Auth (s_cfg srv)) then apiKeyMiddleware (APIKey (cfg_Auth (s_cfg srv))) (route srv env)
       else route srv env) (r\<lparr>rq_RequestID := Some (env_requestID env)\<rparr>) s)"
    and out: "out = Returns (delivered env out1)" "s2 = observed env r (delivered env out1) s1"
    unfolding ServeHTTP_outcomes by auto
  from authorized_effect[OF o1 assms(2)] obtain e where e: "effect_on (env_now env) e s s1" "answers out1 e" by blast
  have "serves env (delivered env out1) e"
    using e(2) by (cases e; cases out1) (auto simp: serves_def answers_def writeJSON_def)
  then show ?thesis using that out e(1) by simp
qed

text \<open>The effect leaves log and metrics alone: each request is recorded once.\<close>

lemma effect_on_frame:
  assumes "effect_on now e s s1"
  shows "api_metrics s1 = api_metrics s" "api_log s1 = api_log s"
  using assms by (cases e; auto simp: effect_on_def accepted_def orphaned_def canceled_def same_jobs_def)+

text \<open>Sequences of requests, each with surroundings of its own. The items in the queue always belong to
  distinct stored jobs, and requests only add items at the end.\<close>

inductive serving :: "'r Server \<Rightarrow> 'r ApiState \<Rightarrow> 'r ApiState \<Rightarrow> bool" for srv s0 where
  idle: "serving srv s0 s0"
| request: "serving srv s0 s \<Longrightarrow> (out, s') \<in> set (ServeHTTP srv env r s) \<Longrightarrow> rs_Status (env_noRoute env) \<noteq> 202 \<Longrightarrow>
    serving srv s0 s'"

definition queue_backed :: "'r ApiState \<Rightarrow> bool" where
  "queue_backed s \<longleftrightarrow> distinct (map item_JobID (q_ch (api_queue s)))
     \<and> (\<forall>item \<in> set (q_ch (api_queue s)). js_jobs (api_jobs s) (item_JobID item) \<noteq> None)"

lemma effect_on_queue:
  assumes "effect_on now e s s1"
  shows "prefix (q_ch (api_queue s)) (q_ch (api_queue s1))" "queue_backed s \<Longrightarrow> queue_backed s1"
  using assms
  by (cases e; force simp: effect_on_def accepted_def orphaned_def canceled_def same_jobs_def queue_backed_def new_item_def)+

lemma queue_backed_observed [simp]: "queue_backed (observed env r resp s) = queue_backed s"
  by (simp add: queue_backed_def)

lemma serving_queue:
  assumes "serving srv s0 s"
  shows "prefix (q_ch (api_queue s0)) (q_ch (api_queue s)) \<and> (queue_backed s0 \<longrightarrow> queue_backed s)"
  using assms
proof induction
  case (request s out s' env r)
  from request.hyps(2,3) obtain e s1 resp where "effect_on (env_now env) e s s1" "s' = observed env r resp s1"
    by (rule ServeHTTP_effect)
  with effect_on_queue[of "env_now env" e s s1] request.IH show ?case by (auto intro: prefix_order.trans)
qed simp

text \<open>A request without the configured key changes nothing but metrics and log.\<close>

definition has_key :: "'r Server \<Rightarrow> Request \<Rightarrow> bool" where
  "has_key srv r \<longleftrightarrow>
     (if rq_Header r ''X-API-Key'' = '''' then Values_Get (url_Query (rq_URL r)) ''api_key'' else rq_Header r ''X-API-Key'')
       = APIKey (cfg_Auth (s_cfg srv))"

lemma ServeHTTP_unauthorized:
  assumes "auth_Enabled (cfg_Auth (s_cfg srv))" "\<not> has_key srv r" "(out, s2) \<in> set (ServeHTTP srv env r s)"
  shows "\<exists>resp. out = Returns resp \<and> rs_Status resp = (if env_timedOut env then 503 else 403)
    \<and> s2 = observed env r resp s"
proof -
  from assms(1,2) have "apiKeyMiddleware (APIKey (cfg_Auth (s_cfg srv))) (route srv env)
      (r\<lparr>rq_RequestID := Some (env_requestID env)\<rparr>) s = respond (writeError 403 ''unauthorized'') s"
    by (auto simp: apiKeyMiddleware_def has_key_def Let_def)
  with assms(1,3) show ?thesis by (simp add: ServeHTTP_outcomes)
qed

text \<open>A request is answered unless it waits for a place in a full queue.\<close>

lemma enqueueJob_nonempty:
  assumes "env_queueDone env \<noteq> None \<or> q_closed (api_queue s) \<or> length (q_ch (api_queue s)) < q_cap (api_queue s)"
  shows "enqueueJob env params s \<noteq> []"
  using assms by (auto simp: enqueueJob_def dispatcher_Enqueue_def Enqueue_def Let_def
      split: sum.splits prod.splits option.splits)

lemma repo_call_nonempty: "(case p of (Inl e, db) \<Rightarrow> [f e db] | (Inr x, db) \<Rightarrow> [g x db]) \<noteq> []"
  by (cases p; cases "fst p") auto

lemma endpoint_nonempty:
  assumes "env_queueDone env \<noteq> None \<or> q_closed (api_queue s) \<or> length (q_ch (api_queue s)) < q_cap (api_queue s)"
  shows "endpoint_handler srv env ep r s \<noteq> []"
  by (cases ep) (simp_all add: healthz_def readyz_def progress_ListJobs_def progress_GetJob_def
      progress_ListJobSites_def getJobStatus_def getJobResult_def cancelJob_def submitCustomJob_def
      submitStandardJob_def enqueueJob_nonempty[OF assms] split: option.split sum.split prod.split)

lemma ServeHTTP_nonempty:
  assumes "env_queueDone env \<noteq> None \<or> q_closed (api_queue s) \<or> length (q_ch (api_queue s)) < q_cap (api_queue s)"
  shows "ServeHTTP srv env r s \<noteq> []"
  using endpoint_nonempty[OF assms, of srv]
  by (simp add: ServeHTTP_outcomes apiKeyMiddleware_def route_def Let_def split: option.split)

subsection \<open>Windows of the progress endpoints\<close>

text \<open>The window that a request for job runs asks for: limit and offset as numbers with their defaults, the
  limit cut at 500, and the status by one of its names, in any case.\<close>

definition status_names :: "(bytes \<times> JobRunStatus) list" where
  "status_names = [('''', RunRunning), (''running'', RunRunning), (''success'', RunSuccess), (''error'', RunError),
     (''failed'', RunError), (''failure'', RunError)]"

definition window_request :: "'r Server \<Rightarrow> Request \<Rightarrow> JobRunStatus option \<Rightarrow> int \<Rightarrow> int \<Rightarrow> bool" where
  "window_request srv r status limit offset \<longleftrightarrow>
     (let q = url_Query (rq_URL r); lim = Values_Get q ''limit''; off = Values_Get q ''offset'';
          st = strings_TrimSpace (Values_Get q ''status'')
      in (if lim = '''' then limit = 50 else \<exists>v. strconv_Atoi lim = Inr v \<and> 0 < v \<and> limit = min v 500)
         \<and> (if off = '''' then offset = 0 else strconv_Atoi off = Inr offset \<and> 0 \<le> offset)
         \<and> (if st = '''' then status = None
            else status \<noteq> None \<and> map_of status_names (strings_ToLower (s_tab srv) st) = status))"

lemma window_request_iff:
  "parseLimitOffset r defaultJobLimit maxJobLimit = Inr (limit, offset) \<and> status_filter srv r = Inr status
   \<longleftrightarrow> window_request srv r status limit offset"
proof -
  let ?q = "url_Query (rq_URL r)"
  let ?st = "strings_TrimSpace (Values_Get ?q ''status'')"
  have "parse_limit ?q defaultJobLimit maxJobLimit = Inr limit \<longleftrightarrow>
      (if Values_Get ?q ''limit'' = '''' then limit = 50
       else \<exists>v. strconv_Atoi (Values_Get ?q ''limit'') = Inr v \<and> 0 < v \<and> limit = min v 500)"
    by (cases "strconv_Atoi (Values_Get ?q ''limit'')")
       (auto simp: parse_limit_def defaultJobLimit_def maxJobLimit_def Let_def min_def)
  moreover have "parse_offset ?q = Inr offset \<longleftrightarrow>
      (if Values_Get ?q ''offset'' = '''' then offset = 0
       else strconv_Atoi (Values_Get ?q ''offset'') = Inr offset \<and> 0 \<le> offset)"
    by (auto simp: parse_offset_def Let_def split: sum.splits)
  moreover have "status_filter srv r = Inr status \<longleftrightarrow>
      (if ?st = '''' then status = None else status \<noteq> None \<and> map_of status_names (strings_ToLower (s_tab srv) ?st) = status)"
    by (auto simp: status_filter_def parseStatus_def status_names_def Let_def split: if_splits)
  moreover have "parseLimitOffset r defaultJobLimit maxJobLimit = Inr (limit, offset) \<longleftrightarrow>
      parse_limit ?q defaultJobLimit maxJobLimit = Inr limit \<and> parse_offset ?q = Inr offset"
    by (auto simp: parseLimitOffset_def Let_def split: sum.splits)
  ultimately show ?thesis by (simp add: window_request_def Let_def)
qed

lemma progress_ListJobs_window:
  assumes "window_request srv r status limit offset" "s_repo srv = Some repo"
  shows "progress_ListJobs srv r s = (case repo_ListJobs repo status limit offset (api_repo s) of
      (Inl _, db) \<Rightarrow> [(Returns (writeError 500 ''failed to list jobs''), s\<lparr>api_repo := db\<rparr>)]
    | (Inr jobs, db) \<Rightarrow> [(Returns (writeJSON 200 (RunsBody (toJobDTOs srv jobs))), s\<lparr>api_repo := db\<rparr>)])"
  using assms(2) assms(1)[folded window_request_iff] by (simp add: progress_ListJobs_def)

lemma progress_ListJobs_malformed:
  assumes "\<nexists>status limit offset. window_request srv r status limit offset" "s_repo srv = Some repo"
  shows "\<exists>m. progress_ListJobs srv r s = [(Returns (writeError 400 m), s)]"
proof -
  have "isl (parseLimitOffset r defaultJobLimit maxJobLimit) \<or> isl (status_filter srv r)"
    using assms(1) unfolding window_request_iff[symmetric]
    by (cases "parseLimitOffset r defaultJobLimit maxJobLimit"; cases "status_filter srv r") auto
  then show ?thesis
    using assms(2)
    by (cases "parseLimitOffset r defaultJobLimit maxJobLimit"; cases "status_filter srv r")
       (auto simp: progress_ListJobs_def)
qed

end
