(* ===== verification/Observability.thy ===== *)
theory Observability
  imports Configuration
begin

text \<open>
  The set-up of logging and telemetry (internal/logging/logger.go, the initialisation part of
  internal/telemetry/telemetry.go). The constructors of zap, OpenTelemetry and the exporters are
  parameters that may fail. The package variables of telemetry are a record that \<^verbatim>\<open>InitTelemetry\<close>
  fills at its first call.
\<close>

subsection \<open>Logger\<close>

text \<open>\<open>build\<close> is zap's constructor for the given configuration.\<close>

definition logging_New :: "(bool \<Rightarrow> error option) \<Rightarrow> bool \<Rightarrow> unit result" where
  "logging_New build development =
     (if development then
        (case build True of Some e \<Rightarrow> Inl (Wrapped ''build dev logger'' e) | None \<Rightarrow> Inr ())
      else
        (case build False of Some e \<Rightarrow> Inl (Wrapped ''build prod logger'' e) | None \<Rightarrow> Inr ()))"

subsection \<open>Telemetry\<close>

record resource_attrs =
  ra_ServiceName :: bytes
  ra_Version :: bytes
  ra_AccountID :: bytes
  ra_Region :: bytes

record otel =
  resource_New :: "resource_attrs \<Rightarrow> error option"
  texporter_New :: "bytes \<Rightarrow> error option"
  otelprom_New :: "error option"

text \<open>A tracer provider: its resource and the project its spans are exported to, if any. A meter
  provider has a resource.\<close>

record TracerProvider =
  tp_resource :: resource_attrs
  tp_exporter :: "bytes option"

record MeterProvider =
  mp_resource :: resource_attrs

record telemetry_vars =
  initOnce :: bool
  traceProv :: "TracerProvider option"
  meterProv :: "MeterProvider option"
  initErr :: "error option"

definition zero_telemetry :: telemetry_vars where
  "zero_telemetry = \<lparr>initOnce = False, traceProv = None, meterProv = None, initErr = None\<rparr>"

definition setupTracing :: "otel \<Rightarrow> ServiceConfig \<Rightarrow> resource_attrs \<Rightarrow> TracerProvider result" where
  "setupTracing ot cfg res =
     (let project = app_ProjectID (cfg_Application cfg) in
      if project \<noteq> '''' then
        (case texporter_New ot project of
           Some e \<Rightarrow> Inl (Wrapped ''failed to create google trace exporter'' e)
         | None \<Rightarrow> Inr \<lparr>tp_resource = res, tp_exporter = Some project\<rparr>)
      else Inr \<lparr>tp_resource = res, tp_exporter = None\<rparr>)"

definition setupMetrics :: "otel \<Rightarrow> resource_attrs \<Rightarrow> MeterProvider result" where
  "setupMetrics ot res =
     (case otelprom_New ot of
        Some e \<Rightarrow> Inl (Wrapped ''failed to create prometheus exporter'' e)
      | None \<Rightarrow> Inr \<lparr>mp_resource = res\<rparr>)"

definition service_resource :: "ServiceConfig \<Rightarrow> resource_attrs" where
  "service_resource cfg =
     (let a = cfg_Application cfg in
      \<lparr>ra_ServiceName = ServiceName a, ra_Version = app_Version a, ra_AccountID = ProjectNumber a, ra_Region = Region a\<rparr>)"

definition init_body :: "otel \<Rightarrow> ServiceConfig \<Rightarrow> telemetry_vars \<Rightarrow> telemetry_vars" where
  "init_body ot cfg s =
     (let res = service_resource cfg in
      case resource_New ot res of
        Some e \<Rightarrow> s\<lparr>initErr := Some (Wrapped ''failed to create resource'' e)\<rparr>
      | None \<Rightarrow>
          case setupTracing ot cfg res of
            Inl e \<Rightarrow> s\<lparr>traceProv := None, initErr := Some e\<rparr>
          | Inr tp \<Rightarrow>
              let s1 = s\<lparr>traceProv := Some tp\<rparr> in
              case setupMetrics ot res of
                Inl e \<Rightarrow> s1\<lparr>meterProv := None, initErr := Some e\<rparr>
              | Inr mp \<Rightarrow> s1\<lparr>meterProv := Some mp\<rparr>)"

definition InitTelemetry ::
    "otel \<Rightarrow> ServiceConfig \<Rightarrow> telemetry_vars \<Rightarrow>
     (TracerProvider option \<times> MeterProvider option \<times> error option) \<times> telemetry_vars" where
  "InitTelemetry ot cfg s =
     (let s' = (if initOnce s then s else (init_body ot cfg s)\<lparr>initOnce := True\<rparr>)
      in ((traceProv s', meterProv s', initErr s'), s'))"

subsection \<open>Lemmas\<close>

text \<open>When the initialisation reports no error both providers exist.\<close>

definition providers_ok :: "telemetry_vars \<Rightarrow> bool" where
  "providers_ok s \<longleftrightarrow> (initErr s = None \<longrightarrow> traceProv s \<noteq> None \<and> meterProv s \<noteq> None)"

lemma init_body_providers: "providers_ok (init_body ot cfg zero_telemetry)"
  by (simp add: providers_ok_def init_body_def zero_telemetry_def Let_def split: option.splits sum.splits)

lemma InitTelemetry_first:
  "snd (InitTelemetry ot cfg zero_telemetry) = (init_body ot cfg zero_telemetry)\<lparr>initOnce := True\<rparr>"
  by (simp add: InitTelemetry_def zero_telemetry_def)

lemma InitTelemetry_again:
  "initOnce s \<Longrightarrow> InitTelemetry ot cfg s = ((traceProv s, meterProv s, initErr s), s)"
  by (simp add: InitTelemetry_def)

fun init_calls :: "(otel \<times> ServiceConfig) list \<Rightarrow> telemetry_vars \<Rightarrow> telemetry_vars" where
  "init_calls [] s = s"
| "init_calls ((ot, cfg) # cs) s = init_calls cs (snd (InitTelemetry ot cfg s))"

lemma init_calls_once: "initOnce s \<Longrightarrow> init_calls cs s = s"
  by (induction cs) (auto simp: InitTelemetry_again)

end
