(* ===== verification/RetrievalStore.thy ===== *)
theory RetrievalStore
  imports CrawlerTypes GoJson
begin

text \<open>
  The Postgres retrieval store (internal/storage/postgres/retrieval_store.go) down to the statements it
  sends. The connection pool is a parameter: \<open>exec\<close> runs a statement with its arguments on the state of
  the database and may fail. The text of a statement is the format string of the source with the table
  name filled in; line breaks and indentation are as there.
\<close>

record RetrievalStoreConfig =
  rsc_DSN :: bytes
  rsc_Table :: bytes
  rsc_ProgressTable :: bytes
  rsc_MaxConns :: int
  rsc_MinConns :: int
  rsc_MaxConnLifetime :: duration

record RetrievalStore =
  rs_table :: bytes
  rs_progressTable :: bytes

datatype sql_arg =
    ArgText bytes
  | ArgTime timestamp
  | ArgInt int
  | ArgTextPtr "bytes option"
  | ArgTimePtr "timestamp option"

type_synonym 'd exec = "bytes \<Rightarrow> sql_arg list \<Rightarrow> 'd \<Rightarrow> error option \<times> 'd"

text \<open>The regular expression \<^verbatim>\<open>^[a-zA-Z_][a-zA-Z0-9_]*$\<close>.\<close>

definition name_start :: "char \<Rightarrow> bool" where
  "name_start c \<longleftrightarrow> (let n = code c :: nat in 97 \<le> n \<and> n \<le> 122 \<or> 65 \<le> n \<and> n \<le> 90 \<or> n = 95)"

definition name_char :: "char \<Rightarrow> bool" where
  "name_char c \<longleftrightarrow> name_start c \<or> is_digit c"

definition validTableName :: "bytes \<Rightarrow> bool" where
  "validTableName s = (case s of [] \<Rightarrow> False | c # r \<Rightarrow> name_start c \<and> list_all name_char r)"

text \<open>\<^verbatim>\<open>%q\<close> of a name: quotation marks around it (the escapes inside them are left out).\<close>

definition quoted :: "bytes \<Rightarrow> bytes" where
  "quoted s = [CHR 0x22] @ s @ [CHR 0x22]"

definition check_tables :: "bytes \<Rightarrow> bytes \<Rightarrow> (bytes \<times> bytes) result" where
  "check_tables table0 progressTable =
     (let table = (if table0 = '''' then ''retrievals'' else table0) in
      if \<not> validTableName table then Inl (ErrorString (''invalid table name '' @ quoted table))
      else if progressTable \<noteq> '''' \<and> \<not> validTableName progressTable
      then Inl (ErrorString (''invalid progress table name '' @ quoted progressTable))
      else Inr (table, progressTable))"

record pool_config =
  pool_MaxConns :: int
  pool_MinConns :: int
  pool_MaxConnLifetime :: duration

definition pool_settings :: "RetrievalStoreConfig \<Rightarrow> pool_config \<Rightarrow> pool_config" where
  "pool_settings cfg p0 =
     (let p1 = (if 0 < rsc_MaxConns cfg then p0\<lparr>pool_MaxConns := rsc_MaxConns cfg\<rparr> else p0);
          p2 = (if 0 < rsc_MinConns cfg then p1\<lparr>pool_MinConns := rsc_MinConns cfg\<rparr> else p1)
      in if 0 < rsc_MaxConnLifetime cfg then p2\<lparr>pool_MaxConnLifetime := rsc_MaxConnLifetime cfg\<rparr> else p2)"

text \<open>\<open>parseConfig\<close> and \<open>connect\<close> are the calls of package pgxpool.\<close>

definition NewRetrievalStore ::
    "(bytes \<Rightarrow> pool_config result) \<Rightarrow> (pool_config \<Rightarrow> error option) \<Rightarrow> RetrievalStoreConfig \<Rightarrow> RetrievalStore result" where
  "NewRetrievalStore parseConfig connect cfg =
     (if rsc_DSN cfg = '''' then Inl (ErrorString ''database.dsn is required'')
      else
        case check_tables (rsc_Table cfg) (rsc_ProgressTable cfg) of
          Inl e \<Rightarrow> Inl e
        | Inr (table, progressTable) \<Rightarrow>
            case parseConfig (rsc_DSN cfg) of
              Inl e \<Rightarrow> Inl (Wrapped ''parse postgres dsn'' e)
            | Inr p \<Rightarrow>
                case connect (pool_settings cfg p) of
                  Some e \<Rightarrow> Inl (Wrapped ''connect postgres'' e)
                | None \<Rightarrow> Inr \<lparr>rs_table = table, rs_progressTable = progressTable\<rparr>)"

definition NewRetrievalStoreWithPool :: "bool \<Rightarrow> bytes \<Rightarrow> bytes \<Rightarrow> RetrievalStore result" where
  "NewRetrievalStoreWithPool hasPool table progressTable =
     (if \<not> hasPool then Inl (ErrorString ''pool is required'')
      else case check_tables table progressTable of
             Inl e \<Rightarrow> Inl e
           | Inr (t, p) \<Rightarrow> Inr \<lparr>rs_table = t, rs_progressTable = p\<rparr>)"

subsection \<open>Statements\<close>

abbreviation NL :: char where "NL \<equiv> CHR 0x0A"
abbreviation TAB :: char where "TAB \<equiv> CHR 0x09"

definition ensure_query :: "bytes \<Rightarrow> bytes" where
  "ensure_query table =
     NL # ''INSERT INTO '' @ table @ '' (id, job_id, started_at, status)'' @ NL
       # ''VALUES ($1, $2, $3, $4)'' @ NL # ''ON CONFLICT (id, started_at) DO NOTHING'' @ [NL]"

definition retrieval_columns :: "bytes list" where
  "retrieval_columns =
     [''id'', ''job_id'', ''job_started_at'', ''partition_ts'', ''retrieval_timestamp'', ''retrieval_url'',
      ''retrieval_hashcode'', ''retrieval_blob_location'', ''retrieval_headers'', ''retrieval_status_code'',
      ''retrieval_content_type'', ''parent_id'', ''parent_ts'']"

fun column_lines :: "bytes list \<Rightarrow> bytes" where
  "column_lines [] = ''''"
| "column_lines [c] = TAB # c @ [NL]"
| "column_lines (c # cs) = TAB # c @ CHR '','' # NL # column_lines cs"

definition insert_query :: "bytes \<Rightarrow> bytes" where
  "insert_query table =
     NL # ''INSERT INTO '' @ table @ '' ('' @ NL # column_lines retrieval_columns @ '') VALUES ('' @ NL # TAB
       # ''$1,$2,$3,$4,$5,$6,$7,$8,$9,$10,$11,$12,$13'' @ NL # '')''"

definition retrieval_headers :: "http_header \<Rightarrow> (bytes \<times> bytes list) list" where
  "retrieval_headers h = (case h of None \<Rightarrow> [] | Some kvs \<Rightarrow> kvs)"

definition retrieval_args :: "RetrievalRecord \<Rightarrow> sql_arg list" where
  "retrieval_args record =
     [ArgText (rr_ID record), ArgText (rr_JobID record), ArgTime (rr_JobStartedAt record), ArgTime (rr_PartitionTS record),
      ArgTime (rr_RetrievedAt record), ArgText (rr_URL record), ArgText (rr_Hash record), ArgText (rr_BlobURI record),
      ArgText (Marshal (json_map (map (\<lambda>(k, vs). (k, json_strings vs)) (retrieval_headers (rr_Headers record))))),
      ArgInt (rr_StatusCode record), ArgText (rr_ContentType record), ArgTextPtr (rr_ParentID record),
      ArgTimePtr (rr_ParentTimestamp record)]"

definition ensureJobRun :: "'d exec \<Rightarrow> RetrievalStore \<Rightarrow> bytes \<Rightarrow> timestamp \<Rightarrow> 'd \<Rightarrow> unit result \<times> 'd" where
  "ensureJobRun exec s jobID startedAt d =
     (if jobID = '''' \<or> time_IsZero startedAt then (Inl (ErrorString ''job id and start time are required''), d)
      else case exec (ensure_query (rs_progressTable s)) [ArgText jobID, ArgText jobID, ArgTime startedAt, ArgText ''running''] d of
             (Some e, d') \<Rightarrow> (Inl (Wrapped ''insert job run'' e), d')
           | (None, d') \<Rightarrow> (Inr (), d'))"

text \<open>\<open>None\<close> for the store is a nil receiver or one without a pool.\<close>

definition retrieval_StoreRetrieval :: "'d exec \<Rightarrow> RetrievalStore option \<Rightarrow> RetrievalRecord \<Rightarrow> 'd \<Rightarrow> unit result \<times> 'd" where
  "retrieval_StoreRetrieval exec store record d =
     (case store of
        None \<Rightarrow> (Inl (ErrorString ''retrieval store is not configured''), d)
      | Some s \<Rightarrow>
          if rr_ID record = '''' then (Inl (ErrorString ''record id is required''), d)
          else
            case (if rs_progressTable s \<noteq> '''' then ensureJobRun exec s (rr_JobID record) (rr_JobStartedAt record) d
                  else (Inr (), d)) of
              (Inl e, d1) \<Rightarrow> (Inl (Wrapped ''ensure job run'' e), d1)
            | (Inr _, d1) \<Rightarrow>
                (case exec (insert_query (rs_table s)) (retrieval_args record) d1 of
                   (Some e, d2) \<Rightarrow> (Inl (Wrapped ''insert retrieval'' e), d2)
                 | (None, d2) \<Rightarrow> (Inr (), d2)))"

subsection \<open>The statements of one call\<close>

text \<open>The pool with its statements recorded.\<close>

definition logged_exec :: "'d exec \<Rightarrow> ('d \<times> (bytes \<times> sql_arg list) list) exec" where
  "logged_exec exec q args dl = (case dl of (d, l) \<Rightarrow> (case exec q args d of (r, d') \<Rightarrow> (r, d', l @ [(q, args)])))"

definition job_statement :: "RetrievalStore \<Rightarrow> RetrievalRecord \<Rightarrow> bytes \<times> sql_arg list" where
  "job_statement s record =
     (ensure_query (rs_progressTable s),
      [ArgText (rr_JobID record), ArgText (rr_JobID record), ArgTime (rr_JobStartedAt record), ArgText ''running''])"

definition row_statement :: "RetrievalStore \<Rightarrow> RetrievalRecord \<Rightarrow> bytes \<times> sql_arg list" where
  "row_statement s record = (insert_query (rs_table s), retrieval_args record)"

lemma statements_differ: "job_statement s record \<noteq> row_statement s record"
  by (simp add: job_statement_def row_statement_def retrieval_args_def)

lemma StoreRetrieval_statements:
  assumes "retrieval_StoreRetrieval (logged_exec exec) (Some s) record (d, []) = (r, d', l)"
  shows "l \<in> {[], [job_statement s record], [row_statement s record], [job_statement s record, row_statement s record]}
    \<and> (r = Inr () \<longrightarrow> rr_ID record \<noteq> ''''
        \<and> l = (if rs_progressTable s = '''' then [] else [job_statement s record]) @ [row_statement s record])
    \<and> (rs_progressTable s \<noteq> '''' \<longrightarrow> l \<noteq> [row_statement s record])"
proof (cases "rr_ID record = ''''")
  case True
  with assms show ?thesis by (auto simp: retrieval_StoreRetrieval_def row_statement_def)
next
  case id: False
  obtain e2 d2 where row: "logged_exec exec (insert_query (rs_table s)) (retrieval_args record) dl
      = (e2 dl, d2 dl, snd dl @ [row_statement s record])" for dl
  proof -
    have "\<forall>dl. \<exists>e2 d2. logged_exec exec (insert_query (rs_table s)) (retrieval_args record) dl
      = (e2, d2, snd dl @ [row_statement s record])"
      by (auto simp: logged_exec_def row_statement_def split: prod.splits)
    then show thesis using that by metis
  qed
  show ?thesis
  proof (cases "rs_progressTable s = ''''")
    case True
    with assms id row[of "(d, [])"] show ?thesis
      by (auto simp: retrieval_StoreRetrieval_def split: option.splits)
  next
    case False
    show ?thesis
    proof (cases "rr_JobID record = '''' \<or> time_IsZero (rr_JobStartedAt record)")
      case True
      with assms id False show ?thesis by (auto simp: retrieval_StoreRetrieval_def ensureJobRun_def row_statement_def)
    next
      case ok: False
      obtain e1 d1 where e1: "exec (fst (job_statement s record)) (snd (job_statement s record)) d = (e1, d1)" by fastforce
      then have job: "ensureJobRun (logged_exec exec) s (rr_JobID record) (rr_JobStartedAt record) (d, [])
          = (case e1 of Some e \<Rightarrow> Inl (Wrapped ''insert job run'' e) | None \<Rightarrow> Inr (), d1, [job_statement s record])"
        using ok by (simp add: ensureJobRun_def logged_exec_def job_statement_def split: option.splits)
      show ?thesis
      proof (cases e1)
        case (Some e)
        with assms id False job show ?thesis
          by (auto simp: retrieval_StoreRetrieval_def statements_differ)
      next
        case None
        with assms id False job row[of "(d1, [job_statement s record])"] show ?thesis
          by (auto simp: retrieval_StoreRetrieval_def split: option.splits)
      qed
    qed
  qed
qed

text \<open>A store that was constructed has table names of letters, digits and underscores only.\<close>

definition store_names_ok :: "RetrievalStore \<Rightarrow> bool" where
  "store_names_ok s \<longleftrightarrow> validTableName (rs_table s) \<and> (rs_progressTable s = '''' \<or> validTableName (rs_progressTable s))"

lemma check_tables_ok: "check_tables t p = Inr (t', p') \<Longrightarrow> validTableName t' \<and> (p' = '''' \<or> validTableName p')"
  by (auto simp: check_tables_def Let_def split: if_splits)

lemma NewRetrievalStore_ok:
  assumes "NewRetrievalStore parseConfig connect cfg = Inr s"
  shows "store_names_ok s"
proof -
  from assms obtain t p where "check_tables (rsc_Table cfg) (rsc_ProgressTable cfg) = Inr (t, p)"
    "s = \<lparr>rs_table = t, rs_progressTable = p\<rparr>"
    by (auto simp: NewRetrievalStore_def split: if_splits sum.splits option.splits)
  with check_tables_ok show ?thesis by (auto simp: store_names_ok_def)
qed

end
