(* ===== verification/Robots.thy ===== *)
theory Robots
  imports CrawlerTypes Telemetry
begin

text \<open>
  The transports of the probe fetcher (internal/fetcher/colly/robots.go): the retrying transport for
  robots.txt requests, which falls back to an allow-all answer, and the cache of robots.txt answers.
  A round trip of the network, the wait between two tries and the test whether an error is a network
  timeout are parameters. A body is what reading it gives.
\<close>

record HttpRequest =
  hreq_URL :: "url option"

record HttpResponse =
  hres_StatusCode :: int
  hres_Status :: bytes
  hres_Body :: "bytes result"
  hres_ContentLength :: int
  hres_Header :: http_header

type_synonym 's transport = "HttpRequest \<Rightarrow> 's \<Rightarrow> HttpResponse result \<times> 's"

definition robotsFallbackReasonTLSHandshake :: bytes where
  "robotsFallbackReasonTLSHandshake = ''TLS handshake timeout''"

definition robotsRetryBackoff :: "duration list" where
  "robotsRetryBackoff = [250 * Millisecond, 500 * Millisecond, Second]"

definition isRobotsTxtRequest :: "HttpRequest option \<Rightarrow> bool" where
  "isRobotsTxtRequest req =
     (case req of
        None \<Rightarrow> False
      | Some r \<Rightarrow> (case hreq_URL r of None \<Rightarrow> False | Some u \<Rightarrow> strings_EqualFold (Path u) ''/robots.txt''))"

subsection \<open>The retrying transport\<close>

record robotsProbeState =
  rps_status :: RobotsStatus
  rps_reason :: bytes

definition newRobotsProbeState :: robotsProbeState where
  "newRobotsProbeState = \<lparr>rps_status = RobotsStatusUnknown, rps_reason = ''''\<rparr>"

definition robots_apply :: "robotsProbeState option \<Rightarrow> FetchResponse \<Rightarrow> FetchResponse" where
  "robots_apply s resp =
     (case s of
        None \<Rightarrow> resp
      | Some st \<Rightarrow>
          if rps_status st = RobotsStatusUnknown then resp
          else resp\<lparr>resp_RobotsStatus := rps_status st, resp_RobotsReason := rps_reason st\<rparr>)"

definition markIndeterminate :: "bytes \<Rightarrow> robotsProbeState \<times> Metrics \<Rightarrow> robotsProbeState \<times> Metrics" where
  "markIndeterminate reason sm =
     (case sm of (s, m) \<Rightarrow>
        if rps_status s = RobotsStatusIndeterminate then (s, m)
        else (\<lparr>rps_status = RobotsStatusIndeterminate, rps_reason = reason\<rparr>, ObserveProbeTLSHandshakeTimeout m))"

definition sleepWithContext :: "(duration \<Rightarrow> 's \<Rightarrow> error option \<times> 's) \<Rightarrow> duration \<Rightarrow> 's \<Rightarrow> error option \<times> 's" where
  "sleepWithContext wait delay s =
     (if delay \<le> 0 then (None, s)
      else case wait delay s of
             (Some e, s') \<Rightarrow> (Some (Wrapped ''robots backoff sleep context'' e), s')
           | (None, s') \<Rightarrow> (None, s'))"

definition allow_all :: bytes where
  "allow_all = ''User-agent: *'' @ [CHR 0x0A] @ ''Allow: /''"

definition syntheticRobotsAllowAllResponse :: HttpResponse where
  "syntheticRobotsAllowAllResponse =
     \<lparr>hres_StatusCode = 200, hres_Status = ''200 OK'', hres_Body = Inr allow_all,
      hres_ContentLength = int (length allow_all), hres_Header = Some []\<rparr>"

definition isTransientTLSError :: "(error \<Rightarrow> bool) \<Rightarrow> error \<Rightarrow> bool" where
  "isTransientTLSError netTimeout err \<longleftrightarrow>
     errors_Is err ContextDeadlineExceeded \<or> netTimeout err \<or> bytes_Contains (Error err) ''tls: handshake timeout''"

text \<open>The tries; the list has the waits that are left, so the empty list is the last try.\<close>

fun robots_tries ::
    "(error \<Rightarrow> bool) \<Rightarrow> (duration \<Rightarrow> 's \<Rightarrow> error option \<times> 's) \<Rightarrow> 's transport \<Rightarrow> HttpRequest \<Rightarrow> duration list \<Rightarrow>
     robotsProbeState \<times> Metrics \<Rightarrow> 's \<Rightarrow> HttpResponse result \<times> (robotsProbeState \<times> Metrics) \<times> 's" where
  "robots_tries netTimeout wait base req waits sm s =
     (case base req s of
        (Inr resp, s1) \<Rightarrow> (Inr resp, sm, s1)
      | (Inl e, s1) \<Rightarrow>
          if \<not> isTransientTLSError netTimeout e
          then (Inl (Wrapped ''robots roundtrip non-transient'' e), sm, s1)
          else
            case waits of
              [] \<Rightarrow> (Inr syntheticRobotsAllowAllResponse, markIndeterminate robotsFallbackReasonTLSHandshake sm, s1)
            | d # ds \<Rightarrow>
                (case sleepWithContext wait d s1 of
                   (Some e', s2) \<Rightarrow> (Inl (Wrapped ''robots roundtrip backoff sleep'' e'), sm, s2)
                 | (None, s2) \<Rightarrow> robots_tries netTimeout wait base req ds sm s2))"

declare robots_tries.simps [simp del]

definition roundTripWithRetry ::
    "(error \<Rightarrow> bool) \<Rightarrow> (duration \<Rightarrow> 's \<Rightarrow> error option \<times> 's) \<Rightarrow> 's transport \<Rightarrow> HttpRequest \<Rightarrow>
     robotsProbeState \<times> Metrics \<Rightarrow> 's \<Rightarrow> HttpResponse result \<times> (robotsProbeState \<times> Metrics) \<times> 's" where
  "roundTripWithRetry netTimeout wait base req sm s = robots_tries netTimeout wait base req robotsRetryBackoff sm s"

definition robotsAware_RoundTrip ::
    "(error \<Rightarrow> bool) \<Rightarrow> (duration \<Rightarrow> 's \<Rightarrow> error option \<times> 's) \<Rightarrow> 's transport \<Rightarrow> HttpRequest option \<Rightarrow>
     robotsProbeState \<times> Metrics \<Rightarrow> 's \<Rightarrow> HttpResponse result \<times> (robotsProbeState \<times> Metrics) \<times> 's" where
  "robotsAware_RoundTrip netTimeout wait base req sm s =
     (case req of
        None \<Rightarrow> (Inl (ErrorString ''robots transport received nil request''), sm, s)
      | Some r \<Rightarrow>
          if \<not> isRobotsTxtRequest req then
            (case base r s of
               (Inl e, s') \<Rightarrow> (Inl (Wrapped ''robots transport base roundtrip'' e), sm, s')
             | (Inr resp, s') \<Rightarrow> (Inr resp, sm, s'))
          else roundTripWithRetry netTimeout wait base r sm s)"

subsection \<open>The cache\<close>

record cachedResponse =
  cr_StatusCode :: int
  cr_Status :: bytes
  cr_Body :: bytes
  cr_Header :: http_header

type_synonym robots_cache = "bytes \<rightharpoonup> cachedResponse"

definition toResponse :: "cachedResponse \<Rightarrow> HttpResponse" where
  "toResponse c =
     \<lparr>hres_StatusCode = cr_StatusCode c, hres_Status = cr_Status c, hres_Body = Inr (cr_Body c),
      hres_ContentLength = int (length (cr_Body c)), hres_Header = cr_Header c\<rparr>"

definition RobotsCache_RoundTrip :: "'s transport \<Rightarrow> HttpRequest \<Rightarrow> robots_cache \<times> 's \<Rightarrow> HttpResponse result \<times> robots_cache \<times> 's" where
  "RobotsCache_RoundTrip base req cs =
     (case cs of (cache, s) \<Rightarrow>
        (case (isRobotsTxtRequest (Some req), hreq_URL req) of
           (True, Some u) \<Rightarrow>
             (case cache (url_String u) of
                Some cached \<Rightarrow> (Inr (toResponse cached), cache, s)
              | None \<Rightarrow>
                  (case base req s of
                     (Inl e, s') \<Rightarrow> (Inl (Wrapped ''base roundtrip'' e), cache, s')
                   | (Inr resp, s') \<Rightarrow>
                       if hres_StatusCode resp = 200 then
                         (case hres_Body resp of
                            Inl e \<Rightarrow> (Inl (Wrapped ''read body'' e), cache, s')
                          | Inr body \<Rightarrow>
                              (Inr (resp\<lparr>hres_Body := Inr body\<rparr>),
                               cache(url_String u \<mapsto> \<lparr>cr_StatusCode = hres_StatusCode resp, cr_Status = hres_Status resp,
                                      cr_Body = body, cr_Header = hres_Header resp\<rparr>), s'))
                       else (Inr resp, cache, s')))
         | _ \<Rightarrow>
             (case base req s of
                (Inl e, s') \<Rightarrow> (Inl (Wrapped ''base roundtrip'' e), cache, s')
              | (Inr resp, s') \<Rightarrow> (Inr resp, cache, s'))))"

subsection \<open>The history of the tries\<close>

text \<open>The transport with the results of its calls recorded.\<close>

definition recorded :: "'s transport \<Rightarrow> ('s \<times> HttpResponse result list) transport" where
  "recorded base req sl = (case sl of (s, l) \<Rightarrow> (case base req s of (r, s') \<Rightarrow> (r, s', l @ [r])))"

definition recorded_wait :: "(duration \<Rightarrow> 's \<Rightarrow> error option \<times> 's) \<Rightarrow> duration \<Rightarrow> 's \<times> 'l \<Rightarrow> error option \<times> 's \<times> 'l" where
  "recorded_wait wait d sl = (case sl of (s, l) \<Rightarrow> (case wait d s of (e, s') \<Rightarrow> (e, s', l)))"

definition tries_post :: "(error \<Rightarrow> bool) \<Rightarrow> nat \<Rightarrow> robotsProbeState \<times> Metrics \<Rightarrow> HttpResponse result \<Rightarrow> robotsProbeState \<times> Metrics \<Rightarrow> HttpResponse result list \<Rightarrow> bool" where
  "tries_post netTimeout n sm r sm' rs \<longleftrightarrow>
     rs \<noteq> [] \<and> length rs \<le> n + 1
     \<and> (\<forall>x \<in> set (butlast rs). \<exists>e. x = Inl e \<and> isTransientTLSError netTimeout e)
     \<and> (case last rs of
          Inr resp \<Rightarrow> r = Inr resp \<and> sm' = sm
        | Inl e \<Rightarrow>
            if \<not> isTransientTLSError netTimeout e then r = Inl (Wrapped ''robots roundtrip non-transient'' e) \<and> sm' = sm
            else if length rs = n + 1
            then r = Inr syntheticRobotsAllowAllResponse \<and> sm' = markIndeterminate robotsFallbackReasonTLSHandshake sm
            else (\<exists>e'. r = Inl (Wrapped ''robots roundtrip backoff sleep'' e')) \<and> sm' = sm)"

lemma tries_post_step:
  assumes "tries_post netTimeout n sm r sm' rs" "isTransientTLSError netTimeout e"
  shows "tries_post netTimeout (Suc n) sm r sm' (Inl e # rs)"
  using assms by (auto simp: tries_post_def split: sum.splits)

lemma recorded_sleep: "\<exists>w s'. sleepWithContext (recorded_wait wait) d (s, l) = (w, s', l)"
  by (cases "wait d s"; cases "fst (wait d s)") (auto simp: sleepWithContext_def recorded_wait_def)

lemma robots_tries_history:
  assumes "robots_tries netTimeout (recorded_wait wait) (recorded base) req waits sm (s, l) = (r, sm', s', l')"
  shows "\<exists>rs. l' = l @ rs \<and> tries_post netTimeout (length waits) sm r sm' rs"
  using assms
proof (induction waits arbitrary: s l)
  case Nil
  obtain x s1 where b: "base req s = (x, s1)" by fastforce
  have "l' = l @ [x] \<and> tries_post netTimeout 0 sm r sm' [x]"
    using Nil b by (cases x) (auto simp: robots_tries.simps[of _ _ _ _ "[]"] recorded_def tries_post_def split: if_splits)
  then show ?case by auto
next
  case (Cons d ds)
  obtain x s1 where b: "base req s = (x, s1)" by fastforce
  have rec: "recorded base req (s, l) = (x, s1, l @ [x])" using b by (simp add: recorded_def)
  note unf = robots_tries.simps[of netTimeout "recorded_wait wait" "recorded base" req "d # ds" sm "(s, l)"]
  show ?case
  proof (cases x)
    case (Inr resp)
    with Cons.prems b show ?thesis
      by (intro exI[of _ "[x]"]) (auto simp: unf rec tries_post_def)
  next
    case (Inl e)
    show ?thesis
    proof (cases "isTransientTLSError netTimeout e")
      case False
      with Cons.prems b Inl show ?thesis
        by (intro exI[of _ "[x]"]) (auto simp: unf rec tries_post_def)
    next
      case True
      obtain w s2 where w: "sleepWithContext (recorded_wait wait) d (s1, l @ [x]) = (w, s2, l @ [x])"
        using recorded_sleep[of wait d s1 "l @ [x]"] by blast
      show ?thesis
      proof (cases w)
        case (Some e')
        with Cons.prems b Inl True w show ?thesis
          by (intro exI[of _ "[x]"]) (auto simp: unf rec tries_post_def)
      next
        case None
        with Cons.prems b Inl True w
        have "robots_tries netTimeout (recorded_wait wait) (recorded base) req ds sm (s2, l @ [x]) = (r, sm', s', l')"
          by (simp add: unf rec)
        from Cons.IH[OF this] obtain rs where "l' = l @ x # rs" "tries_post netTimeout (length ds) sm r sm' rs" by auto
        then show ?thesis using tries_post_step[OF _ True] Inl by (intro exI[of _ "x # rs"]) simp
      qed
    qed
  qed
qed

text \<open>The cache only grows: an entry is never replaced, so an answer lasts over any round trips.\<close>

definition round_trips :: "'s transport \<Rightarrow> HttpRequest list \<Rightarrow> robots_cache \<times> 's \<Rightarrow> robots_cache \<times> 's" where
  "round_trips base reqs cs = fold (\<lambda>req cs. snd (RobotsCache_RoundTrip base req cs)) reqs cs"

lemma cache_entry_kept:
  "cache k = Some c \<Longrightarrow> fst (snd (RobotsCache_RoundTrip base req (cache, s))) k = Some c"
  by (auto simp: RobotsCache_RoundTrip_def split: bool.splits option.splits prod.splits sum.splits)

lemma round_trips_entry_kept:
  "fst cs k = Some c \<Longrightarrow> fst (round_trips base reqs cs) k = Some c"
proof (induction reqs arbitrary: cs)
  case (Cons req reqs)
  then have "fst (snd (RobotsCache_RoundTrip base req cs)) k = Some c" by (cases cs) (simp add: cache_entry_kept)
  from Cons.IH[OF this] show ?case by (simp add: round_trips_def)
qed (simp add: round_trips_def)

lemma cached_answer:
  assumes "cache (url_String u) = Some c" "isRobotsTxtRequest (Some req)" "hreq_URL req = Some u"
  shows "RobotsCache_RoundTrip base req (cache, t) = (Inr (toResponse c), cache, t)"
  using assms by (simp add: RobotsCache_RoundTrip_def)

lemma cache_hit:
  assumes "RobotsCache_RoundTrip base req (cache, s) = (Inr resp, cache', s')" "isRobotsTxtRequest (Some req)"
    "hreq_URL req = Some u" "hres_StatusCode resp = 200" "hreq_URL req' = Some u"
    and "round_trips base reqs (cache', t) = (cache'', t')"
  shows "\<exists>resp'. RobotsCache_RoundTrip base req' (cache'', t') = (Inr resp', cache'', t')
    \<and> hres_StatusCode resp' = 200 \<and> hres_Body resp' = hres_Body resp"
proof -
  have "\<exists>c. cache' (url_String u) = Some c \<and> cr_StatusCode c = 200 \<and> hres_Body resp = Inr (cr_Body c)"
    using assms(1-4)
    by (cases "cache (url_String u)")
       (auto simp: RobotsCache_RoundTrip_def toResponse_def split: prod.splits sum.splits if_splits)
  then obtain c where c: "cache' (url_String u) = Some c" "cr_StatusCode c = 200" "hres_Body resp = Inr (cr_Body c)" by blast
  have "cache'' (url_String u) = Some c" using round_trips_entry_kept[of "(cache', t)" _ c base reqs] c(1) assms(6) by simp
  moreover have "isRobotsTxtRequest (Some req')" using assms(2,3,5) by (simp add: isRobotsTxtRequest_def)
  ultimately have "RobotsCache_RoundTrip base req' (cache'', t') = (Inr (toResponse c), cache'', t')"
    using assms(5) by (rule cached_answer)
  then show ?thesis using c by (simp add: toResponse_def)
qed

end
