(* ===== verification/CollyFetcher.thy ===== *)
theory CollyFetcher
  imports Robots
begin

text \<open>
  The probe fetcher (internal/fetcher/colly/fetcher.go). The colly collector is a parameter: \<open>Visit\<close> runs
  a visit with the settings and the transport it is given and reports the callbacks it makes. The
  transport is the cached network, with the retrying robots transport around it when robots.txt is
  respected.
\<close>

record CollyConfig =
  cc_UserAgent :: bytes
  cc_RespectRobots :: bool
  cc_Timeout :: duration

record Collector =
  col_UserAgent :: bytes
  col_IgnoreRobotsTxt :: bool
  col_RequestTimeout :: duration
  col_ExtraHeaders :: "(bytes \<times> bytes) list"

datatype colly_event =
    OnResponse bytes int http_header bytes duration
  | OnError error

type_synonym 's fetch_state = "(robotsProbeState \<times> Metrics) \<times> robots_cache \<times> 's"

record 's Colly =
  BaseUserAgent :: bytes
  Visit :: "Collector \<Rightarrow> 's fetch_state transport \<Rightarrow> bytes \<Rightarrow> 's fetch_state \<Rightarrow> colly_event list \<times> error option \<times> 's fetch_state"
  NetRoundTrip :: "'s transport"
  NetTimeout :: "error \<Rightarrow> bool"
  NetWait :: "duration \<Rightarrow> robots_cache \<times> 's \<Rightarrow> error option \<times> robots_cache \<times> 's"

definition copyHeaders :: "FetchRequest \<Rightarrow> (bytes \<times> bytes) list" where
  "copyHeaders request =
     (case req_Headers request of
        None \<Rightarrow> []
      | Some h \<Rightarrow> concat (map (\<lambda>(key, values). map (\<lambda>v. (key, v)) values) h))"

definition respectRobots :: "CollyConfig \<Rightarrow> FetchRequest \<Rightarrow> bool" where
  "respectRobots cfg request =
     (if req_RespectRobotsProvided request then req_RespectRobots request else cc_RespectRobots cfg)"

definition collector_transport :: "'s Colly \<Rightarrow> bool \<Rightarrow> 's fetch_state transport" where
  "collector_transport c respect req st =
     (case st of (sm, cs) \<Rightarrow>
        if respect then
          (case robotsAware_RoundTrip (NetTimeout c) (NetWait c) (RobotsCache_RoundTrip (NetRoundTrip c)) (Some req) sm cs of
             (r, sm', cs') \<Rightarrow> (r, sm', cs'))
        else (case RobotsCache_RoundTrip (NetRoundTrip c) req cs of (r, cs') \<Rightarrow> (r, sm, cs')))"

definition buildCollector :: "'s Colly \<Rightarrow> CollyConfig \<Rightarrow> FetchRequest \<Rightarrow> Collector" where
  "buildCollector c cfg request =
     \<lparr>col_UserAgent = (if cc_UserAgent cfg \<noteq> '''' then cc_UserAgent cfg else BaseUserAgent c),
      col_IgnoreRobotsTxt = (\<not> respectRobots cfg request),
      col_RequestTimeout = (if cc_Timeout cfg = 0 then 15 * Second else cc_Timeout cfg),
      col_ExtraHeaders = copyHeaders request\<rparr>"

text \<open>The hooks, on the result and the fetch error.\<close>

fun collector_hook :: "colly_event \<Rightarrow> FetchResponse \<times> error option \<Rightarrow> FetchResponse \<times> error option" where
  "collector_hook (OnResponse u st h b d) (result, fetchErr) =
     (\<lparr>resp_URL = u, resp_StatusCode = st, resp_Headers = h, resp_Body = b, resp_Duration = d, resp_UsedHeadless = False,
       resp_Screenshot = '''', resp_JobID = resp_JobID result, resp_JobStartedAt = resp_JobStartedAt result,
       resp_RobotsStatus = RobotsStatusUnknown, resp_RobotsReason = ''''\<rparr>, fetchErr)"
| "collector_hook (OnError e) (result, fetchErr) = (result, Some e)"

text \<open>\<open>canceled\<close> is the error of the context when the select takes that branch.\<close>

definition runCollector :: "error option \<Rightarrow> error option \<Rightarrow> error option \<Rightarrow> unit result" where
  "runCollector canceled visitErr fetchErr =
     (case canceled of
        Some e \<Rightarrow> Inl (Wrapped ''colly fetch canceled'' e)
      | None \<Rightarrow>
          case visitErr of
            Some e \<Rightarrow> Inl (Wrapped ''colly visit failed'' e)
          | None \<Rightarrow> (case fetchErr of Some e \<Rightarrow> Inl (Wrapped ''colly response failed'' e) | None \<Rightarrow> Inr ()))"

definition colly_Fetch ::
    "'s Colly \<Rightarrow> CollyConfig \<Rightarrow> error option \<Rightarrow> FetchRequest \<Rightarrow> Metrics \<Rightarrow> robots_cache \<times> 's \<Rightarrow> FetchResponse result \<times> Metrics \<times> robots_cache \<times> 's" where
  "colly_Fetch c cfg canceled request m cs =
     (let respect = respectRobots cfg request;
          result0 = zero_FetchResponse\<lparr>resp_JobID := req_JobID request, resp_JobStartedAt := req_JobStartedAt request\<rparr>
      in case Visit c (buildCollector c cfg request) (collector_transport c respect) (req_URL request)
                ((newRobotsProbeState, m), cs) of
           (events, visitErr, (st, m'), cs') \<Rightarrow>
             (case fold collector_hook events (result0, None) of (result, fetchErr) \<Rightarrow>
                (case runCollector canceled visitErr fetchErr of
                   Inl e \<Rightarrow> (Inl e, m', cs')
                 | Inr _ \<Rightarrow> (Inr (robots_apply (if respect then Some st else None) result), m', cs'))))"

subsection \<open>Lemmas\<close>

lemma fold_hook_job:
  assumes "fold collector_hook events (result, fe) = (result', fe')"
  shows "resp_JobID result' = resp_JobID result \<and> resp_JobStartedAt result' = resp_JobStartedAt result
    \<and> (\<not> resp_UsedHeadless result \<longrightarrow> \<not> resp_UsedHeadless result')
    \<and> (resp_RobotsStatus result = RobotsStatusUnknown \<longrightarrow> resp_RobotsStatus result' = RobotsStatusUnknown)"
  using assms
proof (induction events arbitrary: result fe)
  case (Cons ev events)
  obtain r1 f1 where c: "collector_hook ev (result, fe) = (r1, f1)" by fastforce
  with Cons.prems have "fold collector_hook events (r1, f1) = (result', fe')" by simp
  from Cons.IH[OF this] c show ?case by (cases ev) auto
qed simp

lemma robots_apply_simps [simp]:
  "resp_JobID (robots_apply s r) = resp_JobID r" "resp_JobStartedAt (robots_apply s r) = resp_JobStartedAt r"
  "resp_UsedHeadless (robots_apply s r) = resp_UsedHeadless r" "resp_Body (robots_apply s r) = resp_Body r"
  "robots_apply None r = r"
  by (auto simp: robots_apply_def split: option.split)

lemma colly_Fetch_ok:
  assumes "colly_Fetch c cfg canceled request m cs = (Inr resp, m', cs')"
  shows "canceled = None \<and> resp_JobID resp = req_JobID request \<and> resp_JobStartedAt resp = req_JobStartedAt request
    \<and> \<not> resp_UsedHeadless resp \<and> (resp_RobotsStatus resp \<noteq> RobotsStatusUnknown \<longrightarrow> respectRobots cfg request)"
proof -
  let ?r0 = "zero_FetchResponse\<lparr>resp_JobID := req_JobID request, resp_JobStartedAt := req_JobStartedAt request\<rparr>"
  obtain events visitErr st m1 cs1 where v: "Visit c (buildCollector c cfg request) (collector_transport c (respectRobots cfg request))
      (req_URL request) ((newRobotsProbeState, m), cs) = (events, visitErr, (st, m1), cs1)" by (metis prod.exhaust)
  obtain result fetchErr where f: "fold collector_hook events (?r0, None) = (result, fetchErr)" by fastforce
  from assms v f have ok: "runCollector canceled visitErr fetchErr = Inr ()"
    and resp: "resp = robots_apply (if respectRobots cfg request then Some st else None) result"
    by (auto simp: colly_Fetch_def Let_def split: sum.splits)
  have "resp_RobotsStatus result = RobotsStatusUnknown" "\<not> resp_UsedHeadless result"
    "resp_JobID result = req_JobID request" "resp_JobStartedAt result = req_JobStartedAt request"
    using fold_hook_job[OF f] by (simp_all add: zero_FetchResponse_def)
  moreover have "canceled = None" using ok by (cases canceled) (auto simp: runCollector_def)
  ultimately show ?thesis using resp by auto
qed

end
