(* ===== verification/HeadlessFetcher.thy ===== *)
theory HeadlessFetcher
  imports CrawlerTypes "HOL-Library.AList"
begin

text \<open>
  The headless fetcher (internal/fetcher/headless/chromedp.go and noop.go): the slots that bound the
  number of browsers, the metadata collected from network events, and \<^verbatim>\<open>Fetch\<close>. The browser (package
  chromedp) is a parameter that runs a list of actions and reports the response events it saw.
\<close>

subsection \<open>Headers\<close>

text \<open>\<^verbatim>\<open>http.Header.Add\<close> with the canonical form of the key.\<close>

definition is_token_char :: "char \<Rightarrow> bool" where
  "is_token_char c \<longleftrightarrow> is_alnum c \<or> c \<in> set (''!#$&*+-.^_`|~'' @ [CHR 0x25, CHR 0x27])"

fun canonical_chars :: "bool \<Rightarrow> bytes \<Rightarrow> bytes" where
  "canonical_chars upper [] = []"
| "canonical_chars upper (c # s) =
     (let n = code c :: nat;
          c' = (if upper \<and> 97 \<le> n \<and> n \<le> 122 then byte (n - 32)
                else if \<not> upper \<and> 65 \<le> n \<and> n \<le> 90 then byte (n + 32) else c)
      in c' # canonical_chars (c' = CHR ''-'') s)"

definition CanonicalHeaderKey :: "bytes \<Rightarrow> bytes" where
  "CanonicalHeaderKey k = (if list_all is_token_char k then canonical_chars True k else k)"

definition header_Add :: "bytes \<Rightarrow> bytes \<Rightarrow> (bytes \<times> bytes list) list \<Rightarrow> (bytes \<times> bytes list) list" where
  "header_Add key value h =
     (let k = CanonicalHeaderKey key in
      AList.update k ((case map_of h k of None \<Rightarrow> [] | Some vs \<Rightarrow> vs) @ [value]) h)"

definition header_AddAll :: "bytes \<Rightarrow> bytes list \<Rightarrow> (bytes \<times> bytes list) list \<Rightarrow> (bytes \<times> bytes list) list" where
  "header_AddAll key values h = fold (header_Add key) values h"

subsection \<open>Configuration and slots\<close>

record HeadlessFetcherConfig =
  hf_MaxParallel :: int
  hf_UserAgent :: bytes
  hf_NavigationTimeout :: duration

text \<open>The limiter channel: its capacity and the number of slots taken; \<open>None\<close> is the nil channel.\<close>

record HeadlessFetcher =
  hf_cfg :: HeadlessFetcherConfig
  hf_limiter :: "(nat \<times> nat) option"
  hf_open :: bool

definition NewChromedp :: "HeadlessFetcherConfig \<Rightarrow> HeadlessFetcher result" where
  "NewChromedp cfg0 =
     (if hf_MaxParallel cfg0 < 0 then Inl (ErrorString ''max parallel must be >= 0'')
      else
        let cfg = (if hf_NavigationTimeout cfg0 \<le> 0 then cfg0\<lparr>hf_NavigationTimeout := 45 * Second\<rparr> else cfg0)
        in Inr \<lparr>hf_cfg = cfg, hf_limiter = (if 0 < hf_MaxParallel cfg then Some (nat (hf_MaxParallel cfg), 0) else None),
                hf_open = True\<rparr>)"

definition headless_Close :: "HeadlessFetcher \<Rightarrow> HeadlessFetcher" where
  "headless_Close f = f\<lparr>hf_open := False\<rparr>"

text \<open>The outcomes of the select: a free slot is taken, or the context is done; none when the call
  waits.\<close>

definition acquire :: "error option \<Rightarrow> HeadlessFetcher \<Rightarrow> (unit result \<times> HeadlessFetcher) list" where
  "acquire done f =
     (case hf_limiter f of
        None \<Rightarrow> [(Inr (), f)]
      | Some (cap, used) \<Rightarrow>
          (if used < cap then [(Inr (), f\<lparr>hf_limiter := Some (cap, used + 1)\<rparr>)] else [])
          @ (case done of None \<Rightarrow> [] | Some e \<Rightarrow> [(Inl (Wrapped ''headless slot wait canceled'' e), f)]))"

definition release :: "HeadlessFetcher \<Rightarrow> HeadlessFetcher" where
  "release f =
     (case hf_limiter f of
        None \<Rightarrow> f
      | Some (cap, used) \<Rightarrow> if 0 < used then f\<lparr>hf_limiter := Some (cap, used - 1)\<rparr> else f)"

definition navTimeout :: "HeadlessFetcher \<Rightarrow> duration" where
  "navTimeout f =
     (if 0 < hf_NavigationTimeout (hf_cfg f) then hf_NavigationTimeout (hf_cfg f) else 45 * Second)"

subsection \<open>Response metadata\<close>

datatype header_value = HVString bytes | HVStrings "bytes list" | HVList "bytes list" | HVOther bytes

record NetworkResponse =
  nr_Status :: int
  nr_URL :: bytes
  nr_Headers :: "(bytes \<times> header_value) list"

datatype browser_event =
    ResponseReceived bool "NetworkResponse option"
  | OtherEvent

record responseMeta =
  rm_status :: int
  rm_headers :: http_header
  rm_url :: bytes

definition newResponseMeta :: responseMeta where
  "newResponseMeta = \<lparr>rm_status = 0, rm_headers = Some [], rm_url = ''''\<rparr>"

fun add_header_value :: "bytes \<times> header_value \<Rightarrow> (bytes \<times> bytes list) list \<Rightarrow> (bytes \<times> bytes list) list" where
  "add_header_value (key, HVString v) h = header_Add key v h"
| "add_header_value (key, HVStrings vs) h = header_AddAll key vs h"
| "add_header_value (key, HVList vs) h = header_AddAll key vs h"
| "add_header_value (key, HVOther v) h = header_Add key v h"

text \<open>The flag of a response event tells whether the resource is the document.\<close>

definition capture :: "bool \<Rightarrow> NetworkResponse option \<Rightarrow> responseMeta \<Rightarrow> responseMeta" where
  "capture isDocument response m =
     (case response of
        None \<Rightarrow> m
      | Some r \<Rightarrow>
          if \<not> isDocument then m
          else \<lparr>rm_status = nr_Status r, rm_headers = Some (fold add_header_value (nr_Headers r) []), rm_url = nr_URL r\<rparr>)"

fun captureEvent :: "browser_event \<Rightarrow> responseMeta \<Rightarrow> responseMeta" where
  "captureEvent (ResponseReceived isDocument response) m = capture isDocument response m"
| "captureEvent OtherEvent m = m"

definition cloneHeader :: "http_header \<Rightarrow> http_header" where
  "cloneHeader src =
     map_option (\<lambda>h. fold (\<lambda>(k, values) dst. header_AddAll k values dst) h []) src"

definition snapshot :: "responseMeta \<Rightarrow> int \<times> http_header \<times> bytes" where
  "snapshot m = (rm_status m, cloneHeader (rm_headers m), rm_url m)"

definition snapshotWithFallbacks :: "bytes \<Rightarrow> bytes \<Rightarrow> responseMeta \<Rightarrow> int \<times> http_header \<times> bytes" where
  "snapshotWithFallbacks requestURL finalURL m =
     (case snapshot m of (status, headers, url) \<Rightarrow>
        (if status = 0 then 200 else status, headers,
         if url \<noteq> '''' then url else if finalURL \<noteq> '''' then finalURL else requestURL))"

subsection \<open>Fetching\<close>

definition toNetworkHeaders :: "(bytes \<times> bytes list) list \<Rightarrow> (bytes \<times> header_value) list" where
  "toNetworkHeaders h =
     concat (map (\<lambda>(key, values).
       case values of [] \<Rightarrow> [] | [v] \<Rightarrow> [(key, HVString v)] | _ \<Rightarrow> [(key, HVStrings values)]) h)"

datatype browser_action =
    EnableNetwork
  | SetUserAgentOverride bytes
  | SetExtraHTTPHeaders "(bytes \<times> header_value) list"
  | Navigate bytes
  | WaitReady bytes
  | BrowserSleep duration
  | Location
  | OuterHTML bytes

definition networkSetupAction :: "HeadlessFetcher \<Rightarrow> http_header \<Rightarrow> browser_action list" where
  "networkSetupAction f headers =
     EnableNetwork
     # (if hf_UserAgent (hf_cfg f) \<noteq> '''' then [SetUserAgentOverride (hf_UserAgent (hf_cfg f))] else [])
     @ (case headers of
          None \<Rightarrow> []
        | Some h \<Rightarrow> if h \<noteq> [] then [SetExtraHTTPHeaders (toNetworkHeaders h)] else [])"

definition headless_actions :: "HeadlessFetcher \<Rightarrow> FetchRequest \<Rightarrow> browser_action list" where
  "headless_actions f request =
     networkSetupAction f (req_Headers request)
     @ [Navigate (req_URL request), WaitReady ''body'', BrowserSleep (500 * Millisecond), Location, OuterHTML ''html'']"

text \<open>The browser: within the timeout it runs the actions and gives the HTML and the final URL, or an
  error, and the events and the time it took.\<close>

type_synonym browser = "duration \<Rightarrow> browser_action list \<Rightarrow> (bytes \<times> bytes) result \<times> browser_event list \<times> duration"

definition runHeadless :: "(bytes \<times> bytes) result \<Rightarrow> (bytes \<times> bytes) result" where
  "runHeadless outcome0 = (case outcome0 of Inl e \<Rightarrow> Inl (Wrapped ''chromedp run'' e) | Inr p \<Rightarrow> Inr p)"

text \<open>What \<^verbatim>\<open>Fetch\<close> makes of a browser run; the deferred release follows on every path.\<close>

definition fetch_page :: "browser \<Rightarrow> HeadlessFetcher \<Rightarrow> FetchRequest \<Rightarrow> FetchResponse result" where
  "fetch_page br f request =
     (case br (navTimeout f) (headless_actions f request) of
        (outcome0, events, elapsed) \<Rightarrow>
          (case runHeadless outcome0 of
             Inl e \<Rightarrow> Inl e
           | Inr (html, finalURL) \<Rightarrow>
               (case snapshotWithFallbacks (req_URL request) finalURL (fold captureEvent events newResponseMeta) of
                  (status, headers, responseURL) \<Rightarrow>
                    Inr (zero_FetchResponse\<lparr>resp_URL := responseURL, resp_StatusCode := status,
                           resp_Headers := (case headers of None \<Rightarrow> Some [] | Some h \<Rightarrow> Some h),
                           resp_Body := html, resp_Duration := elapsed, resp_UsedHeadless := True\<rparr>))))"

definition headless_Fetch :: "browser \<Rightarrow> error option \<Rightarrow> FetchRequest \<Rightarrow> HeadlessFetcher \<Rightarrow> (FetchResponse result \<times> HeadlessFetcher) list" where
  "headless_Fetch br done request f =
     map (\<lambda>(slot, f1). case slot of
        Inl e \<Rightarrow> (Inl e, f1)
      | Inr _ \<Rightarrow> (fetch_page br f1 request, release f1)) (acquire done f)"

definition noop_Fetch :: "FetchRequest \<Rightarrow> FetchResponse result" where
  "noop_Fetch request = Inl (ErrorString ''headless fetcher not configured'')"

subsection \<open>Slots under concurrent fetches\<close>

text \<open>Fetches as two steps, taking a slot and returning it, in any interleaving; \<open>n\<close> is the number of
  fetches between the two.\<close>

inductive slots :: "HeadlessFetcher \<Rightarrow> nat \<Rightarrow> HeadlessFetcher \<Rightarrow> bool" for f0 :: HeadlessFetcher where
  slots_start: "slots f0 0 f0"
| slots_take: "slots f0 n f \<Longrightarrow> (Inr (), f') \<in> set (acquire done f) \<Longrightarrow> slots f0 (Suc n) f'"
| slots_return: "slots f0 (Suc n) f \<Longrightarrow> slots f0 n (release f)"

lemma slots_count:
  assumes "slots f0 n f" "hf_limiter f0 = Some (cap, 0)"
  shows "hf_limiter f = Some (cap, n) \<and> n \<le> cap"
  using assms
proof (induction rule: slots.induct)
  case (slots_take n f f' d)
  then show ?case by (auto simp: acquire_def split: if_splits option.splits)
next
  case (slots_return n f)
  then show ?case by (auto simp: release_def)
qed simp

lemma headless_Fetch_slots:
  assumes "(r, f') \<in> set (headless_Fetch br done request f)"
  shows "f' = f"
  using assms by (cases "hf_limiter f")
    (auto simp: headless_Fetch_def acquire_def release_def split: if_splits option.splits)

lemma headless_Fetch_ok:
  assumes "(Inr resp, f') \<in> set (headless_Fetch br done request f)"
  shows "resp_UsedHeadless resp \<and> resp_StatusCode resp \<noteq> 0 \<and> resp_Headers resp \<noteq> None
    \<and> (req_URL request \<noteq> '''' \<longrightarrow> resp_URL resp \<noteq> '''')"
proof -
  from assms obtain f1 where "Inr resp = fetch_page br f1 request"
    by (auto simp: headless_Fetch_def split: sum.splits)
  then show ?thesis
    by (auto simp: fetch_page_def snapshotWithFallbacks_def snapshot_def split: prod.splits sum.splits option.splits if_splits)
qed

end
