(* ===== verification/Application.thy ===== *)
theory Application
  imports Observability BlobStore Detector Dispatcher Hub Policy Worker RetrievalStore CollyFetcher HeadlessFetcher
begin

text \<open>
  The wiring of the service (internal/server/fx.go): which implementation each setting selects, with
  which parameters, and in which order everything is closed. The constructors of third-party clients
  are parameters that may fail; the sinks of the hub are made by a parameter from their kind.
\<close>

subsection \<open>Choices\<close>

datatype 'g AppBlobStore = GcsBlob "'g gcs_client" bytes | LocalBlob bytes | MemoryBlob BlobStore

datatype AppPublisher = MemoryPublisher | PubSubPublisher bytes bytes

datatype sink_kind = StoreSinkKind | LogSinkKind

datatype 'l AppPolicy = RateLimitPolicy "'l Limiter" | SimplePolicy

record 'g Clients =
  zap_Build :: "bool \<Rightarrow> error option"
  cl_otel :: otel
  storage_NewClient :: "'g gcs_client result"
  pgx_ParseConfig :: "bytes \<Rightarrow> pool_config result"
  pgx_Connect :: "pool_config \<Rightarrow> error option"
  pgx_New :: "bytes \<Rightarrow> error option"
  pubsub_NewClient :: "bytes \<Rightarrow> error option"

record 'l Wiring =
  wi_probe :: CollyConfig
  wi_headless :: "HeadlessFetcher option"
  wi_detector :: Heuristic
  wi_worker :: "Worker.Config"
  wi_policy :: "'l AppPolicy"
  wi_workers :: nat

record ('g, 'l, 's) App =
  app_blobStore :: "'g AppBlobStore"
  app_retrievalStore :: "RetrievalStore option"
  app_progressRepo :: bool
  app_publisher :: AppPublisher
  app_progressHub :: "'s Hub option"
  app_queue :: Queue
  app_wiring :: "'l Wiring"
  app_dispatch :: "Queue Pool"
  app_tracer :: "TracerProvider option"
  app_meter :: "MeterProvider option"

definition setupStorage :: "'g Clients \<Rightarrow> 'fs os \<Rightarrow> ServiceConfig \<Rightarrow> 'fs \<Rightarrow> 'g AppBlobStore result \<times> 'fs" where
  "setupStorage cl os cfg fs =
     (let st = cfg_Storage cfg in
      if Backend st = ''gcs'' then
        (case storage_NewClient cl of
           Inl e \<Rightarrow> (Inl (Wrapped ''gcs client init failed'' e), fs)
         | Inr client \<Rightarrow>
             (case gcs_New (Some client) (Bucket st) of
                Inl e \<Rightarrow> (Inl (Wrapped ''gcs blob store init failed'' e), fs)
              | Inr (c, bucket) \<Rightarrow> (Inr (GcsBlob c bucket), fs)))
      else if Backend st = ''local'' then
        (case local_New os (Local_BaseDir st) fs of
           (Inl e, fs') \<Rightarrow> (Inl (Wrapped ''local blob store init failed'' e), fs')
         | (Inr base, fs') \<Rightarrow> (Inr (LocalBlob base), fs'))
      else (Inr (MemoryBlob NewBlobStore), fs))"

definition NewProgressStore :: "'g Clients \<Rightarrow> bytes \<Rightarrow> unit result" where
  "NewProgressStore cl dsn =
     (case pgx_New cl dsn of
        Some e \<Rightarrow> Inl (Wrapped ''failed to create connection pool'' e)
      | None \<Rightarrow> Inr ())"

definition setupDatabase :: "'g Clients \<Rightarrow> ServiceConfig \<Rightarrow> (RetrievalStore option \<times> bool) result" where
  "setupDatabase cl cfg =
     (let db = cfg_Database cfg in
      if DSN db = '''' then Inr (None, False)
      else
        case NewRetrievalStore (pgx_ParseConfig cl) (pgx_Connect cl)
               \<lparr>rsc_DSN = DSN db, rsc_Table = RetrievalTable db, rsc_ProgressTable = ProgressTable db,
                rsc_MaxConns = MaxConns db, rsc_MinConns = MinConns db, rsc_MaxConnLifetime = MaxConnLifetime db\<rparr> of
          Inl e \<Rightarrow> Inl (Wrapped ''retrieval store init failed'' e)
        | Inr rs \<Rightarrow>
            (case NewProgressStore cl (DSN db) of
               Inl e \<Rightarrow> Inl (Wrapped ''progress store init failed'' e)
             | Inr _ \<Rightarrow> Inr (Some rs, True)))"

definition setupPublisher :: "'g Clients \<Rightarrow> ServiceConfig \<Rightarrow> AppPublisher result" where
  "setupPublisher cl cfg =
     (let ps = cfg_PubSub cfg in
      if TopicName ps = '''' \<or> ps_ProjectID ps = '''' then Inr MemoryPublisher
      else case pubsub_NewClient cl (ps_ProjectID ps) of
             Some e \<Rightarrow> Inl (Wrapped ''pubsub client init failed'' e)
           | None \<Rightarrow> Inr (PubSubPublisher (ps_ProjectID ps) (TopicName ps)))"

definition hub_config :: "ServiceConfig \<Rightarrow> HubConfig" where
  "hub_config cfg =
     (let p = cfg_Progress cfg in
      \<lparr>BufferSize = pr_BufferSize p, MaxBatchEvents = MaxEvents (Batch p),
       MaxBatchWait = i64 (MaxWaitMs (Batch p) * Millisecond), SinkTimeout = i64 (SinkTimeoutMs p * Millisecond)\<rparr>)"

definition setupProgress :: "(sink_kind \<Rightarrow> 's Sink) \<Rightarrow> bool \<Rightarrow> ServiceConfig \<Rightarrow> 's \<Rightarrow> 's Hub option" where
  "setupProgress mk hasRepo cfg w =
     (if \<not> pr_Enabled (cfg_Progress cfg) then None
      else
        let sinkList = (if hasRepo then [StoreSinkKind] else [])
                       @ (if LogEnabled (cfg_Progress cfg) then [LogSinkKind] else [])
        in if sinkList = [] then None else Some (NewHub (hub_config cfg) (map (\<lambda>k. Some (mk k)) sinkList) w))"

definition worker_config :: "ServiceConfig \<Rightarrow> Worker.Config" where
  "worker_config cfg =
     \<lparr>ContentType = st_ContentType (cfg_Storage cfg), BlobPrefix = Prefix (cfg_Storage cfg), Topic = TopicName (cfg_PubSub cfg),
      JobTimeout = JobBudget cfg, RequestTimeout = i64 (http_TimeoutSeconds (cfg_HTTP cfg) * Second), MaxRetries = 0,
      RetryBackoffBase = 0\<rparr>"

definition setupHeadless :: "ServiceConfig \<Rightarrow> HeadlessFetcher option" where
  "setupHeadless cfg =
     (if hl_Enabled (cfg_Headless cfg) then
        (case NewChromedp \<lparr>hf_MaxParallel = MaxParallel (cfg_Headless cfg), hf_UserAgent = UserAgent (cfg_Crawler cfg),
                           hf_NavigationTimeout = i64 (NavTimeoutSec (cfg_Headless cfg) * Millisecond)\<rparr> of
           Inl _ \<Rightarrow> None
         | Inr f \<Rightarrow> Some f)
      else None)"

definition setupDispatcher :: "ServiceConfig \<Rightarrow> 'l Wiring" where
  "setupDispatcher cfg =
     \<lparr>wi_probe = \<lparr>cc_UserAgent = UserAgent (cfg_Crawler cfg), cc_RespectRobots = (\<not> IgnoreRobots (cfg_Crawler cfg)),
        cc_Timeout = i64 (http_TimeoutSeconds (cfg_HTTP cfg) * Second)\<rparr>,
      wi_headless = setupHeadless cfg,
      wi_detector = NewHeuristic (PromotionThresh (cfg_Headless cfg)),
      wi_worker = New_config (worker_config cfg),
      wi_policy = (if rl_Enabled (cfg_RateLimit cfg)
        then RateLimitPolicy (NewLimiter (DefaultRPS (cfg_RateLimit cfg)) (DefaultBurst (cfg_RateLimit cfg))) else SimplePolicy),
      wi_workers = nat (Concurrency (cfg_Crawler cfg))\<rparr>"

definition Build ::
    "'g Clients \<Rightarrow> 'fs os \<Rightarrow> (sink_kind \<Rightarrow> 's Sink) \<Rightarrow> 's \<Rightarrow> ServiceConfig \<Rightarrow> 'fs \<Rightarrow> ('g, 'l, 's) App result \<times> 'fs" where
  "Build cl os mk w cfg fs =
     (case logging_New (zap_Build cl) (Development (cfg_Logging cfg)) of
        Inl e \<Rightarrow> (Inl (Wrapped ''logger init failed'' e), fs)
      | Inr _ \<Rightarrow>
          case fst (InitTelemetry (cl_otel cl) cfg zero_telemetry) of
            (_, _, Some e) \<Rightarrow> (Inl (Wrapped ''tracer init failed'' e), fs)
          | (tp, mp, None) \<Rightarrow>
              (case setupStorage cl os cfg fs of
                 (Inl e, fs') \<Rightarrow> (Inl e, fs')
               | (Inr blob, fs') \<Rightarrow>
                   (case setupDatabase cl cfg of
                      Inl e \<Rightarrow> (Inl e, fs')
                    | Inr (retrieval, hasRepo) \<Rightarrow>
                        (case setupPublisher cl cfg of
                           Inl e \<Rightarrow> (Inl e, fs')
                         | Inr pub \<Rightarrow>
                             let q = NewQueue (nat (GlobalQueueDepth (cfg_Crawler cfg)));
                                 wi = setupDispatcher cfg
                             in (Inr \<lparr>app_blobStore = blob, app_retrievalStore = retrieval, app_progressRepo = hasRepo,
                                      app_publisher = pub, app_progressHub = setupProgress mk hasRepo cfg w,
                                      app_queue = q, app_wiring = wi, app_dispatch = NewPool q (wi_workers wi),
                                      app_tracer = tp, app_meter = mp\<rparr>, fs')))))"

subsection \<open>Closing\<close>

datatype close_step =
    CloseQueue | CloseHeadless | CloseHub | StopPublisher | ClosePubSubClient | CloseStorage | CloseRetrievalStore
  | CloseProgressRepo | SyncLogger | ShutdownTracer | ShutdownMetrics

definition closeInfrastructure :: "('g, 'l, 's) App \<Rightarrow> close_step list" where
  "closeInfrastructure a =
     (if wi_headless (app_wiring a) \<noteq> None then [CloseHeadless] else [])
     @ (if app_progressHub a \<noteq> None then [CloseHub] else [])
     @ (case app_publisher a of PubSubPublisher _ _ \<Rightarrow> [StopPublisher, ClosePubSubClient] | MemoryPublisher \<Rightarrow> [])
     @ (case app_blobStore a of GcsBlob _ _ \<Rightarrow> [CloseStorage] | _ \<Rightarrow> [])
     @ (if app_retrievalStore a \<noteq> None then [CloseRetrievalStore] else [])
     @ (if app_progressRepo a then [CloseProgressRepo] else [])"

text \<open>The shutdown functions are those of the providers.\<close>

definition closeObservability :: "('g, 'l, 's) App \<Rightarrow> close_step list" where
  "closeObservability a =
     [SyncLogger] @ (if app_tracer a \<noteq> None then [ShutdownTracer] else [])
     @ (if app_meter a \<noteq> None then [ShutdownMetrics] else [])"

text \<open>\<^verbatim>\<open>Close\<close> returns no error: those of the parts are logged.\<close>

definition app_Close :: "('g, 'l, 's) App \<Rightarrow> close_step list" where
  "app_Close a = CloseQueue # closeInfrastructure a @ closeObservability a"

subsection \<open>Running\<close>

text \<open>\<^verbatim>\<open>App.Run\<close> as the sequence of what its goroutine does: it starts the dispatcher and the HTTP server in
  goroutines of their own, waits for the context (a signal, or the failure of the server), shuts the
  server down and closes the application. It does not wait for the dispatcher. Its result is that of
  \<^verbatim>\<open>Close\<close>, nil.\<close>

datatype run_step = StartDispatcher | ListenAndServe bytes | AwaitDone | ShutdownHTTP | Closing close_step

definition app_Run :: "ServiceConfig \<Rightarrow> ('g, 'l, 's) App \<Rightarrow> run_step list" where
  "app_Run cfg a =
     [StartDispatcher, ListenAndServe (CHR '':'' # strconv_Itoa (srv_Port (cfg_Server cfg))), AwaitDone, ShutdownHTTP]
     @ map Closing (app_Close a)"

text \<open>The process: its exit code and what it ran.\<close>

definition webcrawler_main ::
    "viper \<Rightarrow> bytes \<Rightarrow> bytes \<Rightarrow> 'g Clients \<Rightarrow> 'fs os \<Rightarrow> (sink_kind \<Rightarrow> 's Sink) \<Rightarrow> 's \<Rightarrow> 'fs \<Rightarrow> nat \<times> run_step list" where
  "webcrawler_main v portEnv path cl os mk w fs =
     (case Load v portEnv path of
        Inl _ \<Rightarrow> (1, [])
      | Inr cfg \<Rightarrow>
          (case Build cl os mk w cfg fs of
             (Inl _, _) \<Rightarrow> (1, [])
           | (Inr app, _) \<Rightarrow> (0, app_Run cfg (app :: ('g, unit, 's) App))))"

subsection \<open>Lemmas\<close>

lemma Build_ok:
  assumes "Build cl os mk w cfg fs = (Inr app, fs')"
  obtains retrieval hasRepo where "setupDatabase cl cfg = Inr (retrieval, hasRepo)" "setupPublisher cl cfg = Inr (app_publisher app)"
    "app_retrievalStore app = retrieval" "app_progressRepo app = hasRepo"
    "app_progressHub app = setupProgress mk hasRepo cfg w" "app_queue app = NewQueue (nat (GlobalQueueDepth (cfg_Crawler cfg)))"
    "app_wiring app = setupDispatcher cfg" "app_dispatch app = NewPool (app_queue app) (nat (Concurrency (cfg_Crawler cfg)))"
  using assms
  by (auto simp: Build_def Let_def setupDispatcher_def split: option.splits sum.splits prod.splits)

text \<open>No nil provider is shut down: a built application has both.\<close>

lemma Build_vars:
  assumes "Build cl os mk w cfg fs = (Inr app, fs')"
  shows "app_tracer app = traceProv (snd (InitTelemetry (cl_otel cl) cfg zero_telemetry))"
    "app_meter app = meterProv (snd (InitTelemetry (cl_otel cl) cfg zero_telemetry))"
    "initErr (snd (InitTelemetry (cl_otel cl) cfg zero_telemetry)) = None"
proof -
  let ?s = "snd (InitTelemetry (cl_otel cl) cfg zero_telemetry)"
  have "fst (InitTelemetry (cl_otel cl) cfg zero_telemetry) = (traceProv ?s, meterProv ?s, initErr ?s)"
    by (simp add: InitTelemetry_def Let_def)
  with assms have "app_tracer app = traceProv ?s \<and> app_meter app = meterProv ?s \<and> initErr ?s = None"
    by (auto simp: Build_def Let_def split: option.splits sum.splits prod.splits)
  then show "app_tracer app = traceProv ?s" "app_meter app = meterProv ?s" "initErr ?s = None" by simp_all
qed

lemma Build_providers:
  assumes "Build cl os mk w cfg fs = (Inr app, fs')"
  shows "app_tracer app \<noteq> None \<and> app_meter app \<noteq> None"
  using Build_vars[OF assms] init_body_providers[of "cl_otel cl" cfg] by (simp add: providers_ok_def InitTelemetry_first)

lemma milliseconds_i64: "0 < n \<Longrightarrow> n < 9223372036854 \<Longrightarrow> i64 (n * Millisecond) = n * Millisecond"
  by (simp add: in_i64_def)

lemma seconds_i64: "0 < n \<Longrightarrow> n < 9223372036 \<Longrightarrow> i64 (n * Second) = n * Second"
  by (simp add: in_i64_def)

lemma New_config_positive:
  assumes "0 < RequestTimeout c" "0 < JobTimeout c"
  shows "RequestTimeout (New_config c) = RequestTimeout c" "JobTimeout (New_config c) = JobTimeout c"
    "Topic (New_config c) = Topic c" "BlobPrefix (New_config c) = BlobPrefix c" "ContentType (New_config c) \<noteq> ''''"
    "0 < MaxRetries (New_config c)" "0 < RetryBackoffBase (New_config c)"
  using assms by (simp_all add: New_config_def Let_def)

lemma default_config_id:
  assumes "0 < BufferSize c" "0 < MaxBatchEvents c" "0 < MaxBatchWait c" "0 < SinkTimeout c"
  shows "default_config c = c"
  using assms by (simp add: default_config_def)


subsection \<open>The order of closing\<close>

fun close_rank :: "close_step \<Rightarrow> nat" where
  "close_rank CloseQueue = 0"
| "close_rank CloseHeadless = 1"
| "close_rank CloseHub = 2"
| "close_rank StopPublisher = 3"
| "close_rank ClosePubSubClient = 4"
| "close_rank CloseStorage = 5"
| "close_rank CloseRetrievalStore = 6"
| "close_rank CloseProgressRepo = 7"
| "close_rank SyncLogger = 8"
| "close_rank ShutdownTracer = 9"
| "close_rank ShutdownMetrics = 10"

lemma close_rank_inj: "close_rank x = close_rank y \<Longrightarrow> x = y"
  by (cases x; cases y) simp_all

text \<open>The steps in the order in which they may happen.\<close>

instantiation close_step :: linorder
begin

definition less_eq_close_step :: "close_step \<Rightarrow> close_step \<Rightarrow> bool" where
  "less_eq_close_step x y \<longleftrightarrow> close_rank x \<le> close_rank y"

definition less_close_step :: "close_step \<Rightarrow> close_step \<Rightarrow> bool" where
  "less_close_step x y \<longleftrightarrow> close_rank x < close_rank y"

instance
  by standard (auto simp: less_eq_close_step_def less_close_step_def intro: close_rank_inj)

end

lemma closing_sorted: "sorted_wrt (<) (app_Close a)"
  unfolding app_Close_def closeInfrastructure_def closeObservability_def
  by (cases "app_publisher a"; cases "app_blobStore a") (simp_all add: sorted_wrt_append less_close_step_def)

lemma closing_before:
  assumes "app_Close a = pre @ x # post"
  shows "y \<in> set pre \<Longrightarrow> y < x" "y \<in> set post \<Longrightarrow> x < y"
  using closing_sorted[of a] unfolding assms by (simp_all add: sorted_wrt_append)

lemma closing_distinct: "distinct (app_Close a)"
  using closing_sorted[of a] by (simp add: strict_sorted_iff)

lemma publisher_pair: "ClosePubSubClient \<in> set (app_Close a) \<longleftrightarrow> StopPublisher \<in> set (app_Close a)"
  by (cases "app_publisher a"; cases "app_blobStore a") (simp_all add: app_Close_def closeInfrastructure_def closeObservability_def)

end
