(* ===== verification/JsonReader.thy ===== *)
theory JsonReader
  imports GoJson
begin

text \<open>
  A reader of JSON, as the reference for what the encoder of \<open>GoJson\<close> writes: strings with their escapes,
  integers, literals, arrays and objects without white space between the tokens. Reading what was
  printed gives the value back, with every string in valid UTF-8 (\<^verbatim>\<open>json.Marshal\<close> replaces invalid
  bytes by U+FFFD). A number bounds the recursion of the reader; the length of the input is enough.
\<close>

subsection \<open>Decoding and encoding of runes\<close>

lemma digits_64:
  fixes q c :: nat
  assumes "c < 64"
  shows "(q * 64 + c) div 64 = q" "(q * 64 + c) mod 64 = c"
  using assms by simp_all

lemma cont_byte: "is_cont (code c) \<Longrightarrow> byte (128 + (code c - 128)) = c" "is_cont b \<Longrightarrow> b - 128 < 64"
  by (auto simp: is_cont_def)

lemma lead_byte: "k \<le> (code c :: nat) \<Longrightarrow> byte (k + (code c - k)) = c"
  by simp

lemma decode_one:
  assumes "decode_rune (c # s) = (r, 1)"
  shows "r = code c \<and> code c < (128::nat) \<or> r = RuneError"
  using assms by (auto simp: decode_rune_def split: list.splits if_splits)

lemma decode_widths: "s \<noteq> [] \<Longrightarrow> snd (decode_rune s) \<in> {1, 2, 3, 4}"
  by (auto simp: decode_rune_def split: list.splits if_splits)

lemma encode_two:
  assumes "r = x * 64 + y" "2 \<le> x" "x < 32" "y < (64 :: nat)"
  shows "encode_rune r = [byte (192 + x), byte (128 + y)]"
proof -
  have "128 \<le> r" "r < 2048" using assms by linarith+
  moreover have "r div 64 = x" "r mod 64 = y" unfolding assms(1) by (rule digits_64[OF assms(4)])+
  ultimately show ?thesis by (simp add: encode_rune_def)
qed

lemma encode_three:
  assumes "r = x * 4096 + y * 64 + z" "x < 16" "y < 64" "z < (64 :: nat)" "x = 0 \<longrightarrow> 32 \<le> y" "x = 13 \<longrightarrow> y < 32"
  shows "encode_rune r = [byte (224 + x), byte (128 + y), byte (128 + z)]"
proof -
  have r: "r = (x * 64 + y) * 64 + z" using assms(1) by simp
  have d: "r div 64 = x * 64 + y" "r mod 64 = z" unfolding r by (rule digits_64[OF assms(4)])+
  have e: "r div 4096 = r div 64 div 64" by (simp add: div_mult2_eq[symmetric])
  have d2: "r div 4096 = x" "r div 64 mod 64 = y" unfolding e d(1) by (rule digits_64[OF assms(3)])+
  have lower: "2048 \<le> r" using assms(1,5) by (cases "x = 0") linarith+
  have upper: "r < 65536" using assms(1-4) by linarith
  have gap: "r < 55296 \<or> 57344 \<le> r" using assms(1-4,6) by (cases "x = 13"; cases "x < 13") linarith+
  from lower upper gap d(2) d2 show ?thesis by (auto simp: encode_rune_def)
qed

lemma encode_four:
  assumes "r = x * 262144 + y * 4096 + z * 64 + u" "x < 5" "y < 64" "z < 64" "u < (64 :: nat)"
    "x = 0 \<longrightarrow> 16 \<le> y" "x = 4 \<longrightarrow> y < 16"
  shows "encode_rune r = [byte (240 + x), byte (128 + y), byte (128 + z), byte (128 + u)]"
proof -
  have r: "r = ((x * 64 + y) * 64 + z) * 64 + u" using assms(1) by simp
  have d: "r div 64 = (x * 64 + y) * 64 + z" "r mod 64 = u" unfolding r by (rule digits_64[OF assms(5)])+
  have e: "r div 4096 = r div 64 div 64" "r div 262144 = r div 4096 div 64" by (simp_all add: div_mult2_eq[symmetric])
  have d2: "r div 4096 = x * 64 + y" "r div 64 mod 64 = z" unfolding e(1) d(1) by (rule digits_64[OF assms(4)])+
  have d3: "r div 262144 = x" "r div 4096 mod 64 = y" unfolding e(2) d2(1) by (rule digits_64[OF assms(3)])+
  have lower: "65536 \<le> r" using assms(1,6) by (cases "x = 0") linarith+
  have upper: "r \<le> 1114111" using assms(1-5,7) by (cases "x = 4") linarith+
  from lower upper d(2) d2(2) d3 show ?thesis by (auto simp: encode_rune_def)
qed

lemma decode_two:
  assumes "decode_rune (c0 # s) = (r, 2)"
  obtains c1 s' where "s = c1 # s'" "encode_rune r = [c0, c1]" "list_all (\<lambda>c. 128 \<le> (code c :: nat)) [c0, c1]"
proof -
  obtain c1 s' where s: "s = c1 # s'" and c: "194 \<le> (code c0 :: nat)" "(code c0 :: nat) < 224" "is_cont (code c1)"
    and r: "r = (code c0 - 192) * 64 + (code c1 - 128)"
    using assms by (auto simp: decode_rune_def Cons_eq_map_conv split: list.splits if_splits)
  have "encode_rune r = [byte (192 + (code c0 - 192)), byte (128 + (code c1 - 128))]"
    by (rule encode_two[OF r]) (use c cont_byte(2) in auto)
  then show ?thesis using that[OF s] c cont_byte(1) lead_byte[of 192 c0] by (simp add: is_cont_def)
qed

lemma decode_three:
  assumes "decode_rune (c0 # s) = (r, 3)"
  obtains c1 c2 s' where "s = c1 # c2 # s'" "encode_rune r = [c0, c1, c2]"
    "list_all (\<lambda>c. 128 \<le> (code c :: nat)) [c0, c1, c2]"
proof -
  obtain c1 c2 s' where s: "s = c1 # c2 # s'" and c: "224 \<le> (code c0 :: nat)" "(code c0 :: nat) < 240"
    "is_cont (code c1)" "is_cont (code c2)" "code c0 = (224 :: nat) \<longrightarrow> 160 \<le> (code c1 :: nat)"
    "code c0 = (237 :: nat) \<longrightarrow> code c1 < (160 :: nat)"
    and r: "r = (code c0 - 224) * 4096 + (code c1 - 128) * 64 + (code c2 - 128)"
    using assms by (auto simp: decode_rune_def Cons_eq_map_conv split: list.splits if_splits)
  have "encode_rune r = [byte (224 + (code c0 - 224)), byte (128 + (code c1 - 128)), byte (128 + (code c2 - 128))]"
    by (rule encode_three[OF r]) (use c cont_byte(2) in auto)
  then show ?thesis using that[OF s] c cont_byte(1) lead_byte[of 224 c0] by (simp add: is_cont_def)
qed

lemma decode_four:
  assumes "decode_rune (c0 # s) = (r, 4)"
  obtains c1 c2 c3 s' where "s = c1 # c2 # c3 # s'" "encode_rune r = [c0, c1, c2, c3]"
    "list_all (\<lambda>c. 128 \<le> (code c :: nat)) [c0, c1, c2, c3]"
proof -
  obtain c1 c2 c3 s' where s: "s = c1 # c2 # c3 # s'" and c: "240 \<le> (code c0 :: nat)" "(code c0 :: nat) < 245"
    "is_cont (code c1)" "is_cont (code c2)" "is_cont (code c3)"
    "code c0 = (240 :: nat) \<longrightarrow> 144 \<le> (code c1 :: nat)" "code c0 = (244 :: nat) \<longrightarrow> code c1 < (144 :: nat)"
    and r: "r = (code c0 - 240) * 262144 + (code c1 - 128) * 4096 + (code c2 - 128) * 64 + (code c3 - 128)"
    using assms by (auto simp: decode_rune_def Cons_eq_map_conv split: list.splits if_splits)
  have "encode_rune r = [byte (240 + (code c0 - 240)), byte (128 + (code c1 - 128)), byte (128 + (code c2 - 128)),
      byte (128 + (code c3 - 128))]"
    by (rule encode_four[OF r]) (use c cont_byte(2) in auto)
  then show ?thesis using that[OF s] c cont_byte(1) lead_byte[of 240 c0] by (simp add: is_cont_def)
qed

text \<open>What is decoded without error is encoded as it was; beyond ASCII all its bytes are.\<close>

lemma encode_decode:
  assumes "s \<noteq> []" "decode_rune s = (r, n)" "\<not> (r = RuneError \<and> n = 1)"
  shows "encode_rune r = take n s \<and> (n \<noteq> 1 \<longrightarrow> list_all (\<lambda>c. 128 \<le> (code c :: nat)) (take n s))"
proof -
  obtain c0 s0 where s: "s = c0 # s0" using assms(1) by (cases s) auto
  have "n \<in> {1, 2, 3, 4}" using decode_widths[OF assms(1)] assms(2) by simp
  then consider "n = 1" | "n = 2" | "n = 3" | "n = 4" by blast
  then show ?thesis
  proof cases
    case 1
    then have "r = code c0" "code c0 < (128 :: nat)" using decode_one[of c0 s0 r] assms(2,3) s by auto
    then show ?thesis using s 1 by (simp add: encode_rune_def)
  next
    case 2
    from assms(2)[unfolded s 2] show ?thesis by (rule decode_two) (simp add: s 2)
  next
    case 3
    from assms(2)[unfolded s 3] show ?thesis by (rule decode_three) (simp add: s 3)
  next
    case 4
    from assms(2)[unfolded s 4] show ?thesis by (rule decode_four) (simp add: s 4)
  qed
qed

subsection \<open>Strings\<close>

text \<open>A string with its invalid bytes replaced by the error rune.\<close>

definition utf8_clean :: "bytes \<Rightarrow> bytes" where
  "utf8_clean s = concat (map encode_rune (runes s))"

lemma utf8_clean_simps:
  "utf8_clean [] = []"
  "s \<noteq> [] \<Longrightarrow> utf8_clean s = encode_rune (fst (decode_rune s)) @ utf8_clean (drop (snd (decode_rune s)) s)"
  by (simp_all add: utf8_clean_def runes.simps[of s])

lemma utf8_clean_ascii: "is_ascii s \<Longrightarrow> utf8_clean s = s"
  unfolding utf8_clean_def by (simp add: runes_ascii) (induction s; simp add: encode_rune_def is_ascii_def)

text \<open>The bytes of a string up to the closing quote, and what follows it.\<close>

fun json_body :: "bytes \<Rightarrow> (bytes \<times> bytes) option" where
  "json_body [] = None"
| "json_body (c # s) =
     (if c = CHR 0x22 then Some ([], s)
      else if c = CHR 0x5C
      then (case s of [] \<Rightarrow> None | d # t \<Rightarrow> map_option (\<lambda>(raw, rest). (c # d # raw, rest)) (json_body t))
      else map_option (\<lambda>(raw, rest). (c # raw, rest)) (json_body s))"

definition read_string :: "bytes \<Rightarrow> (bytes \<times> bytes) option" where
  "read_string s = map_option (\<lambda>(raw, rest). (json_unescape raw, rest)) (json_body s)"

text \<open>One step of the encoder.\<close>

definition json_chunk :: "bytes \<Rightarrow> bytes" where
  "json_chunk s = (case decode_rune s of (r, n) \<Rightarrow>
     if r < 128 \<and> n = 1 then json_ascii r
     else if r = RuneError \<and> n = 1 then CHR 0x5C # ''ufffd''
     else if r = 8232 then CHR 0x5C # ''u2028''
     else if r = 8233 then CHR 0x5C # ''u2029''
     else take n s)"

lemma json_escape_step:
  "s \<noteq> [] \<Longrightarrow> json_escape s = json_chunk s @ json_escape (drop (snd (decode_rune s)) s)"
  by (subst json_escape.simps) (simp add: json_chunk_def Let_def split: prod.split)

definition scans :: "bytes \<Rightarrow> bool" where
  "scans xs \<longleftrightarrow> (\<forall>t. json_body (xs @ t) = map_option (\<lambda>(raw, rest). (xs @ raw, rest)) (json_body t))"

lemma scans_plain:
  "list_all (\<lambda>c. c \<noteq> CHR 0x22 \<and> c \<noteq> CHR 0x5C) xs \<Longrightarrow> scans xs"
  unfolding scans_def
  by (induction xs) (auto simp: option.map_comp comp_def case_prod_unfold option.map_ident)

lemma scans_escape: "list_all (\<lambda>c. c \<noteq> CHR 0x22 \<and> c \<noteq> CHR 0x5C) xs \<Longrightarrow> scans (CHR 0x5C # d # xs)"
  using scans_plain[of xs] by (auto simp: scans_def option.map_comp comp_def case_prod_unfold)

lemma plain_read:
  "list_all (\<lambda>c. c \<noteq> CHR 0x5C) xs \<Longrightarrow> json_unescape (xs @ t) = xs @ json_unescape t"
  by (induction xs) auto

lemma high_plain: "list_all (\<lambda>c. 128 \<le> (code c :: nat)) xs \<Longrightarrow> list_all (\<lambda>c. c \<noteq> CHR 0x22 \<and> c \<noteq> CHR 0x5C) xs"
  by (auto simp: list_all_iff)

lemma plain_byte: "code c \<noteq> (34 :: nat) \<Longrightarrow> code c \<noteq> (92 :: nat) \<Longrightarrow> c \<noteq> CHR 0x22 \<and> c \<noteq> CHR 0x5C"
  by auto

lemma scans_ascii:
  assumes "b < 128"
  shows "scans (json_ascii b)"
proof (cases "b < 32 \<or> b \<in> {92, 34, 60, 62, 38}")
  case True
  have "b div 16 < 16" "b mod 16 < 16" using assms by simp_all
  then have hex: "hex_digit (b div 16) \<noteq> CHR 0x22 \<and> hex_digit (b div 16) \<noteq> CHR 0x5C"
    "hex_digit (b mod 16) \<noteq> CHR 0x22 \<and> hex_digit (b mod 16) \<noteq> CHR 0x5C"
    by (intro plain_byte; simp)+
  have "\<exists>d xs. json_ascii b = CHR 0x5C # d # xs \<and> list_all (\<lambda>c. c \<noteq> CHR 0x22 \<and> c \<noteq> CHR 0x5C) xs"
    using True hex by (auto simp: json_ascii_def)
  then show ?thesis using scans_escape by auto
next
  case False
  then have "json_ascii b = [byte b]" by (auto simp: json_ascii_def)
  moreover have "byte b \<noteq> CHR 0x22 \<and> byte b \<noteq> CHR 0x5C" by (rule plain_byte) (use False assms in auto)
  ultimately show ?thesis using scans_plain[of "[byte b]"] by simp
qed

text \<open>A rune of several bytes is copied.\<close>

lemma wide_rune:
  assumes "s \<noteq> []" "decode_rune s = (r, n)" "\<not> (r < 128 \<and> n = 1)" "\<not> (r = RuneError \<and> n = 1)"
  shows "encode_rune r = take n s" "list_all (\<lambda>c. c \<noteq> CHR 0x22 \<and> c \<noteq> CHR 0x5C) (take n s)"
proof -
  have "n \<noteq> 1" using assms decode_one[of "hd s" "tl s" r] by auto
  with encode_decode[OF assms(1,2,4)] show "encode_rune r = take n s"
    "list_all (\<lambda>c. c \<noteq> CHR 0x22 \<and> c \<noteq> CHR 0x5C) (take n s)" by (simp_all add: high_plain)
qed

lemma scans_chunk:
  assumes "s \<noteq> []"
  shows "scans (json_chunk s)"
proof -
  obtain r n where d: "decode_rune s = (r, n)" by fastforce
  show ?thesis
    using scans_ascii[of r] scans_plain[OF wide_rune(2)[OF assms d]]
      scans_escape[of "''fffd''" "CHR ''u''"] scans_escape[of "''2028''" "CHR ''u''"] scans_escape[of "''2029''" "CHR ''u''"]
    by (simp add: json_chunk_def d)
qed

lemma chunk_read:
  assumes "s \<noteq> []"
  shows "json_unescape (json_chunk s @ t) = encode_rune (fst (decode_rune s)) @ json_unescape t"
proof -
  obtain r n where d: "decode_rune s = (r, n)" by fastforce
  have plain: "json_unescape (take n s @ t) = encode_rune r @ json_unescape t"
    if "\<not> (r < 128 \<and> n = 1)" "\<not> (r = RuneError \<and> n = 1)"
    using plain_read[of "take n s" t] wide_rune[OF assms d that] by (simp add: list_all_iff)
  have hex: "json_unescape (CHR 0x5C # ''ufffd'' @ t) = encode_rune RuneError @ json_unescape t"
    "json_unescape (CHR 0x5C # ''u2028'' @ t) = encode_rune 8232 @ json_unescape t"
    "json_unescape (CHR 0x5C # ''u2029'' @ t) = encode_rune 8233 @ json_unescape t"
    by (simp_all add: hex_value_def RuneError_def)
  show ?thesis
  proof (cases "r < 128 \<and> n = 1")
    case True
    then show ?thesis using json_ascii_read[of r t] by (simp add: json_chunk_def d encode_rune_def)
  next
    case False
    show ?thesis
    proof (cases "r = RuneError \<and> n = 1")
      case True
      then show ?thesis using hex(1) by (simp add: json_chunk_def d RuneError_def)
    next
      case f: False
      have "json_chunk s = (if r = 8232 then CHR 0x5C # ''u2028'' else if r = 8233 then CHR 0x5C # ''u2029'' else take n s)"
        by (simp only: json_chunk_def d prod.case False f if_False)
      then show ?thesis using hex(2,3) plain[OF False f] by (simp add: d del: json_unescape.simps)
    qed
  qed
qed

lemma json_body_escape: "json_body (json_escape s @ CHR 0x22 # t) = Some (json_escape s, t)"
proof (induction s rule: runes.induct)
  case (1 s)
  show ?case
  proof (cases "s = []")
    case False
    let ?rest = "drop (snd (decode_rune s)) s"
    have "json_body (json_chunk s @ json_escape ?rest @ CHR 0x22 # t) = Some (json_chunk s @ json_escape ?rest, t)"
      using scans_chunk[OF False] "1.IH"[OF False] by (simp add: scans_def)
    then show ?thesis by (simp add: json_escape_step[OF False])
  qed (simp add: json_escape.simps)
qed

lemma json_unescape_clean: "json_unescape (json_escape s) = utf8_clean s"
proof (induction s rule: runes.induct)
  case (1 s)
  show ?case
  proof (cases "s = []")
    case False
    then show ?thesis using "1.IH"[OF False]
      by (simp add: json_escape_step chunk_read utf8_clean_simps(2) del: json_unescape.simps)
  qed (simp add: json_escape.simps utf8_clean_simps(1))
qed

lemma read_string_escape: "read_string (json_escape s @ CHR 0x22 # t) = Some (utf8_clean s, t)"
  by (simp add: read_string_def json_body_escape json_unescape_clean)

subsection \<open>Values\<close>

definition num_char :: "char \<Rightarrow> bool" where
  "num_char c \<longleftrightarrow> is_digit c \<or> c \<in> set ''-+.eE''"

definition read_number :: "bytes \<Rightarrow> (json \<times> bytes) option" where
  "read_number s =
     (let lit = takeWhile num_char s in
      if lit = [] then None
      else Some (case strconv_Atoi lit of Inr i \<Rightarrow> JInt i | Inl _ \<Rightarrow> JNum lit, drop (length lit) s))"

fun read_value :: "nat \<Rightarrow> bytes \<Rightarrow> (json \<times> bytes) option"
  and read_elements :: "nat \<Rightarrow> bytes \<Rightarrow> (json list \<times> bytes) option"
  and read_members :: "nat \<Rightarrow> bytes \<Rightarrow> ((bytes \<times> json) list \<times> bytes) option" where
  "read_value 0 s = None"
| "read_value (Suc n) s =
     (if strings_HasPrefix s [CHR 0x22] then map_option (\<lambda>(x, r). (JStr x, r)) (read_string (tl s))
      else if strings_HasPrefix s ''[]'' then Some (JArr [], drop 2 s)
      else if strings_HasPrefix s ''['' then map_option (\<lambda>(vs, r). (JArr vs, r)) (read_elements n (tl s))
      else if strings_HasPrefix s ''{}'' then Some (JObj [], drop 2 s)
      else if strings_HasPrefix s ''{'' then map_option (\<lambda>(kvs, r). (JObj kvs, r)) (read_members n (tl s))
      else if strings_HasPrefix s ''null'' then Some (JNull, drop 4 s)
      else if strings_HasPrefix s ''true'' then Some (JBool True, drop 4 s)
      else if strings_HasPrefix s ''false'' then Some (JBool False, drop 5 s)
      else read_number s)"
| "read_elements 0 s = None"
| "read_elements (Suc n) s =
     (case read_value n s of
        Some (v, c # r) \<Rightarrow>
          if c = CHR '']'' then Some ([v], r)
          else if c = CHR '','' then map_option (\<lambda>(vs, r'). (v # vs, r')) (read_elements n r)
          else None
      | _ \<Rightarrow> None)"
| "read_members 0 s = None"
| "read_members (Suc n) s =
     (if \<not> strings_HasPrefix s [CHR 0x22] then None
      else case read_string (tl s) of
        Some (k, c # r) \<Rightarrow>
          if c \<noteq> CHR '':'' then None
          else (case read_value n r of
                  Some (v, d # r') \<Rightarrow>
                    if d = CHR ''}'' then Some ([(k, v)], r')
                    else if d = CHR '','' then map_option (\<lambda>(kvs, r''). ((k, v) # kvs, r'')) (read_members n r')
                    else None
                | _ \<Rightarrow> None)
      | _ \<Rightarrow> None)"

definition json_read :: "bytes \<Rightarrow> json option" where
  "json_read s = (case read_value (length s) s of Some (v, []) \<Rightarrow> Some v | _ \<Rightarrow> None)"

text \<open>Values whose numbers are 64-bit integers; the value with its strings in valid UTF-8; the bound the
  reader needs.\<close>

fun json_ints :: "json \<Rightarrow> bool" where
  "json_ints (JInt i) = in_i64 i"
| "json_ints (JNum _) = False"
| "json_ints (JArr vs) = list_all json_ints vs"
| "json_ints (JObj kvs) = list_all (\<lambda>(k, v). json_ints v) kvs"
| "json_ints _ = True"

fun json_clean :: "json \<Rightarrow> json" where
  "json_clean (JStr s) = JStr (utf8_clean s)"
| "json_clean (JArr vs) = JArr (map json_clean vs)"
| "json_clean (JObj kvs) = JObj (map (\<lambda>(k, v). (utf8_clean k, json_clean v)) kvs)"
| "json_clean v = v"

fun json_weight :: "json \<Rightarrow> nat" where
  "json_weight (JArr vs) = Suc (sum_list (map (\<lambda>v. Suc (json_weight v)) vs))"
| "json_weight (JObj kvs) = Suc (sum_list (map (\<lambda>(k, v). Suc (json_weight v)) kvs))"
| "json_weight _ = 1"

lemma weight_positive [simp]: "0 < json_weight v"
  by (cases v) simp_all

lemma length_comma_join: "xs \<noteq> [] \<Longrightarrow> Suc (length (comma_join xs)) = sum_list (map (\<lambda>x. Suc (length x)) xs)"
  by (induction xs rule: comma_join.induct) simp_all

lemma weight_le_length: "json_ints v \<Longrightarrow> json_weight v \<le> length (Marshal v)"
proof (induction v)
  case (JArr vs)
  have "sum_list (map (\<lambda>v. Suc (json_weight v)) vs) \<le> sum_list (map (\<lambda>v. Suc (length (Marshal v))) vs)"
    using JArr by (intro sum_list_mono) (auto simp: list_all_iff)
  then show ?case using length_comma_join[of "map Marshal vs"] by (cases "vs = []") (auto simp: comp_def)
next
  case (JObj kvs)
  let ?m = "\<lambda>(k, v). json_string k @ CHR '':'' # Marshal v"
  have w: "json_weight v \<le> length (Marshal v)" if "(k, v) \<in> set kvs" for k v
    using JObj that by (auto simp: list_all_iff)
  have "sum_list (map (\<lambda>(k, v). Suc (json_weight v)) kvs) \<le> sum_list (map (\<lambda>kv. Suc (length (?m kv))) kvs)"
    by (intro sum_list_mono) (use w in fastforce)
  then show ?case using length_comma_join[of "map ?m kvs"] by (cases "kvs = []") (auto simp: comp_def)
qed (auto simp: strconv_Itoa_def json_string_def Suc_le_eq)


subsection \<open>Reading what was printed\<close>

text \<open>A rest that does not continue a number.\<close>

definition stops :: "bytes \<Rightarrow> bool" where
  "stops r \<longleftrightarrow> r = [] \<or> \<not> num_char (hd r)"

lemma stops_simps [simp]: "stops []" "stops (CHR '','' # r)" "stops (CHR '']'' # r)" "stops (CHR ''}'' # r)"
  by (simp_all add: stops_def num_char_def is_digit_def)

lemma Itoa_num: "list_all num_char (strconv_Itoa i)" "strconv_Itoa i \<noteq> []"
  using digits_itoa by (auto simp: strconv_Itoa_def num_char_def list_all_iff)

lemma read_number_Itoa: "in_i64 i \<Longrightarrow> stops r \<Longrightarrow> read_number (strconv_Itoa i @ r) = Some (JInt i, r)"
proof -
  assume i: "in_i64 i" and "stops r"
  then have "takeWhile num_char (strconv_Itoa i @ r) = strconv_Itoa i"
    using Itoa_num(1)[of i] by (cases r) (auto simp: stops_def list_all_iff takeWhile_append2)
  with Itoa_num(2)[of i] Atoi_Itoa[OF i] show ?thesis by (simp add: read_number_def)
qed

lemma num_char_other:
  "num_char c \<Longrightarrow> c \<noteq> CHR 0x22 \<and> c \<noteq> CHR ''['' \<and> c \<noteq> CHR ''{'' \<and> c \<noteq> CHR ''n'' \<and> c \<noteq> CHR ''t'' \<and> c \<noteq> CHR ''f''"
  by (auto simp: num_char_def is_digit_def)

lemma num_not_token: "num_char c \<Longrightarrow> read_value (Suc n) (c # s) = read_number (c # s)"
  using num_char_other[of c] by auto

lemma Marshal_start: "json_ints v \<Longrightarrow> \<exists>c s. Marshal v = c # s \<and> c \<noteq> CHR '']''"
proof (cases v)
  case (JInt i)
  assume "json_ints v"
  obtain c s where c: "strconv_Itoa i = c # s" "num_char c" using Itoa_num[of i] by (cases "strconv_Itoa i") auto
  moreover have "c \<noteq> CHR '']''" using c(2) by (auto simp: num_char_def is_digit_def)
  ultimately show ?thesis using JInt by simp
qed (auto simp: json_string_def)

lemma read_elements_printed:
  assumes "\<And>v n r. v \<in> set vs \<Longrightarrow> json_weight v \<le> n \<Longrightarrow> stops r \<Longrightarrow> read_value n (Marshal v @ r) = Some (json_clean v, r)"
    and "vs \<noteq> []" "sum_list (map (\<lambda>v. Suc (json_weight v)) vs) \<le> n"
  shows "read_elements n (comma_join (map Marshal vs) @ CHR '']'' # r) = Some (map json_clean vs, r)"
  using assms
proof (induction vs arbitrary: n)
  case (Cons v vs)
  obtain m where n: "n = Suc m" "json_weight v \<le> m" "sum_list (map (\<lambda>v. Suc (json_weight v)) vs) \<le> m"
    using Cons.prems(3) by (cases n) auto
  show ?case
  proof (cases vs)
    case Nil
    then show ?thesis using Cons.prems(1)[of v m "CHR '']'' # r"] n by simp
  next
    case (Cons w ws)
    let ?rest = "comma_join (map Marshal vs) @ CHR '']'' # r"
    have "read_elements m ?rest = Some (map json_clean vs, r)"
      by (rule Cons.IH) (use Cons.prems(1) n(3) Cons in auto)
    moreover have "read_value m (Marshal v @ CHR '','' # ?rest) = Some (json_clean v, CHR '','' # ?rest)"
      using Cons.prems(1)[of v m] n(2) by simp
    ultimately show ?thesis using n(1) Cons by simp
  qed
qed simp

lemma read_members_printed:
  assumes "\<And>k v n r. (k, v) \<in> set kvs \<Longrightarrow> json_weight v \<le> n \<Longrightarrow> stops r \<Longrightarrow> read_value n (Marshal v @ r) = Some (json_clean v, r)"
    and "kvs \<noteq> []" "sum_list (map (\<lambda>(k, v). Suc (json_weight v)) kvs) \<le> n"
  shows "read_members n (comma_join (map (\<lambda>(k, v). json_string k @ CHR '':'' # Marshal v) kvs) @ CHR ''}'' # r)
    = Some (map (\<lambda>(k, v). (utf8_clean k, json_clean v)) kvs, r)"
  using assms
proof (induction kvs arbitrary: n)
  case (Cons kv kvs)
  obtain k v where kv: "kv = (k, v)" by (cases kv)
  obtain m where n: "n = Suc m" "json_weight v \<le> m" "sum_list (map (\<lambda>(k, v). Suc (json_weight v)) kvs) \<le> m"
    using Cons.prems(3) kv by (cases n) auto
  let ?m = "\<lambda>(k, v). json_string k @ CHR '':'' # Marshal v"
  show ?case
  proof (cases kvs)
    case Nil
    then show ?thesis using Cons.prems(1)[of k v m "CHR ''}'' # r"] n kv by (simp add: json_string_def read_string_escape)
  next
    case (Cons w ws)
    let ?rest = "comma_join (map ?m kvs) @ CHR ''}'' # r"
    have "read_members m ?rest = Some (map (\<lambda>(k, v). (utf8_clean k, json_clean v)) kvs, r)"
      by (rule Cons.IH) (use Cons.prems(1) n(3) Cons in auto)
    moreover have "read_value m (Marshal v @ CHR '','' # ?rest) = Some (json_clean v, CHR '','' # ?rest)"
      using Cons.prems(1)[of k v m] n(2) kv by simp
    ultimately show ?thesis using n(1) Cons kv by (simp add: json_string_def read_string_escape)
  qed
qed simp

lemma read_printed:
  assumes "json_ints v" "json_weight v \<le> n" "stops r"
  shows "read_value n (Marshal v @ r) = Some (json_clean v, r)"
  using assms
proof (induction v arbitrary: n r)
  case (JInt i)
  obtain c s where c: "strconv_Itoa i @ r = c # s" "num_char c" using Itoa_num[of i] by (cases "strconv_Itoa i") auto
  obtain m where "n = Suc m" using JInt.prems(2) by (cases n) auto
  then show ?case using num_not_token[OF c(2), of m s] read_number_Itoa[of i r] JInt.prems(1,3) c(1) by simp
next
  case (JStr x)
  obtain m where "n = Suc m" using JStr.prems(2) by (cases n) auto
  then show ?case by (simp add: json_string_def read_string_escape)
next
  case (JArr vs)
  obtain m where n: "n = Suc m" "sum_list (map (\<lambda>v. Suc (json_weight v)) vs) \<le> m" using JArr.prems(2) by (cases n) auto
  show ?case
  proof (cases "vs = []")
    case False
    have "read_elements m (comma_join (map Marshal vs) @ CHR '']'' # r) = Some (map json_clean vs, r)"
      by (rule read_elements_printed[OF _ False n(2)]) (use JArr in \<open>auto simp: list_all_iff\<close>)
    moreover obtain c s where "comma_join (map Marshal vs) = c # s" "c \<noteq> CHR '']''"
      using False Marshal_start[of "hd vs"] JArr.prems(1) by (cases vs; cases "tl vs") auto
    ultimately show ?thesis using n(1) by auto
  qed (simp add: n(1))
next
  case (JObj kvs)
  let ?m = "\<lambda>(k, v). json_string k @ CHR '':'' # Marshal v"
  obtain m where n: "n = Suc m" "sum_list (map (\<lambda>(k, v). Suc (json_weight v)) kvs) \<le> m" using JObj.prems(2) by (cases n) auto
  show ?case
  proof (cases "kvs = []")
    case False
    have "read_members m (comma_join (map ?m kvs) @ CHR ''}'' # r) = Some (map (\<lambda>(k, v). (utf8_clean k, json_clean v)) kvs, r)"
      by (rule read_members_printed[OF _ False n(2)]) (use JObj in \<open>auto simp: list_all_iff\<close>)
    moreover obtain s where "comma_join (map ?m kvs) = CHR 0x22 # s"
      using False by (cases kvs; cases "tl kvs") (auto simp: json_string_def split: prod.splits)
    ultimately show ?thesis using n(1) by auto
  qed (simp add: n(1))
next
  case (JBool b)
  then show ?case by (cases n) auto
next
  case JNull
  then show ?case by (cases n) auto
qed simp

lemma json_read_Marshal: "json_ints v \<Longrightarrow> json_read (Marshal v) = Some (json_clean v)"
  using read_printed[of v "length (Marshal v)" "[]"] weight_le_length[of v] by (simp add: json_read_def)

text \<open>Maps are printed in key order.\<close>

lemma sort_key_map_values: "sort_key fst (map (\<lambda>(k, x). (k, f x)) kvs) = map (\<lambda>(k, x). (k, f x)) (sort_key fst kvs)"
proof -
  have ins: "insort_key fst (k, f x) (map (\<lambda>(k, x). (k, f x)) ys) = map (\<lambda>(k, x). (k, f x)) (insort_key fst (k, x) ys)" for k x ys
    by (induction ys) auto
  show ?thesis by (induction kvs) (auto simp: ins)
qed

lemma json_read_map:
  assumes "\<And>k x. (k, x) \<in> set kvs \<Longrightarrow> json_ints (f x)"
  shows "json_read (Marshal (json_map (map (\<lambda>(k, x). (k, f x)) kvs)))
    = Some (JObj (map (\<lambda>(k, x). (utf8_clean k, json_clean (f x))) (sort_key fst kvs)))"
proof -
  have "json_ints (json_map (map (\<lambda>(k, x). (k, f x)) kvs))"
    using assms by (auto simp: json_map_def list_all_iff)
  moreover have "json_clean (json_map (map (\<lambda>(k, x). (k, f x)) kvs))
      = JObj (map (\<lambda>(k, x). (utf8_clean k, json_clean (f x))) (sort_key fst kvs))"
    unfolding json_map_def sort_key_map_values by (simp add: comp_def case_prod_unfold)
  ultimately show ?thesis by (simp only: json_read_Marshal)
qed

lemma json_strings_simps: "json_ints (json_strings vs)" "json_clean (json_strings vs) = json_strings (map utf8_clean vs)"
  by (simp_all add: json_strings_def list_all_iff)

end
