(* ===== verification/Adapters.thy ===== *)
theory Adapters
  imports Worker JsonReader Progress "HOL-Library.AList"
begin

text \<open>
  The small adapters: the identifier generator (internal/id/uuid/uuid.go), and the Pub/Sub publisher
  (internal/publisher/pubsub/publisher.go) with its carrier of trace attributes. The UUID package, the
  Pub/Sub client and the trace propagator are parameters. What the worker stores and publishes as JSON
  can be read back.
\<close>

definition uuid_NewID :: "(uuid \<Rightarrow> bytes) \<Rightarrow> uuid result \<Rightarrow> bytes result" where
  "uuid_NewID str newV7 = (case newV7 of Inl e \<Rightarrow> Inl (Wrapped ''generate uuid7'' e) | Inr u \<Rightarrow> Inr (str u))"

definition uuid_NewRawID :: "uuid result \<Rightarrow> uuid result" where
  "uuid_NewRawID newV7 = (case newV7 of Inl e \<Rightarrow> Inl (Wrapped ''generate uuid7'' e) | Inr u \<Rightarrow> Inr u)"

definition uuid_NewV4ID :: "(uuid \<Rightarrow> bytes) \<Rightarrow> uuid result \<Rightarrow> bytes result" where
  "uuid_NewV4ID str newRandom = (case newRandom of Inl e \<Rightarrow> Inl (Wrapped ''generate uuid4'' e) | Inr u \<Rightarrow> Inr (str u))"

definition uuid_NewRawV4ID :: "uuid result \<Rightarrow> uuid result" where
  "uuid_NewRawV4ID newRandom = (case newRandom of Inl e \<Rightarrow> Inl (Wrapped ''generate uuid4'' e) | Inr u \<Rightarrow> Inr u)"

type_synonym pubsubCarrier = "(bytes \<times> bytes) list"

definition carrier_Get :: "pubsubCarrier \<Rightarrow> bytes \<Rightarrow> bytes" where
  "carrier_Get c key = (case map_of c key of None \<Rightarrow> '''' | Some v \<Rightarrow> v)"

definition carrier_Set :: "bytes \<Rightarrow> bytes \<Rightarrow> pubsubCarrier \<Rightarrow> pubsubCarrier" where
  "carrier_Set key value c = AList.update key value c"

definition carrier_Keys :: "pubsubCarrier \<Rightarrow> bytes list" where
  "carrier_Keys c = map fst c"

record pubsub_Message =
  msg_Data :: bytes
  msg_Attributes :: pubsubCarrier

definition payload_json :: "payload \<Rightarrow> json" where
  "payload_json p = json_map (map (\<lambda>(k, v). (k, JStr v)) p)"

definition pubsub_Publish ::
    "((ctx \<Rightarrow> pubsub_Message \<Rightarrow> 's \<Rightarrow> bytes result \<times> 's) option) \<Rightarrow> (ctx \<Rightarrow> pubsubCarrier \<Rightarrow> pubsubCarrier) \<Rightarrow>
     ctx \<Rightarrow> bytes \<Rightarrow> payload \<Rightarrow> 's \<Rightarrow> bytes result \<times> 's" where
  "pubsub_Publish publisher inject ctx topic payload s =
     (case publisher of
        None \<Rightarrow> (Inl (ErrorString ''pubsub publisher is not configured''), s)
      | Some send \<Rightarrow>
          (case send ctx \<lparr>msg_Data = Marshal (payload_json payload), msg_Attributes = inject ctx []\<rparr> s of
             (Inl e, s') \<Rightarrow> (Inl (Wrapped ''publish message'' e), s')
           | (Inr i, s') \<Rightarrow> (Inr i, s')))"

subsection \<open>Lemmas\<close>

lemma carrier_Get_Set: "carrier_Get (carrier_Set k v c) k' = (if k' = k then v else carrier_Get c k')"
  by (simp add: carrier_Get_def carrier_Set_def update_conv')

lemma carrier_Keys_Set: "distinct (carrier_Keys c) \<Longrightarrow> distinct (carrier_Keys (carrier_Set k v c))"
  by (simp add: carrier_Keys_def carrier_Set_def distinct_update)

subsection \<open>Stored and published JSON\<close>

lemma headers_read:
  "json_read (Marshal (headers_json h))
     = Some (JObj (map (\<lambda>(k, vs). (utf8_clean k, json_strings (map utf8_clean vs))) (sort_key fst (normalizeHeaders h))))"
  unfolding headers_json_def by (subst json_read_map) (simp_all add: json_strings_simps)

lemma payload_read:
  "json_read (Marshal (payload_json p)) = Some (JObj (map (\<lambda>(k, v). (utf8_clean k, JStr (utf8_clean v))) (sort_key fst p)))"
  unfolding payload_json_def by (subst json_read_map) simp_all

lemma meta_read:
  assumes "in_i64 (resp_StatusCode resp)" "int (length (resp_Body resp)) < 2 ^ 63"
  shows "json_read (Marshal (pageMetaPayload resp hash contentType jobID)) = Some (JObj
    [(''url'', JStr (utf8_clean (resp_URL resp))), (''status'', JInt (resp_StatusCode resp)),
     (''size'', JInt (int (length (resp_Body resp)))), (''sha256'', JStr (utf8_clean hash)),
     (''content_type'', JStr (utf8_clean contentType)), (''parent_id'', JStr ''''), (''job_uuid'', JStr (utf8_clean jobID))])"
proof -
  have "json_ints (pageMetaPayload resp hash contentType jobID)"
    using assms by (simp add: pageMetaPayload_def in_i64_def)
  then show ?thesis by (simp add: json_read_Marshal) (simp add: pageMetaPayload_def utf8_clean_ascii is_ascii_def)
qed

end
