(* ===== verification/UrlNormal.thy ===== *)
theory UrlNormal
  imports GoUrlRoundTrip CrawlerTypes
begin

text \<open>
  Normalised page URLs (internal/crawler/url.go): an http or https URL of a host name or IPv4 address
  with an optional port, an absolute or empty path and any query is printed by \<^verbatim>\<open>NormalizeURL\<close> in a
  form that parses back to its fields and that \<^verbatim>\<open>NormalizeURL\<close> leaves alone.
\<close>

subsection \<open>Hosts\<close>

definition host_name :: "bytes \<Rightarrow> bool" where
  "host_name h \<longleftrightarrow> h \<noteq> '''' \<and> list_all (\<lambda>c. is_alnum c \<or> c \<in> set ''.-'') h"

definition host_port :: "bytes \<Rightarrow> bool" where
  "host_port hp \<longleftrightarrow> (\<exists>h. host_name h \<and> (hp = h \<or> (\<exists>ds. list_all is_digit ds \<and> hp = h @ CHR '':'' # ds)))"

lemma host_name_literal: "host_name h \<Longrightarrow> host_literal h \<and> CHR '':'' \<notin> set h"
  by (auto simp: host_name_def host_literal_def list_all_iff is_alnum_def Let_def)

lemma digits_facts:
  assumes "list_all is_digit ds"
  shows "list_all host_safe ds" "CHR '':'' \<notin> set ds" "validOptionalPort (CHR '':'' # ds)"
  using assms
  by (auto simp: list_all_iff is_digit_def host_safe_def is_alnum_def Let_def validOptionalPort_def)

lemma host_port_safe: "host_port hp \<Longrightarrow> list_all host_safe hp \<and> hp \<noteq> ''''"
  using host_literal_safe host_name_literal digits_facts(1)
  by (auto simp: host_port_def host_name_def host_safe_def[of "CHR '':''"])

lemma parseHost_host_port:
  assumes "host_port hp"
  shows "parseHost hp = Some hp"
proof -
  note un = unescape_host_safe[of hp]
  have safe: "list_all host_safe hp" using host_port_safe[OF assms] by simp
  obtain h where h: "host_name h" and hp: "hp = h \<or> (\<exists>ds. list_all is_digit ds \<and> hp = h @ CHR '':'' # ds)"
    using assms by (auto simp: host_port_def)
  have br: "\<not> prefix ''['' hp"
    using h hp host_literal_chars[of h] host_name_literal[OF h] by (cases h) (auto simp: host_name_def)
  from hp show ?thesis
  proof
    assume "hp = h"
    then have "CHR '':'' \<notin> set hp" using host_name_literal[OF h] by simp
    then have "last_index hp (CHR '':'') = None" by (simp add: last_index_def index_byte_None)
    with br un[OF safe] show ?thesis by (simp add: parseHost_def)
  next
    assume "\<exists>ds. list_all is_digit ds \<and> hp = h @ CHR '':'' # ds"
    then obtain ds where ds: "list_all is_digit ds" "hp = h @ CHR '':'' # ds" by blast
    with last_index_last[OF digits_facts(2)[OF ds(1)], of h] digits_facts(3)[OF ds(1)] br un[OF safe]
    show ?thesis by (simp add: parseHost_def)
  qed
qed

subsection \<open>Lower case and default ports\<close>

lemma lower_alnum: "is_alnum c \<Longrightarrow> is_alnum (ascii_lower c)"
  by (auto simp: is_alnum_def Let_def code_ascii_lower)

lemma host_safe_ascii: "host_safe c \<Longrightarrow> code c < (128::nat)"
  by (auto simp: host_safe_def is_alnum_def Let_def)

lemma host_port_ascii: "host_port hp \<Longrightarrow> is_ascii hp"
  using host_port_safe[of hp] host_safe_ascii unfolding is_ascii_def list_all_iff by blast

lemma lower_name_char: "is_alnum c \<or> c \<in> set ''.-'' \<Longrightarrow> is_alnum (ascii_lower c) \<or> ascii_lower c \<in> set ''.-''"
proof (elim disjE)
  assume "c \<in> set ''.-''"
  then have "c = CHR ''.'' \<or> c = CHR ''-''" by simp
  then have "ascii_lower c = c" by (elim disjE) (simp_all add: ascii_lower_def)
  with \<open>c \<in> _\<close> show ?thesis by (simp only: simp_thms)
qed (simp only: lower_alnum simp_thms)

lemma lower_name: "host_name h \<Longrightarrow> host_name (map ascii_lower h)"
proof -
  assume h: "host_name h"
  then have "list_all (\<lambda>c. is_alnum (ascii_lower c) \<or> ascii_lower c \<in> set ''.-'') h"
    unfolding host_name_def by (elim conjE list.pred_mono_strong) (rule lower_name_char)
  with h show ?thesis unfolding host_name_def list.pred_map comp_def by (simp del: list.set)
qed

lemma lower_digits: "list_all is_digit ds \<Longrightarrow> map ascii_lower ds = ds"
  by (auto simp: list_all_iff is_digit_def ascii_lower_def intro!: map_idI)

text \<open>Cutting the port \<open>p\<close> off a host leaves a host that does not end in it.\<close>

lemma suffix_port:
  assumes "CHR '':'' \<notin> set h" "CHR '':'' \<notin> set ds"
  shows "suffix (CHR '':'' # p) (h @ CHR '':'' # ds) \<longleftrightarrow> p = ds"
proof
  assume "suffix (CHR '':'' # p) (h @ CHR '':'' # ds)"
  then obtain zs where "h @ CHR '':'' # ds = zs @ CHR '':'' # p" unfolding suffix_def by blast
  from iffD1[OF append_Cons_eq_iff[OF assms] this] show "p = ds" by simp
qed (auto simp: suffix_def)

lemma suffix_port_name: "CHR '':'' \<notin> set h \<Longrightarrow> \<not> suffix (CHR '':'' # p) h"
  by (auto simp: suffix_def)

lemma trim_port:
  assumes "host_port hp" "d = '''' \<or> d = CHR '':'' # p" "list_all is_digit p"
  shows "host_port (strings_TrimSuffix (map ascii_lower hp) d)"
    "d \<noteq> '''' \<Longrightarrow> \<not> suffix d (strings_TrimSuffix (map ascii_lower hp) d)"
proof -
  obtain h where h: "host_name h" and hp: "hp = h \<or> (\<exists>ds. list_all is_digit ds \<and> hp = h @ CHR '':'' # ds)"
    using assms(1) by (auto simp: host_port_def)
  let ?h = "map ascii_lower h"
  have n: "host_name ?h" "CHR '':'' \<notin> set ?h" using lower_name[OF h] host_name_literal by blast+
  have "host_port (strings_TrimSuffix (map ascii_lower hp) d) \<and> (d \<noteq> '''' \<longrightarrow> \<not> suffix d (strings_TrimSuffix (map ascii_lower hp) d))"
    using hp
  proof
    assume "hp = h"
    with n suffix_port_name[OF n(2), of p] assms(2) show ?thesis
      by (auto simp: strings_TrimSuffix_def host_port_def)
  next
    assume "\<exists>ds. list_all is_digit ds \<and> hp = h @ CHR '':'' # ds"
    then obtain ds where ds: "list_all is_digit ds" "hp = h @ CHR '':'' # ds" by blast
    have l: "map ascii_lower hp = ?h @ CHR '':'' # ds"
      using ds lower_digits by (simp add: ascii_lower_def)
    have nd: "host_port (?h @ CHR '':'' # ds)" using n(1) ds(1) by (auto simp: host_port_def)
    show ?thesis
    proof (cases "d = CHR '':'' # ds")
      case True
      then have "strings_TrimSuffix (map ascii_lower hp) d = ?h" unfolding l by (simp add: strings_TrimSuffix_def suffix_def)
      with n suffix_port_name[OF n(2)] True show ?thesis by (auto simp: host_port_def)
    next
      case False
      then have "d = '''' \<or> \<not> suffix d (map ascii_lower hp)"
        using assms(2) suffix_port[OF n(2) digits_facts(2)[OF ds(1)], of p] unfolding l by auto
      then show ?thesis using nd unfolding l by (auto simp: strings_TrimSuffix_def)
    qed
  qed
  then show "host_port (strings_TrimSuffix (map ascii_lower hp) d)"
    "d \<noteq> '''' \<Longrightarrow> \<not> suffix d (strings_TrimSuffix (map ascii_lower hp) d)" by blast+
qed

subsection \<open>Page URLs\<close>

definition page_url :: "url \<Rightarrow> bool" where
  "page_url u \<longleftrightarrow> (Scheme u = ''http'' \<or> Scheme u = ''https'') \<and> Opaque u = '''' \<and> User u = None \<and> host_port (Host u)
     \<and> RawPath u = '''' \<and> \<not> OmitHost u \<and> (Path u = '''' \<or> hd (Path u) = CHR ''/'')
     \<and> (ForceQuery u \<longrightarrow> RawQuery u = '''') \<and> list_all url_safe (RawQuery u)"

definition query_part :: "url \<Rightarrow> bytes" where
  "query_part u = (if ForceQuery u \<or> RawQuery u \<noteq> '''' then CHR ''?'' # RawQuery u else '''')"

lemma path_escaped:
  assumes "Path u = '''' \<or> hd (Path u) = CHR ''/''"
  shows "url_escape (Path u) encodePath = '''' \<or> (\<exists>p. url_escape (Path u) encodePath = CHR ''/'' # p)"
proof (cases "Path u")
  case (Cons c n)
  with assms have "c = CHR ''/''" by simp
  with Cons show ?thesis by (simp add: url_escape_def escape_char_def shouldEscape_def is_alnum_def)
qed (simp add: url_escape_def)

lemma page_url_String:
  assumes "page_url u" "Fragment u = ''''"
  shows "url_String u = Scheme u @ ''://'' @ Host u @ url_escape (Path u) encodePath @ query_part u"
proof -
  note p = assms(1)[unfolded page_url_def]
  have h: "url_escape (Host u) encodeHost = Host u" "Host u \<noteq> ''''"
    using p host_port_safe[of "Host u"] escape_host_safe by blast+
  have star: "Path u \<noteq> ''*''" using p by auto
  have "url_escape (Path u) encodePath \<noteq> '''' \<longrightarrow> prefix ''/'' (url_escape (Path u) encodePath)"
    using path_escaped[of u] p by auto
  with p h star assms(2) show ?thesis
    by (auto simp: url_String_def EscapedPath_def query_part_def Let_def)
qed

lemma getScheme_page: "sch = ''http'' \<or> sch = ''https'' \<Longrightarrow> getScheme (sch @ CHR '':'' # s) = Some (sch, s)"
  by (auto simp: getScheme_def)

lemma query_part_cut:
  assumes "ForceQuery u \<longrightarrow> RawQuery u = ''''" "CHR ''?'' \<notin> set r" "CHR ''?'' \<notin> set (RawQuery u)" "r \<noteq> []"
  shows "(suffix ''?'' (r @ query_part u) \<and> length (filter (\<lambda>c. c = CHR ''?'') (r @ query_part u)) = 1) = ForceQuery u"
    "ForceQuery u \<Longrightarrow> butlast (r @ query_part u) = r"
    "\<not> ForceQuery u \<Longrightarrow> (case strings_Cut (r @ query_part u) (CHR ''?'') of (a, b, _) \<Rightarrow> (a, b)) = (r, RawQuery u)"
proof -
  have none: "filter (\<lambda>c. c = CHR ''?'') r = []" using assms(2) by (auto simp: filter_empty_conv)
  show "(suffix ''?'' (r @ query_part u) \<and> length (filter (\<lambda>c. c = CHR ''?'') (r @ query_part u)) = 1) = ForceQuery u"
  proof (cases "ForceQuery u")
    case True
    then have "query_part u = ''?''" using assms(1) by (simp add: query_part_def)
    with True none show ?thesis by (simp add: suffix_def)
  next
    case False
    then have "query_part u = (if RawQuery u = [] then [] else CHR ''?'' # RawQuery u)" by (simp add: query_part_def)
    with False no_question_suffix[OF assms(2,3)] show ?thesis by simp
  qed
  show "ForceQuery u \<Longrightarrow> butlast (r @ query_part u) = r" using assms(1) by (simp add: query_part_def butlast_append)
  show "\<not> ForceQuery u \<Longrightarrow> (case strings_Cut (r @ query_part u) (CHR ''?'') of (a, b, _) \<Rightarrow> (a, b)) = (r, RawQuery u)"
    using Cut_first[OF assms(2), of "RawQuery u"] Cut_none[OF assms(2)] by (simp add: query_part_def)
qed

text \<open>The branch of the parser for an authority after the scheme.\<close>

lemma parse_authority:
  assumes "\<not> (\<exists>c \<in> set raw. code c < (32::nat) \<or> code c = (127::nat))" "raw \<noteq> ''*''" "getScheme raw = Some (sch, rest0)"
    and "map ascii_lower sch = sch" "sch \<noteq> ''''"
    and force: "(suffix ''?'' rest0 \<and> length (filter (\<lambda>c. c = CHR ''?'') rest0) = 1) = f"
    and cut: "(if f then (butlast rest0, '''') else case strings_Cut rest0 (CHR ''?'') of (a, b, _) \<Rightarrow> (a, b))
      = (CHR ''/'' # CHR ''/'' # a, q)"
    and i: "(case index_byte a (CHR ''/'') of None \<Rightarrow> length a | Some i \<Rightarrow> i) = i"
    and auth: "parseAuthority (take i a) = Some (usr, h)"
  shows "parse_no_fragment raw
    = setPath (empty_url\<lparr>Scheme := sch, ForceQuery := f, RawQuery := q, User := usr, Host := h\<rparr>) (drop i a)"
proof -
  have d: "drop 2 (CHR ''/'' # CHR ''/'' # a) = a" by simp
  show ?thesis
    unfolding parse_no_fragment_def assms(3) option.case prod.case Let_def assms(4) force cut d i auth
    using assms(1,2,5) by simp
qed

lemma page_url_Parse:
  assumes "page_url u" "Fragment u = ''''" "RawFragment u = ''''"
  shows "url_Parse (url_String u) = Some u"
proof -
  note p = assms(1)[unfolded page_url_def]
  let ?P = "url_escape (Path u) encodePath"
  let ?R = "CHR ''/'' # CHR ''/'' # Host u @ ?P"
  have hs: "list_all host_safe (Host u)" using p host_port_safe by blast
  have S: "url_String u = Scheme u @ CHR '':'' # ?R @ query_part u"
    using page_url_String[OF assms(1,2)] by simp
  have "\<forall>c \<in> set (Host u). url_safe c" "\<forall>c \<in> set (Host u). c \<noteq> CHR ''/'' \<and> c \<noteq> CHR ''@''"
    using hs host_safe_facts by (auto simp: list_all_iff)
  moreover have "\<forall>c \<in> set ?P. url_safe c" using escaped_safe[of _ "Path u" encodePath] by blast
  ultimately have safeR: "\<forall>c \<in> set ?R. url_safe c" and hslash: "CHR ''/'' \<notin> set (Host u)" and hat: "CHR ''@'' \<notin> set (Host u)"
    unfolding set_append list.set ball_Un ball_simps using safe_separators(1) by blast+
  then have qR: "CHR ''?'' \<notin> set ?R" by (auto simp: url_safe_def)
  have qq: "CHR ''?'' \<notin> set (RawQuery u)" and qs: "\<forall>c \<in> set (RawQuery u). url_safe c"
    using p unfolding list_all_iff url_safe_def by blast+
  have "\<forall>c \<in> set (Scheme u @ '':''). url_safe c" using p by (auto simp: url_safe_def)
  then have safeS: "\<forall>c \<in> set (url_String u). url_safe c \<or> c = CHR ''?''"
    using safeR qs unfolding S query_part_def by auto
  have hash: "CHR ''#'' \<notin> set (url_String u)" using safeS unfolding url_safe_def by blast
  note ctl = no_control[OF safeS]
  have auth: "parseAuthority (Host u) = Some (None, Host u)"
    using hat p parseHost_host_port by (simp add: parseAuthority_def last_index_def iffD2[OF index_byte_None])
  have path: "setPath v ?P = Some (v\<lparr>Path := Path u, RawPath := ''''\<rparr>)" for v by (rule setPath_escape)
  have i: "(case index_byte (Host u @ ?P) (CHR ''/'') of None \<Rightarrow> length (Host u @ ?P) | Some i \<Rightarrow> i) = length (Host u)"
    using path_escaped[of u] p hslash index_byte_first[OF hslash] by (auto simp: iffD2[OF index_byte_None])
  have sch: "map ascii_lower (Scheme u) = Scheme u" "Scheme u \<noteq> ''''" using p by (auto simp: ascii_lower_def)
  have star: "url_String u \<noteq> ''*''" unfolding S by (cases "Scheme u") auto
  have fq: "ForceQuery u \<longrightarrow> RawQuery u = ''''" using p by blast
  have eq: "empty_url\<lparr>Scheme := Scheme u, ForceQuery := ForceQuery u, RawQuery := RawQuery u, User := None, Host := Host u,
      Path := Path u, RawPath := ''''\<rparr> = u"
    using p assms(2,3) by (intro url.equality) (simp_all add: empty_url_def)
  have gs: "getScheme (Scheme u @ CHR '':'' # ?R @ query_part u) = Some (Scheme u, ?R @ query_part u)"
    using p by (intro getScheme_page) blast
  have split: "(if ForceQuery u then (butlast (?R @ query_part u), '''')
      else case strings_Cut (?R @ query_part u) (CHR ''?'') of (a, b, _) \<Rightarrow> (a, b)) = (?R, RawQuery u)"
    using query_part_cut(2,3)[OF fq qR qq] fq by auto
  have "parse_no_fragment (url_String u) = setPath (empty_url\<lparr>Scheme := Scheme u, ForceQuery := ForceQuery u,
      RawQuery := RawQuery u, User := None, Host := Host u\<rparr>) (drop (length (Host u)) (Host u @ ?P))"
    by (rule parse_authority[OF ctl star gs[folded S] sch query_part_cut(1)[OF fq qR qq] split i]) (simp_all add: auth)
  then have "parse_no_fragment (url_String u) = Some u" by (simp add: path eq[simplified])
  then show ?thesis using Cut_none[OF hash] by (simp add: url_Parse_def)
qed

subsection \<open>Normalisation\<close>

lemma Values_Encode_safe: "list_all url_safe (Values_Encode q)"
proof -
  have "list_all url_safe (encode_pair p)" for p
    using query_safe[of "fst p" "snd p"] by (simp add: Values_Encode_def)
  then have "\<forall>w \<in> set ws. list_all url_safe w \<Longrightarrow> list_all url_safe (join_with (CHR ''&'') ws)" for ws
    by (induction ws rule: induct_list012) (auto simp: url_safe_def[of "CHR ''&''"])
  with \<open>\<And>p. list_all url_safe (encode_pair p)\<close> show ?thesis by (auto simp: Values_Encode_def)
qed

lemma default_port_form: "\<exists>p. (default_port s = '''' \<or> default_port s = CHR '':'' # p) \<and> list_all is_digit p"
  by (intro exI[of _ "tl (default_port s)"]) (simp add: default_port_def is_digit_def)

lemma page_url_normalize:
  assumes "page_url u"
  shows "page_url (normalize_fields tab u)"
    "normalize_fields tab (normalize_fields tab u) = normalize_fields tab u"
    "Scheme (normalize_fields tab u) = Scheme u" "\<not> suffix (default_port (Scheme u)) (Host (normalize_fields tab u))"
proof -
  note p = assms[unfolded page_url_def]
  have sch: "strings_ToLower tab (Scheme u) = Scheme u" "is_ascii (Scheme u)"
    using p by (auto simp: strings_ToLower_def is_ascii_def ascii_lower_def)
  have host: "is_ascii (Host u)" using p host_port_ascii by blast
  obtain q where q: "default_port (Scheme u) = '''' \<or> default_port (Scheme u) = CHR '':'' # q" "list_all is_digit q"
    using default_port_form by blast
  have H: "Host (normalize_fields tab u) = strings_TrimSuffix (map ascii_lower (Host u)) (default_port (Scheme u))"
    using host by (simp add: Host_normalize_fields sch(1) strings_ToLower_ascii Let_def)
  note t = trim_port[OF _ q, of "Host u"]
  have "ForceQuery u \<longrightarrow> Values_Encode (url_Query u) = ''''"
    using p by (simp add: url_Query_def ParseQuery_def query_pair_def Values_Encode_def)
  then show "page_url (normalize_fields tab u)"
    using p t(1) Values_Encode_safe unfolding page_url_def H by (simp add: sch(1))
  show "normalize_fields tab (normalize_fields tab u) = normalize_fields tab u"
    using p t(2) by (intro normalize_fields_idem sch(2) host) (simp add: sch(1) H)
  show "Scheme (normalize_fields tab u) = Scheme u" by (simp add: sch(1))
  have "default_port (Scheme u) \<noteq> ''''" using p by (auto simp: default_port_def)
  then show "\<not> suffix (default_port (Scheme u)) (Host (normalize_fields tab u))" using p t(2) unfolding H by blast
qed

lemma url_String_RawFragment: "Fragment u = '''' \<Longrightarrow> url_String (u\<lparr>RawFragment := r\<rparr>) = url_String u"
  by (cases u) (simp only: url_String_def EscapedPath_def url.select_convs url.update_convs simp_thms if_False)

lemma normalize_RawFragment: "normalize_fields tab (u\<lparr>RawFragment := r\<rparr>) = (normalize_fields tab u)\<lparr>RawFragment := r\<rparr>"
  by (simp add: normalize_fields_def Let_def url_Query_def)

lemma NormalizeURL_page:
  assumes "url_Parse raw = Some u" "page_url u"
  shows "\<exists>s v. NormalizeURL tab raw = Some s \<and> url_Parse s = Some v \<and> v = (normalize_fields tab u)\<lparr>RawFragment := ''''\<rparr>
    \<and> NormalizeURL tab s = Some s"
proof -
  let ?n = "normalize_fields tab u"
  let ?v = "?n\<lparr>RawFragment := ''''\<rparr>"
  have v: "page_url ?v" "Fragment ?v = ''''" "RawFragment ?v = ''''"
    using page_url_normalize(1)[OF assms(2)] by (simp_all add: page_url_def)
  have s: "url_String ?v = url_String ?n" by (rule url_String_RawFragment) simp
  have nv: "normalize_fields tab ?v = ?v" using page_url_normalize(2)[OF assms(2)] by (simp add: normalize_RawFragment)
  have "url_Parse (url_String ?n) = Some ?v" using page_url_Parse[OF v] s by simp
  then show ?thesis using assms(1) s nv by (simp add: NormalizeURL_def)
qed

end
