(* ===== verification/Spec2Isabelle.thy ===== *)
theory Spec2Isabelle
  imports WorkerLoop ArtifactPaths Dispatcher JobRuns Policy ApiSpecs Application Adapters UrlNormal
begin

text \<open>
  A verification development of the crawler service realtime-cpi-crawler (Go, under src/).

  \<^bold>\<open>The program.\<close> A client submits a crawl job over HTTP (internal/api). The handler stores the job in the
  job store (internal/storage/memory) and enqueues it (internal/dispatcher, internal/queue/memory). A
  pool of workers (internal/worker) takes jobs from the queue. For each URL a worker asks the policy
  (internal/policy), fetches the page with the probe fetcher (internal/fetcher/colly), fetches it again with
  a browser when the detector says so (internal/headless/detector, internal/fetcher/headless), stores body,
  headers and metadata in a blob store (internal/storage), records the page and the retrieval row
  (internal/storage/postgres) and publishes a message (internal/publisher). Along the way it emits progress
  events (internal/progress) to a hub, which batches them for sinks (internal/progress/sinks) that write job
  runs and site statistics through a repository (internal/store, internal/storage/postgres), which the API
  reads. The service is configured by internal/config, wired by internal/server and observed through
  internal/telemetry.

  \<^bold>\<open>The theories.\<close> Each theory opens with what it holds; an operation has the name of the Go function,
  prefixed where two packages use the same name, and a struct is a record with the Go fields.

  \<^item> \<open>Prelude\<close>: error values with wrapping, 64-bit integers (\<open>i64\<close>), times, durations, contexts, collections of
    rewrite rules. \<open>GoStrings\<close>, \<open>GoPath\<close>, \<open>GoUrl\<close>, \<open>GoUrlRoundTrip\<close>, \<open>GoJson\<close>: the parts of Go's library the code
    relies on, over byte strings, with their round trips. \<open>JsonReader\<close>: a reader of JSON as the reference for
    what the encoder writes.
  \<^item> \<open>CrawlerTypes\<close>, \<open>UrlNormal\<close>: internal/crawler, and that the normal form of a URL is stable.
  \<^item> \<open>JobStore\<close>, \<open>BlobStore\<close>, \<open>Queue\<close>: the stores and the queue, each with the contract of its interface as a
    locale (\<open>job_store\<close>, \<open>blob_store\<close>, \<open>fifo_queue\<close>) that the model interprets. A blocking operation returns the
    list of its possible outcomes.
  \<^item> \<open>Detector\<close>: the promotion heuristic and a byte-by-byte reference for it.
  \<^item> \<open>Policy\<close>, \<open>Telemetry\<close>: rate limiter, simple policy, metric values.
  \<^item> \<open>Worker\<close>: the crawl pipeline as programs of the state monad over a record of services. \<open>WorkerTrace\<close>: a trace
    logic for it (every service call recorded, and the recorded run equal to the plain one).
    \<open>WorkerSpecs\<close>: what each method calls, in the locale \<open>services\<close>. \<open>MemoryWorld\<close>: the services that live in
    memory interpret that locale. \<open>WorkerLoop\<close>: \<^verbatim>\<open>Worker.Run\<close> on them, taking its jobs from the channel queue.
    \<open>ArtifactPaths\<close>: where artifacts are stored.
  \<^item> \<open>Dispatcher\<close>: the pool as a step relation over any \<open>fifo_queue\<close>, with shutdown.
  \<^item> \<open>Progress\<close>, \<open>Hub\<close>, \<open>ProgressRepo\<close>, \<open>Sinks\<close>: events, the hub as an interleaving of emitters, its goroutine and
    \<^verbatim>\<open>Close\<close>, the repository over two tables, the sinks (locale \<open>stats_repository\<close>). \<open>JobRuns\<close>: from a worker's
    events to the job run in the repository (locale \<open>run_repository\<close>).
  \<^item> \<open>ApiRequests\<close>, \<open>Api\<close>, \<open>ApiSpecs\<close>: request decoding, handlers, middleware and routes, and what a request can
    do to the state.
  \<^item> \<open>Configuration\<close>, \<open>Observability\<close>, \<open>Application\<close>: configuration, set-up of logging and telemetry, wiring,
    run and shutdown, process entry.
  \<^item> \<open>Robots\<close>, \<open>CollyFetcher\<close>, \<open>HeadlessFetcher\<close>, \<open>RetrievalStore\<close>, \<open>Adapters\<close>: the fetchers with the robots.txt
    transports, the browser slots, the retrieval rows, identifiers and the Pub/Sub publisher.

  \<^bold>\<open>What is shown\<close> (the properties C1 to C40 of this theory).

  \<^item> Jobs: a job taken by a worker ends in the status its counters and context determine (C1), with the
    history of calls that the code means to make (C2 to C5), from the HTTP request that submitted it through the
    queue and the worker's loop to the status endpoint (C24), and its run is recorded under its UUID (C35).
  \<^item> Artifacts: paths are accepted by the local store (C6), distinct per page (C7) and confined to the base
    directory (C9); the JSON that is stored and published reads back as what was written (C8).
  \<^item> Queue and pool: first in first out, no job lost or duplicated, shutdown ends (C10 to C12).
  \<^item> Progress: every accepted event is delivered once, in order, also over shutdown; the totals in the
    repository are those of the events; the running gauge counts running jobs (C13 to C18).
  \<^item> API: what an accepted, a rejected and an unauthorised request do, that each is answered, logged and counted
    once, and the bounds of listings (C19 to C23).
  \<^item> Configuration: validity of a loaded configuration, the DSN round trip, the rejected defaults
    (C25 to C27); wiring, shutdown order and telemetry of the built application (C33, C34, C40).
  \<^item> Fetchers and adapters: retries and cache of robots.txt, identity of responses, browser slots, retrieval
    statements (C28 to C32); promotion, job store, URL normal form, rate limiter (C36 to C39).

  \<^bold>\<open>Loops and bounds.\<close> Loops of the source are structural recursion, recursion with a proved measure, or
  counted attempts. The dispatcher and the hub run until shutdown and are step relations, with termination after
  shutdown proved. \<^verbatim>\<open>Worker.Run\<close> loops until its context is done, so \<open>Run\<close> takes the number of rounds; as many rounds
  as jobs are queued process them all (C24). The reference reader of JSON takes a bound on its recursion, for
  which the length of the input is enough (\<open>json_read\<close>, C8). Counters and durations that the code computes in 64
  bits wrap through \<open>i64\<close>; hypotheses on sizes (fewer than \<open>2 ^ 63\<close> URLs, durations in range) are named in the
  theorems.

  \<^bold>\<open>Parameters\<close> stand for what is not in the repository: the network with the colly collector and the
  browser, the Unicode case table, UUID generation and parsing, the token bucket of x/time/rate, the SHA-256 sum,
  the operating system's files, the cloud storage and Pub/Sub clients, the Postgres pool (statements have
  their relational meaning in \<open>ProgressRepo\<close>, with a script of faults), viper, the chi router, zap and
  OpenTelemetry, the clock and the cancellation of contexts. Map iteration order is a parameter where it
  could matter (\<open>ord\<close> of the store sink).

  \<^bold>\<open>Not modelled.\<close> Log output other than the access log, and tracing spans; the response writer's pass-through
  methods; the text of JSON responses beyond the value encoded; the fallback of the worker to
  the system clock without a clock (the application always passes one); a queue of capacity 0, which the
  configuration excludes; \<^verbatim>\<open>ReportResult\<close> of the policies, which does nothing; the fields of the HTTP
  transport (\<^verbatim>\<open>newHTTPTransport\<close>); decorations that \<^verbatim>\<open>%q\<close> and package strconv add to error texts.
\<close>

section \<open>Concrete data\<close>

text \<open>A small deployment for concrete runs: one page that answers with a body, a clock that counts
  seconds, contexts that are never done.\<close>

definition demo_params :: JobParameters where
  "demo_params = \<lparr>URLs = [''http://a.b/''], MaxDepth = 0, MaxPages = 1, BudgetSeconds = 60, HeadlessAllowed = False,
     HeadlessProvided = True, RespectRobots = False, RespectRobotsProvided = True, PerDomainCaps = None,
     Tags = None, AllowDomains = [], DenyDomains = []\<rparr>"

definition demo_job :: Job where
  "demo_job = \<lparr>job_ID = ''j1'', job_Status = JobStatusQueued, job_Submitted = 1, job_Started = None,
     job_Finished = None, job_ErrorText = '''', job_Parameters = demo_params, job_Counters = zero_counters\<rparr>"

definition demo_item :: QueueItem where
  "demo_item = \<lparr>item_JobID = ''j1'', item_JobStartedAt = 0, item_Params = demo_params, item_Attempt = 0,
     item_Submitted = 0\<rparr>"

definition demo_cfg :: Config where
  "demo_cfg = \<lparr>ContentType = '''', BlobPrefix = ''/pages/'', Topic = ''t'', JobTimeout = 0, RequestTimeout = 0,
     MaxRetries = 0, RetryBackoffBase = 0\<rparr>"

definition demo_out :: Outside where
  "demo_out =
     \<lparr>o_probe = (\<lambda>n r. Inr (zero_FetchResponse\<lparr>resp_URL := req_URL r, resp_StatusCode := 200, resp_Body := ''hi''\<rparr>)),
      o_headless = (\<lambda>n r. Inl (ErrorString ''none'')),
      o_time = (\<lambda>n. 63900000000000000000 + int n * Second),
      o_ctxErr = (\<lambda>ctx t. None),
      o_newV7 = (\<lambda>n. Inr (''p'' @ strconv_Itoa (int n))),
      o_sum256 = (\<lambda>d. take 32 d),
      o_parse = (\<lambda>s. Some (replicate 16 (CHR ''u''))),
      o_tab = (\<lambda>r. r), o_select = (\<lambda>n. n)\<rparr>"

definition demo_world :: World where
  "demo_world = zero_World\<lparr>mem_jobs := snd (CreateJob demo_job NewJobStore)\<rparr>"

definition demo_worker :: "World Worker" where
  "demo_worker = mem_worker demo_out demo_cfg (NewHeuristic 0)"

definition demo_probe :: "ctx \<Rightarrow> FetchRequest \<Rightarrow> (World, FetchResponse result) state" where
  "demo_probe = (\<lambda>ctx req. State (\<lambda>w.
     (o_probe demo_out (mem_fetches w) req, w\<lparr>mem_fetches := mem_fetches w + 1\<rparr>)))"

definition demo_os :: "((bytes \<times> bytes) list) os" where
  "demo_os = \<lparr>os_Stat = (\<lambda>p fs. Inr True), os_IsNotExist = (\<lambda>e. False), os_MkdirAll = (\<lambda>p fs. (None, fs)),
     os_WriteFile = (\<lambda>p d fs. (None, (p, d) # fs)), os_Remove = (\<lambda>p fs. (None, fs))\<rparr>"

definition demo_hub_cfg :: HubConfig where
  "demo_hub_cfg = \<lparr>BufferSize = 2, MaxBatchEvents = 1, MaxBatchWait = 1, SinkTimeout = 1\<rparr>"

definition demo_fetch :: "StatusClass \<Rightarrow> Event" where
  "demo_fetch cls = (new_Event (replicate 16 (CHR ''u'')) 1 StageFetchDone)
     \<lparr>evt_Site := ''a.b'', evt_Visits := 1, evt_Bytes := 7, evt_StatusClass := cls\<rparr>"

definition demo_db :: DB where
  "demo_db = \<lparr>job_runs = [], site_stats = [], db_faults = []\<rparr>"

definition demo_clients :: "unit Clients" where
  "demo_clients = \<lparr>zap_Build = (\<lambda>_. None),
     cl_otel = \<lparr>resource_New = (\<lambda>_. None), texporter_New = (\<lambda>_. None), otelprom_New = None\<rparr>, storage_NewClient = Inl (ErrorString ''no client''),
     pgx_ParseConfig = (\<lambda>_. Inr \<lparr>pool_MaxConns = 1, pool_MinConns = 0, pool_MaxConnLifetime = 0\<rparr>), pgx_Connect = (\<lambda>_. None),
     pgx_New = (\<lambda>_. None), pubsub_NewClient = (\<lambda>_. None)\<rparr>"

lemma demo_observability:
  "logging_New (zap_Build demo_clients) b = Inr ()"
  "\<exists>tp mp. fst (InitTelemetry (cl_otel demo_clients) cfg zero_telemetry) = (tp, mp, None)"
  by (simp_all add: demo_clients_def logging_New_def InitTelemetry_def init_body_def setupTracing_def setupMetrics_def
      zero_telemetry_def Let_def)

definition demo_sink :: "unit Sink" where
  "demo_sink = \<lparr>Consume = (\<lambda>b w. (None, w)), Sink_Close = (\<lambda>w. (None, w))\<rparr>"

definition demo_colly :: "unit Colly" where
  "demo_colly = \<lparr>BaseUserAgent = ''colly'', Visit = (\<lambda>c t u st. ([OnResponse u 200 None ''hi'' 1], None, st)),
     NetRoundTrip = (\<lambda>r s. (Inr syntheticRobotsAllowAllResponse, s)), NetTimeout = (\<lambda>_. False), NetWait = (\<lambda>d s. (None, s))\<rparr>"

definition demo_config :: ServiceConfig where
  "demo_config =
     \<lparr>cfg_Application = \<lparr>ApplicationName = ''cpi'', ServiceName = ''cpi'', app_Version = ''1'', app_ProjectID = ''cpi'',
        ProjectNumber = '''', Region = ''''\<rparr>,
      cfg_Server = \<lparr>srv_Port = 8080, srv_TimeoutSeconds = 60\<rparr>,
      cfg_Auth = \<lparr>auth_Enabled = True, APIKey = ''k''\<rparr>,
      cfg_Crawler = \<lparr>Concurrency = 4, UserAgent = ''bot'', IgnoreRobots = False, MaxDepthDefault = 1,
        MaxPagesDefault = 10, GlobalQueueDepth = 64\<rparr>,
      cfg_HTTP = \<lparr>http_TimeoutSeconds = 15\<rparr>,
      cfg_Headless = \<lparr>hl_Enabled = False, MaxParallel = 1, NavTimeoutSec = 25, PromotionThresh = 2048\<rparr>,
      cfg_Storage = \<lparr>Backend = ''memory'', Bucket = '''', Prefix = ''crawl'', st_ContentType = '''', Local_BaseDir = ''''\<rparr>,
      cfg_Database = \<lparr>DSN = '''', db_Host = ''db'', db_Port = 0, db_User = ''u'', db_Password = ''p@'', db_Name = ''n'',
        SSLMode = '''', MaxConns = 0, MinConns = 0, MaxConnLifetime = 0, RetrievalTable = ''r'', ProgressTable = ''p'',
        StatsTable = ''s''\<rparr>,
      cfg_PubSub = \<lparr>TopicName = '''', ps_ProjectID = ''''\<rparr>,
      cfg_Logging = \<lparr>Development = True\<rparr>,
      cfg_Metrics = \<lparr>met_Enabled = True, met_Path = ''/metrics'', met_ProjectID = ''''\<rparr>,
      cfg_Progress = \<lparr>pr_Enabled = True, pr_BufferSize = 8, Batch = \<lparr>MaxEvents = 4, MaxWaitMs = 500\<rparr>, SinkTimeoutMs = 100,
        LogEnabled = False\<rparr>,
      cfg_RateLimit = \<lparr>rl_Enabled = True, DefaultRPS = 1, DefaultBurst = 1\<rparr>,
      StandardJobs = Map.empty\<rparr>"

definition demo_viper :: viper where
  "demo_viper = \<lparr>ReadInConfig = (\<lambda>_. None), Unmarshal = (\<lambda>_ _. Inr demo_config)\<rparr>"

lemma demo_loads:
  obtains cfg where "Load demo_viper '''' '''' = Inr cfg"
    "cfg = demo_config\<lparr>cfg_Database := (cfg_Database demo_config)\<lparr>DSN := url_String (dsn_url (cfg_Database demo_config))\<rparr>\<rparr>"
proof -
  let ?c = "cfg_Database demo_config"
  have b: "\<not> blank (db_Host ?c)" "\<not> blank (db_User ?c)" "\<not> blank (db_Password ?c)" "\<not> blank (db_Name ?c)" "blank (DSN ?c)"
    "\<not> blank (RetrievalTable ?c)" "\<not> blank (ProgressTable ?c)" "\<not> blank (StatsTable ?c)"
    by code_simp+
  then have r: "resolveDSN ?c = Inr (?c\<lparr>DSN := url_String (dsn_url ?c)\<rparr>)"
    by (simp add: resolveDSN_def missing_settings_def Let_def)
  have "Validate (demo_config\<lparr>cfg_Database := ?c\<lparr>DSN := url_String (dsn_url ?c)\<rparr>\<rparr>) = Inr ()"
    using b by (simp add: Validate_def) (simp add: demo_config_def)
  with r that show ?thesis by (simp add: Load_def override_port_def demo_viper_def)
qed


definition demo_server :: "DB Server" where
  "demo_server = \<lparr>s_cfg = demo_config, s_repo = Some postgres_repo, s_parseUUID = Some, s_uuidString = id, s_tab = id\<rparr>"

definition demo_env :: Env where
  "demo_env = \<lparr>env_requestID = ''q1'', env_newID = Inr ''j2'', env_now = 7, env_queueDone = None, env_timedOut = False,
     env_elapsed = 0, env_logElapsed = 0, env_traceID = None, env_noRoute = writeError 404 ''page not found''\<rparr>"

definition demo_request :: Request where
  "demo_request = \<lparr>rq_Method = ''POST'', rq_Pattern = ''/v1/jobs/custom'', rq_URL = empty_url,
     rq_Header = (\<lambda>h. ''k''), rq_JobID = '''', rq_Body = Some (JObj [(''urls'', JArr [JStr ''http://a.b/''])]), rq_RequestID = None\<rparr>"

definition demo_api :: "DB ApiState" where
  "demo_api = \<lparr>api_jobs = NewJobStore, api_queue = NewQueue 1, api_repo = demo_db, api_metrics = zero_Metrics, api_log = []\<rparr>"

definition demo_submitted :: JobParameters where
  "demo_submitted = \<lparr>URLs = [''http://a.b/''], MaxDepth = 1, MaxPages = 10, BudgetSeconds = 15, HeadlessAllowed = False,
     HeadlessProvided = True, RespectRobots = True, RespectRobotsProvided = True, PerDomainCaps = Some [], Tags = Some [],
     AllowDomains = [], DenyDomains = []\<rparr>"

definition demo_access :: "int \<Rightarrow> access" where
  "demo_access c = \<lparr>acc_Method = ''POST'', acc_Path = ''/v1/jobs/custom'', acc_Status = c, acc_Duration = 0,
     acc_RequestID = ''q1'', acc_TraceID = None\<rparr>"

definition demo_accepted :: "DB ApiState" where
  "demo_accepted = demo_api\<lparr>
     api_jobs := NewJobStore\<lparr>js_jobs := [''j2'' \<mapsto> new_job ''j2'' 7 demo_submitted]\<rparr>,
     api_queue := (NewQueue 1)\<lparr>q_ch := [new_item ''j2'' 7 demo_submitted]\<rparr>,
     api_metrics := ObserveHTTPRequest ''POST'' ''/v1/jobs/custom'' 202 0 zero_Metrics, api_log := [demo_access 202]\<rparr>"

definition demo_response :: Response where
  "demo_response = \<lparr>rs_Status = 202, rs_Header = [(''X-Request-ID'', ''q1''), (''Content-Type'', ''application/json'')],
     rs_Payload = StringMap [(''job_id'', ''j2'')]\<rparr>"



definition demo_listing :: Request where
  "demo_listing = demo_request\<lparr>rq_Method := ''GET'', rq_Pattern := ''/api/jobs'',
     rq_URL := empty_url\<lparr>RawQuery := ''limit=1&status=+Success&offset=1''\<rparr>\<rparr>"

definition demo_run :: "bytes \<Rightarrow> timestamp \<Rightarrow> JobRunStatus \<Rightarrow> JobRun" where
  "demo_run i t st = \<lparr>run_ID = i, run_JobID = i, run_StartedAt = t, run_FinishedAt = None, run_Status = st, run_ErrorMessage = None\<rparr>"

definition demo_listed :: "DB ApiState" where
  "demo_listed = demo_api\<lparr>api_repo := demo_db\<lparr>job_runs :=
     [demo_run ''a'' 5 RunSuccess, demo_run ''b'' 7 RunError, demo_run ''c'' 9 RunSuccess]\<rparr>\<rparr>"

lemma demo_routed: "rq_Pattern r = ''/v1/jobs/custom'' \<Longrightarrow> rq_Method r = ''POST'' \<Longrightarrow> routed demo_config r = Some SubmitCustom"
  by (simp add: routed_def routes_def demo_config_def)

lemma demo_request_routed [simp]:
  "routed (s_cfg demo_server) (demo_request\<lparr>rq_Body := b, rq_RequestID := i\<rparr>) = Some SubmitCustom"
  "routed (s_cfg demo_server) (demo_request\<lparr>rq_RequestID := i\<rparr>) = Some SubmitCustom"
  by (simp_all add: demo_routed demo_server_def demo_request_def)

lemma demo_params_ok:
  "toJobParameters demo_config (zero_customJobRequest\<lparr>creq_URLs := [''http://a.b/'']\<rparr>) = Inr demo_submitted"
  by (simp add: toJobParameters_def zero_customJobRequest_def valueOrDefault_def boolOrDefault_def applyDefaults_def
      demo_config_def demo_submitted_def)

lemma demo_submission: "ServeHTTP demo_server demo_env demo_request demo_api = [(Returns demo_response, demo_accepted)]"
proof -
  have "decode_custom (JObj [(''urls'', JArr [JStr ''http://a.b/''])])
      = Some (zero_customJobRequest\<lparr>creq_URLs := [''http://a.b/'']\<rparr>)"
    by (simp add: dec_field_def key_matches_def)
  then have "submitCustomJob demo_server demo_env (demo_request\<lparr>rq_RequestID := i\<rparr>) demo_api =
      [(Returns (writeJSON 202 (StringMap [(''job_id'', ''j2'')])), demo_accepted\<lparr>api_metrics := zero_Metrics, api_log := []\<rparr>)]" for i
    using demo_params_ok
    by (simp add: submitCustomJob_def demo_request_def demo_server_def demo_env_def enqueueJob_def demo_submitted_def
        CreateJob_def new_job_def demo_api_def NewJobStore_def dispatcher_Enqueue_def Enqueue_def NewQueue_def Let_def
        demo_accepted_def)
  then have "ServeHTTP demo_server demo_env demo_request demo_api =
      [(Returns (delivered demo_env (Returns (writeJSON 202 (StringMap [(''job_id'', ''j2'')])))),
        observed demo_env demo_request (delivered demo_env (Returns (writeJSON 202 (StringMap [(''job_id'', ''j2'')]))))
          (demo_accepted\<lparr>api_metrics := zero_Metrics, api_log := []\<rparr>))]"
    by (simp add: ServeHTTP_outcomes apiKeyMiddleware_def route_def Let_def)
       (simp add: demo_server_def demo_config_def demo_request_def)
  then show ?thesis
    by (simp add: delivered_def observed_def demo_request_def demo_env_def demo_response_def demo_accepted_def writeJSON_def
        routeLabel_def demo_access_def)
qed


section \<open>The crawl pipeline\<close>

text \<open>C1. On the in-memory services a job that is in the job store when a worker takes it is, after the
  worker has processed it, in a terminal status that its counters and the job context determine:
  canceled when the job's context (the worker's context with the job's budget, or the configured
  timeout, as deadline) has ended when the worker looks at it after the last page, failed when it has
  not and no page succeeded, succeeded otherwise. No probe and no page record follows that look, whose
  result is what the context gives at that reading of the clock. A job without a succeeded page has an
  error text, the counters are not negative and add up to at most the number of URLs, and the gauge
  of active workers is back at its value.\<close>

theorem processed_job_is_final:
  assumes "js_jobs (mem_jobs w) (item_JobID item) \<noteq> None" "int (length (URLs (item_Params item))) < 2 ^ 63"
    and "w' = snd (run_state (processJob (mem_worker out c h) ctx item) w)" "jobCtx = job_ctx out c ctx (item_Params item) w"
  shows "\<exists>job before y after. GetJob (item_JobID item) (mem_jobs w') = Inr job
    \<and> run_state (processJob (traced (mem_worker out c h)) ctx item) (w, []) = ((), w', before @ CallCtxErr jobCtx y # after)
    \<and> picked probe_call after = [] \<and> picked page_call after = []
    \<and> y = o_ctxErr out jobCtx (o_time out (mem_reads w + readings before))
    \<and> job_Status job = (if y \<noteq> None then JobStatusCanceled
        else if PagesSucceeded (job_Counters job) = 0 then JobStatusFailed else JobStatusSucceeded)
    \<and> (PagesSucceeded (job_Counters job) = 0 \<longrightarrow> job_ErrorText job \<noteq> '''')
    \<and> 0 \<le> PagesSucceeded (job_Counters job) \<and> 0 \<le> PagesFailed (job_Counters job)
    \<and> PagesSucceeded (job_Counters job) + PagesFailed (job_Counters job) \<le> int (length (URLs (item_Params item)))
    \<and> crawlerActiveWorkers (mem_metrics w') = crawlerActiveWorkers (mem_metrics w)"
proof -
  have "GetJob (item_JobID item) (mem_jobs w') = Inr job" if "js_jobs (mem_jobs w') (item_JobID item) = Some job" for job
    using that by (simp add: GetJob_def)
  with mem_processJob[OF assms(1-3)] show ?thesis unfolding assms(4) finalStatus_def by blast
qed

theorem processed_job_is_final_witness:
  "\<exists>job. GetJob ''j1'' (mem_jobs (snd (run_state
       (processJob (mem_worker demo_out demo_cfg (NewHeuristic 0)) AppContext demo_item) demo_world))) = Inr job
    \<and> job_Status job \<in> {JobStatusFailed, JobStatusSucceeded}"
proof -
  have "js_jobs (mem_jobs demo_world) (item_JobID demo_item) \<noteq> None"
    by (simp add: demo_world_def demo_item_def demo_job_def CreateJob_def NewJobStore_def)
  moreover have "int (length (URLs (item_Params demo_item))) < 2 ^ 63"
    by (simp add: demo_item_def demo_params_def)
  moreover have "item_JobID demo_item = ''j1''" "o_ctxErr demo_out ctx t = None" for ctx t
    by (simp_all add: demo_item_def demo_out_def)
  ultimately show ?thesis
    using processed_job_is_final[OF _ _ refl refl, of demo_world demo_item demo_out demo_cfg "NewHeuristic 0" AppContext]
    by auto
qed

text \<open>C2. The history of a job for arbitrary services: the plain run of the worker is the traced run
  without its trace, and the trace starts and ends with the active-worker gauge, updates the job
  first to running and then once to its final status (or refuses the job when there is no probe
  fetcher, no job store or the first update fails), and emits the start event first, one fetch
  event per succeeded page and the event of the final status last. The final status is canceled
  exactly when the last look at the job's context, after all pages, finds it ended.\<close>

theorem job_history:
  assumes "NewID W \<noteq> None" "0 \<le> MaxRetries (w_cfg W)" "int (length (URLs (item_Params item))) < 2 ^ 63"
  shows "\<exists>w' t. run_state (processJob (traced W) ctx item) (w, []) = ((), w', t)
    \<and> run_state (processJob W ctx item) w = ((), w') \<and> job_post W ctx item t"
  using spec_run[OF any.processJob_spec[OF assms, of ctx] erases_processJob] by fastforce

theorem job_history_witness:
  "\<exists>w' t. run_state (processJob (traced (mem_worker demo_out demo_cfg (NewHeuristic 0))) AppContext demo_item)
       (demo_world, []) = ((), w', t)
    \<and> job_post (mem_worker demo_out demo_cfg (NewHeuristic 0)) AppContext demo_item t"
proof -
  have "int (length (URLs (item_Params demo_item))) < 2 ^ 63"
    by (simp add: demo_item_def demo_params_def)
  moreover have "0 \<le> MaxRetries (w_cfg (mem_worker demo_out demo_cfg (NewHeuristic 0)))"
    using New_config_retries[of demo_cfg] by simp
  ultimately show ?thesis
    using job_history[of "mem_worker demo_out demo_cfg (NewHeuristic 0)" demo_item AppContext demo_world] by auto
qed

text \<open>C3. The probe with retries makes at least one and at most \<^verbatim>\<open>MaxRetries+1\<close> probes, all for the same
  request, unless the context ends while it waits; every probe before the last failed with an error
  that is not a context error; the waits are the base delay times 1, 2, 3, ... in 64-bit arithmetic;
  the result is that of the last probe, or the context's error when the wait was interrupted.\<close>

theorem probe_retry_history:
  assumes "probeFetcher W = Some f" "0 \<le> MaxRetries (w_cfg W)"
  shows "\<exists>r w' t. run_state (fetchProbeWithRetry (traced W) (traced_fetcher f) ctx item u) (w, []) = (r, w', t)
    \<and> run_state (fetchProbeWithRetry W f ctx item u) w = (r, w')
    \<and> retry_post (RetryBackoffBase (w_cfg W)) (fetch_request item u False) (nat (MaxRetries (w_cfg W)) + 1) 0 r t"
  using spec_run[OF any.fetchProbeWithRetry_spec[OF assms, of ctx item u] erases_fetchProbeWithRetry] by blast

theorem probe_retry_history_witness:
  "\<exists>r w' t. run_state (fetchProbeWithRetry (traced demo_worker) (traced_fetcher demo_probe) AppContext demo_item ''http://a.b/'')
       (demo_world, []) = (r, w', t)
    \<and> retry_post (RetryBackoffBase (w_cfg demo_worker)) (fetch_request demo_item ''http://a.b/'' False) 4 0 r t"
proof -
  have "probeFetcher demo_worker = Some demo_probe" "MaxRetries (w_cfg demo_worker) = 3"
    by (simp_all add: demo_worker_def demo_probe_def mem_worker_def New_config_def demo_cfg_def Let_def)
  then show ?thesis
    using probe_retry_history[of demo_worker demo_probe AppContext demo_item "''http://a.b/''" demo_world] by auto
qed

text \<open>C4. Persisting a page stops at the first call that fails and returns the error of that call, wrapped with
  the step it belongs to (hashing, the page id, the raw object, headers, metadata or screenshot, the page
  record, the retrieval row, the message); it succeeds when no call fails, and then it has, in this
  order, hashed the body, drawn a page id, stored the body, the headers, the metadata and the screenshot
  if there is one, recorded the page with the digest and the body's URI, stored the retrieval row, and
  published the message that names the page, the job and the two blob URIs.\<close>

theorem persist_history:
  assumes "jobStore W = Some js" "NewID W \<noteq> None"
  shows "\<exists>r w' t. run_state (persistAndPublish (traced W) (traced_store js) ctx j st u resp) (w, []) = (r, w', t)
    \<and> run_state (persistAndPublish W js ctx j st u resp) w = (r, w')
    \<and> fail_stop r t \<and> r = page_result 0 t \<and> (\<not> isl r \<longrightarrow> is_page_run W j st u resp t)"
  using persist_run[OF assms] unfolding persist_post_def by blast

theorem persist_history_witness:
  "\<exists>js r w' t. run_state (persistAndPublish (traced demo_worker) (traced_store js) AppContext ''j1'' 1 ''http://a.b/''
       (zero_FetchResponse\<lparr>resp_Body := ''hi''\<rparr>)) (demo_world, []) = (r, w', t)
    \<and> fail_stop r t"
proof -
  obtain js where "jobStore demo_worker = Some js"
    by (simp add: demo_worker_def mem_worker_def)
  moreover have "NewID demo_worker \<noteq> None" by (simp add: demo_worker_def)
  ultimately show ?thesis
    using persist_history[of demo_worker js AppContext "''j1''" 1 "''http://a.b/''"
        "zero_FetchResponse\<lparr>resp_Body := ''hi''\<rparr>" demo_world] by blast
qed

text \<open>C5. A page is rendered exactly when the job allows headless fetches, a detector and a headless fetcher are
  configured, the policy (asked once, when there is one) allows it and the detector promotes the probe
  response. The one headless fetch then made is for the same page within the request timeout; its
  response, marked as rendered, replaces the probe response unless the fetch failed. In every other
  case nothing is fetched and the probe response is kept.\<close>

theorem promotion_history:
  "\<exists>res w' t. run_state (maybePromote (traced W) ctx item u resp) (w, []) = (res, w', t)
    \<and> run_state (maybePromote W ctx item u resp) w = (res, w') \<and> promote_post W ctx item u resp res t"
  using spec_run[OF any.maybePromote_spec[of W ctx item u resp] erases_maybePromote] by blast

section \<open>Artifacts\<close>

text \<open>C6. The local blob store accepts every artifact path of the worker when the base directory has a
  named last element and the blob prefix consists of names only: the containment check passes and
  the file lies strictly below the base directory.\<close>

theorem artifact_accepted_by_local_store:
  assumes "base \<noteq> ''''" "clean_segs base \<noteq> []" "list_all proper (prefix_segments c)"
    "CHR ''/'' \<notin> set pageID" "name \<in> {''raw.html'', ''headers.json'', ''meta.json'', ''screenshot.png''}"
    and "p = path_Join [buildBlobPath tb c ts host pageID, name]"
  shows "fst (local_PutObject os base p ct rd fs) \<noteq> Inl (ErrorString ''path traversal detected'')
    \<and> contained_in base (path_Join [base, p])"
proof -
  have n: "proper name" using assms(5) by (auto simp: proper_def)
  have pre: "\<forall>w \<in> set (prefix_segments c). proper w" using assms(3) by (simp add: list_all_iff)
  note acc = local_accepts[OF assms(1,2) pre assms(4) n refl, of tb ts host]
  show ?thesis
    using acc by (auto simp: assms(6) local_PutObject_def Let_def split: prod.splits option.splits sum.splits)
qed

theorem artifact_accepted_by_local_store_witness:
  "contained_in ''/data'' (path_Join [''/data'', path_Join [buildBlobPath (\<lambda>r. r) demo_cfg 0 ''a.b'' ''p1'', ''raw.html'']])"
proof -
  have "clean_segs ''/data'' = [''data'']" by code_simp
  moreover have "list_all proper (prefix_segments demo_cfg)" by code_simp
  ultimately show ?thesis
    using artifact_accepted_by_local_store[of "''/data''" demo_cfg "''p1''" "''raw.html''" _ "\<lambda>r. r" 0 "''a.b''", OF _ _ _ _ _ refl, where os = demo_os] by simp
qed

text \<open>C7. Two artifacts of one worker configuration share a path only when they are the same artifact of
  the same page: page id and file name agree.\<close>

theorem artifact_paths_distinct:
  assumes "CHR ''/'' \<notin> set i1" "CHR ''/'' \<notin> set i2" "proper n1" "proper n2"
    "path_Join [buildBlobPath tb c t1 h1 i1, n1] = path_Join [buildBlobPath tb c t2 h2 i2, n2]"
  shows "i1 = i2 \<and> n1 = n2 \<and> sanitizeHost tb h1 = sanitizeHost tb h2"
proof -
  have "prefix_segments c @ artifact_segments tb t1 h1 i1 @ [n1] = prefix_segments c @ artifact_segments tb t2 h2 i2 @ [n2]"
    using assms(5) artifact_path_segments(1)[OF assms(1,3), of tb c t1 h1]
      artifact_path_segments(1)[OF assms(2,4), of tb c t2 h2] by simp
  then show ?thesis by (simp add: artifact_segments_def)
qed

theorem artifact_paths_distinct_witness:
  "path_Join [buildBlobPath (\<lambda>r. r) demo_cfg 0 ''a.b'' ''p1'', ''raw.html'']
     \<noteq> path_Join [buildBlobPath (\<lambda>r. r) demo_cfg 0 ''a.b'' ''p2'', ''raw.html'']"
  using artifact_paths_distinct[of "''p1''" "''p2''" "''raw.html''" "''raw.html''" "\<lambda>r. r" demo_cfg 0 "''a.b''" 0 "''a.b''"]
  by (auto simp: proper_def)

text \<open>C8. What a page leaves behind as JSON can be read back: when a page was persisted, the object stored as
  headers.json reads as the response's headers, in key order and with all values, the one stored as
  meta.json as the final URL, status, size, digest, content type and job of the page, and the message
  published for it as its payload. Strings come back with invalid UTF-8 replaced.\<close>

theorem stored_json_reads_back:
  assumes "jobStore W = Some js" "NewID W \<noteq> None"
    and "run_state (persistAndPublish (traced W) (traced_store js) ctx j st u resp) (w, []) = (Inr (), w', t)"
    and "in_i64 (resp_StatusCode resp)" "int (length (resp_Body resp)) < 2 ^ 63"
  shows "\<exists>base hash headers meta x y. CallHash (resp_Body resp) (Inr hash) \<in> set t
    \<and> CallPutObject (path_Join [base, ''headers.json'']) ''application/json'' headers (Inr x) \<in> set t
    \<and> CallPutObject (path_Join [base, ''meta.json'']) ''application/json'' meta (Inr y) \<in> set t
    \<and> json_read headers = Some (JObj (map (\<lambda>(k, vs). (utf8_clean k, json_strings (map utf8_clean vs)))
        (sort_key fst (normalizeHeaders (resp_Headers resp)))))
    \<and> json_read meta = Some (JObj
        [(''url'', JStr (utf8_clean (resp_URL resp))), (''status'', JInt (resp_StatusCode resp)),
         (''size'', JInt (int (length (resp_Body resp)))), (''sha256'', JStr (utf8_clean hash)),
         (''content_type'', JStr (utf8_clean (contentTypeFromResponse resp (ContentType (w_cfg W))))),
         (''parent_id'', JStr ''''), (''job_uuid'', JStr (utf8_clean j))])
    \<and> (\<forall>topic p z. CallPublish topic p z \<in> set t \<longrightarrow>
        json_read (Marshal (payload_json p)) = Some (JObj (map (\<lambda>(k, v). (utf8_clean k, JStr (utf8_clean v))) (sort_key fst p))))"
proof -
  have "is_page_run W j st u resp t"
    using persist_run[OF assms(1,2), of ctx j st u resp w] assms(3) by (auto simp: persist_post_def)
  from page_run_json[OF this] headers_read[of "resp_Headers resp"] payload_read meta_read[OF assms(4,5)]
  show ?thesis by blast
qed

theorem stored_json_reads_back_witness:
  "\<exists>js w' t p headers x. run_state (persistAndPublish (traced demo_worker) (traced_store js) AppContext ''j1'' 1 ''http://a.b/''
       (zero_FetchResponse\<lparr>resp_StatusCode := 200, resp_Headers := Some [(''A'', [''b''])]\<rparr>)) (demo_world, []) = (Inr (), w', t)
    \<and> CallPutObject p ''application/json'' headers (Inr x) \<in> set t
    \<and> json_read headers = Some (JObj [(''A'', JArr [JStr ''b''])])"
proof -
  let ?resp = "zero_FetchResponse\<lparr>resp_StatusCode := 200, resp_Headers := Some [(''A'', [''b''])]\<rparr>"
  obtain js where js: "jobStore demo_worker = Some js" by (simp add: demo_worker_def mem_worker_def)
  have id: "NewID demo_worker \<noteq> None" by (simp add: demo_worker_def)
  have "fst (run_state (persistAndPublish demo_worker js AppContext ''j1'' 1 ''http://a.b/'' ?resp) demo_world) = Inr ()"
    using mem_persist_ok js unfolding demo_worker_def by (simp add: demo_out_def)
  then obtain w' t where r: "run_state (persistAndPublish (traced demo_worker) (traced_store js) AppContext ''j1'' 1 ''http://a.b/'' ?resp)
      (demo_world, []) = (Inr (), w', t)"
    using persist_run[OF js id, of AppContext "''j1''" 1 "''http://a.b/''" ?resp demo_world] by auto
  have "in_i64 (resp_StatusCode ?resp)" "int (length (resp_Body ?resp)) < 2 ^ 63"
    and read: "JObj (map (\<lambda>(k, vs). (utf8_clean k, json_strings (map utf8_clean vs))) (sort_key fst (normalizeHeaders (resp_Headers ?resp))))
      = JObj [(''A'', JArr [JStr ''b''])]"
    by (simp_all add: zero_FetchResponse_def in_i64_def normalizeHeaders_def json_strings_def utf8_clean_ascii is_ascii_def)
  from stored_json_reads_back[OF js id r this(1,2), unfolded read] r show ?thesis by blast
qed

text \<open>C9. Whatever path the caller passes and however the call ends, the local blob store touches nothing outside
  its base directory: every directory it creates lies at or below it, every file it writes strictly
  below it and with the bytes it was given, and it removes nothing. A path that the containment check refuses
  causes no call at all. A successful call has written the file and returns its URI. The base directory
  must not end in dot-dot once cleaned: below such a base directory the prefix check of the code accepts
  paths that lead out of it (\<open>dotdot_base_escapes\<close>).\<close>

theorem local_write_contained:
  assumes "base \<noteq> ''''" "clean_segs base = [] \<or> last (clean_segs base) \<noteq> ''..''"
    and "local_PutObject (logged_os os) base p ct rd (fs, []) = (r, fs', ops)"
  shows "local_PutObject os base p ct rd fs = (r, fs') \<and> list_all (op_contained base rd) ops
    \<and> (r = Inl (ErrorString ''path traversal detected'') \<longrightarrow> ops = [])
    \<and> (\<forall>uri. r = Inr uri \<longrightarrow> uri = ''file://'' @ path_Join [base, p] \<and> contained_in base (path_Join [base, p])
        \<and> (\<exists>d. rd = Inr d \<and> ops = [OpMkdirAll (path_Dir (path_Join [base, p])), OpWriteFile (path_Join [base, p]) d]))"
proof (intro conjI allI impI)
  show "local_PutObject os base p ct rd fs = (r, fs')" by (rule local_put_logged[OF assms(3)])
  show "list_all (op_contained base rd) ops" by (rule local_put_contained(1)[OF assms])
  show "ops = []" if "r = Inl (ErrorString ''path traversal detected'')"
    using assms(3) unfolding that by (rule local_put_refused)
qed (use local_put_contained(2)[OF assms] in simp_all)

theorem local_write_contained_witness:
  "list_all (op_contained ''/d'' (Inr ''x'')) [OpMkdirAll ''/d'', OpWriteFile ''/d/a'' ''x'']"
proof -
  have "local_PutObject (logged_os demo_os) ''/d'' ''a'' '''' (Inr ''x'') ([], [])
      = (Inr ''file:///d/a'', [(''/d/a'', ''x'')], [OpMkdirAll ''/d'', OpWriteFile ''/d/a'' ''x''])"
    by code_simp
  moreover have "last (clean_segs ''/d'') \<noteq> ''..''" by code_simp
  ultimately show ?thesis
    using local_write_contained[of "''/d''" demo_os "''a''" "''''" "Inr ''x''" "[]"] by simp
qed

section \<open>Queue and worker pool\<close>

text \<open>C10. Over any history of enqueues, dequeues and closes of the channel queue, the accepted items are
  the taken items followed by the buffered ones, so nothing is lost, duplicated or reordered, and
  the buffer never exceeds the capacity.\<close>

theorem queue_is_fifo:
  assumes "history Enqueue Dequeue Close_queue (NewQueue n) q ins outs"
  shows "ins = outs @ q_ch q \<and> length (q_ch q) \<le> n"
  using chan.history_fifo[OF assms] by (simp add: NewQueue_def)

theorem queue_is_fifo_witness:
  "[demo_item] = [] @ q_ch ((NewQueue 1)\<lparr>q_ch := [demo_item]\<rparr>) \<and> length (q_ch ((NewQueue 1)\<lparr>q_ch := [demo_item]\<rparr>)) \<le> 1"
proof -
  have "history Enqueue Dequeue Close_queue (NewQueue 1) ((NewQueue 1)\<lparr>q_ch := [demo_item]\<rparr>) ([] @ [demo_item]) []"
    by (rule history.put[OF history.start, where d = None]) (simp add: Enqueue_ok NewQueue_def)
  from queue_is_fifo[OF this] show ?thesis by simp
qed

text \<open>C11. In every reachable state of a pool of \<open>n\<close> workers over the channel queue, under every
  interleaving of submitters, workers and shutdown, the accepted jobs are the started ones followed
  by the queued ones, each started job is in flight in one worker or finished, once, and at most
  \<open>n\<close> jobs are in flight.\<close>

theorem pool_conserves_jobs:
  assumes "pool_reach Enqueue Dequeue Close_queue (NewPool (NewQueue k) n) p"
  shows "p_accepted p = p_started p @ q_ch (p_queue p)
    \<and> mset (p_started p) = flying (p_workers p) + mset (p_finished p)
    \<and> size (flying (p_workers p)) \<le> n"
proof -
  have "pool_inv q_ch n p" using chan.pool_inv_reach[OF assms] by (simp add: NewQueue_def)
  then show ?thesis using flying_size[of "p_workers p"] by (simp add: pool_inv_def)
qed

theorem pool_conserves_jobs_witness:
  "p_accepted (NewPool (NewQueue 1) 2) = p_started (NewPool (NewQueue 1) 2) @ q_ch (NewQueue 1)"
  using pool_conserves_jobs[OF pool_reach.initial[of Enqueue Dequeue Close_queue "NewPool (NewQueue 1) 2"]]
  by (simp add: NewPool_def)

text \<open>C12. After the shutdown signal the dispatcher's \<^verbatim>\<open>Run\<close> returns: every sequence of worker steps is
  at most as long as the workload of the state, and a state in which \<^verbatim>\<open>Run\<close> has not returned
  always has a further worker step, so every maximal sequence ends with all workers returned.\<close>

theorem pool_shutdown_terminates:
  assumes "p_done p \<noteq> None" "(worker_step Dequeue ^^ k) p p'"
  shows "k \<le> workload q_ch p \<and> (Run_returns p' \<or> (\<exists>p''. worker_step Dequeue p' p''))"
proof -
  have b: "k + workload q_ch p' \<le> workload q_ch p" "p_done p' = p_done p"
    using chan.pool_steps_bounded[OF assms(2,1)] by simp_all
  then have "Run_returns p' \<or> (\<exists>p''. worker_step Dequeue p' p'')"
    using pool_progress[of p' Dequeue] Dequeue_ready assms(1) by auto
  with b show ?thesis by simp
qed

theorem pool_shutdown_terminates_witness:
  "\<exists>p''. worker_step Dequeue ((NewPool (NewQueue 1) 1)\<lparr>p_done := Some ContextCanceled\<rparr>) p''"
  using pool_shutdown_terminates[of "(NewPool (NewQueue 1) 1)\<lparr>p_done := Some ContextCanceled\<rparr>" 0
      "(NewPool (NewQueue 1) 1)\<lparr>p_done := Some ContextCanceled\<rparr>"]
  by (simp add: Run_returns_def NewPool_def)

section \<open>Progress pipeline\<close>

text \<open>C13. In every reachable state of the hub, under every interleaving of emitters, the batching
  goroutine, its timer and \<^verbatim>\<open>Close\<close>: the accepted events are the flushed batches, the pending
  batch and the buffered events, in the order of acceptance; all of them are valid; no flushed batch
  is empty or larger than the configured maximum; the buffer respects its size; and the drops are
  the logged ones plus the current count.\<close>

theorem hub_preserves_events:
  assumes "hub_reach cfg sinks w h"
  shows "g_accepted h = concat (g_flushed h) @ run_batch h @ hub_events h
    \<and> set (g_accepted h) \<subseteq> valid_events
    \<and> list_all (\<lambda>b. b \<noteq> [] \<and> int (length b) \<le> MaxBatchEvents (default_config cfg)) (g_flushed h)
    \<and> int (length (hub_events h)) \<le> BufferSize (default_config cfg)
    \<and> sum_list (g_warned h) + hub_dropped h = g_drops h"
  using hub_invD[OF hub_inv_reach[OF assms]] by (simp add: list_all_iff)

theorem hub_preserves_events_witness:
  "g_accepted (NewHub demo_hub_cfg [] ()) = concat (g_flushed (NewHub demo_hub_cfg [] ()))
     @ run_batch (NewHub demo_hub_cfg [] ()) @ hub_events (NewHub demo_hub_cfg [] ())"
  using hub_preserves_events[OF hub_start[of demo_hub_cfg "[]" "()"]] by blast

text \<open>C14. Shutdown of the hub, with emitters still racing. From a closed hub whose goroutine runs, every run
  ends: at most three steps per emitter that had passed the closed check, two per buffered event and
  three more change the state, and as long as the goroutine has not ended one of them is possible.
  When it has ended, everything accepted up to the close has been flushed, in order. What the
  channel still holds then, and no sink will see, was sent afterwards by emitters that had passed
  the check before the close: without such emitters everything accepted has been flushed.\<close>

theorem hub_shutdown_flushes_all:
  assumes "hub_reach cfg sinks w h" "hub_closed h" "\<not> hub_done h"
  shows "(\<forall>n h'. (hub_move ^^ n) h h' \<longrightarrow> n \<le> 3 * length (hub_inflight h) + 2 * length (hub_events h) + 3)
    \<and> (\<forall>h'. hub_step\<^sup>*\<^sup>* h h' \<longrightarrow> hub_done h' \<or> (\<exists>h''. hub_move h' h''))
    \<and> (\<forall>h'. hub_step\<^sup>*\<^sup>* h h' \<and> hub_done h' \<longrightarrow>
         prefix (g_accepted h) (concat (g_flushed h')) \<and> g_accepted h' = concat (g_flushed h') @ hub_events h'
         \<and> mset (hub_events h') \<subseteq># mset (hub_inflight h))"
proof (intro conjI allI impI)
  fix n h' assume "(hub_move ^^ n) h h'"
  from hub_moves_bounded[OF this assms(2)] show "n \<le> 3 * length (hub_inflight h) + 2 * length (hub_events h) + 3"
    by (auto simp: hub_work_def split: if_splits)
next
  fix h' assume s: "hub_step\<^sup>*\<^sup>* h h'"
  note I = hub_inv_reach[OF hub_reach_steps[OF s assms(1)]]
  have d: "draining (g_accepted h) (mset (hub_inflight h)) h'"
    by (rule draining_steps[OF s assms(1) draining_start[OF assms(2,3)]])
  then show "hub_done h' \<or> (\<exists>h''. hub_move h' h'')" using hub_can_move[OF I] by (auto simp: draining_def)
next
  fix h' assume "hub_step\<^sup>*\<^sup>* h h' \<and> hub_done h'"
  then have s: "hub_step\<^sup>*\<^sup>* h h'" and e: "hub_done h'" by simp_all
  from drained[OF hub_inv_reach[OF hub_reach_steps[OF s assms(1)]] draining_steps[OF s assms(1) draining_start[OF assms(2,3)]] e]
  show "prefix (g_accepted h) (concat (g_flushed h'))" "g_accepted h' = concat (g_flushed h') @ hub_events h'"
    "mset (hub_events h') \<subseteq># mset (hub_inflight h)" by simp_all
qed

theorem hub_shutdown_flushes_all_witness:
  "\<exists>h'. hub_move (hub_Close (NewHub demo_hub_cfg [] ())) h'"
proof -
  have "hub_reach demo_hub_cfg [] () (hub_Close (NewHub demo_hub_cfg [] ()))"
    by (rule hub_next[OF hub_start]) (rule hub_step.close)
  moreover have "hub_closed (hub_Close (NewHub demo_hub_cfg [] ()))" "\<not> hub_done (hub_Close (NewHub demo_hub_cfg [] ()))"
    by (simp_all add: hub_Close_def NewHub_def)
  ultimately show ?thesis using hub_shutdown_flushes_all[of demo_hub_cfg "[]" "()"] by (meson rtranclp.rtrancl_refl)
qed

text \<open>C15. Until the sinks are closed, what the sinks have been through is exactly the flushed batches,
  batch after batch and within a batch sink after sink, whatever errors they return.\<close>

theorem sinks_see_flushed_batches:
  assumes "hub_reach cfg sinks w h" "\<not> hub_done h"
  shows "hub_world h = fold (\<lambda>b w. fold (\<lambda>sink w. case sink of None \<Rightarrow> w | Some s \<Rightarrow> snd (Consume s b w)) sinks w)
    (g_flushed h) w"
  using hub_world_reach[OF assms] hub_invD(2)[OF hub_inv_reach[OF assms(1)]]
  by (simp add: sinks_world_def flush_sinks_def[abs_def])

theorem sinks_see_flushed_batches_witness:
  "hub_world (NewHub demo_hub_cfg [None] (5::nat)) = 5"
  using sinks_see_flushed_batches[OF hub_start[of demo_hub_cfg "[None]" "5::nat"]] by (simp add: NewHub_def)

text \<open>C16. On a healthy database, the store sink turns a batch whose fetch events have known status
  classes into site statistics without losing or inventing counts: for every job and site, the
  stored visits and bytes grow by exactly the sums over the batch's fetch events of that job and
  site, in whatever order Go iterates over its map of deltas.\<close>

theorem store_sink_totals:
  assumes "db_faults db = []" "stats_unique db" "small_batch batch" "fetch_classes_known batch"
    "\<And>xs. mset (ord xs) = mset xs"
  shows "\<exists>db'. StoreSink_Consume (Some postgres_repo) ord batch db = (None, db') \<and> stats_unique db'
    \<and> (\<forall>j s. row_sum st_Visits j s db' = row_sum st_Visits j s db + batch_sum evt_Visits j s batch)
    \<and> (\<forall>j s. row_sum st_BytesTotal j s db' = row_sum st_BytesTotal j s db + batch_sum evt_Bytes j s batch)"
  using pg.Consume_totals[OF _ assms(3-5), of db] assms(1,2) by blast

theorem store_sink_totals_witness:
  "\<exists>db'. StoreSink_Consume (Some postgres_repo) rev [demo_fetch Status2xx, demo_fetch Status4xx] demo_db = (None, db')
    \<and> row_sum st_Visits (replicate 16 (CHR ''u'')) ''a.b'' db' = 2"
proof -
  have "small_batch [demo_fetch Status2xx, demo_fetch Status4xx]"
    "fetch_classes_known [demo_fetch Status2xx, demo_fetch Status4xx]"
    "db_faults demo_db = []" "stats_unique demo_db"
    by (simp_all add: small_batch_def fetch_classes_known_def demo_fetch_def new_Event_def known_class_def
        demo_db_def stats_unique_def)
  then obtain db' where "StoreSink_Consume (Some postgres_repo) rev [demo_fetch Status2xx, demo_fetch Status4xx] demo_db = (None, db')"
    "\<forall>j s. row_sum st_Visits j s db' = row_sum st_Visits j s demo_db
        + batch_sum evt_Visits j s [demo_fetch Status2xx, demo_fetch Status4xx]"
    using store_sink_totals[of demo_db "[demo_fetch Status2xx, demo_fetch Status4xx]" rev] by auto
  then show ?thesis
    by (simp add: row_sum_def demo_db_def batch_sum_def counted_def demo_fetch_def new_Event_def)
qed

text \<open>C17. A batch that holds a fetch event of a class the repository does not know (such as the class
  "other", which \<^verbatim>\<open>ClassifyStatus\<close> gives to every code outside 200..599) never succeeds: the store
  sink reports an error, whatever the state of the database and the order of the deltas.\<close>

theorem store_sink_unknown_class_fails:
  assumes "small_batch batch" "e \<in> set batch" "evt_Stage e = StageFetchDone" "evt_Site e \<noteq> ''''"
    "0 < evt_Visits e" "\<not> known_class (evt_StatusClass e)" "\<And>xs. mset (ord xs) = mset xs"
  shows "fst (StoreSink_Consume (Some postgres_repo) ord batch db) \<noteq> None"
proof -
  obtain err stats db1 where run: "consume_events postgres_repo batch [] db = (err, stats, db1)"
    by (metis prod.exhaust)
  show ?thesis
  proof (cases err)
    case (Some x)
    with run show ?thesis by (simp add: StoreSink_Consume_def)
  next
    case None
    let ?k = "(evt_JobID e, evt_Site e, evt_StatusClass e)"
    have "pending ?k stats"
      using consume_events_pending[OF run[unfolded None], of 0 0 ?k] assms(1-5)
      by (auto simp: small_batch_def bounded_deltas_def)
    then obtain d where d: "(?k, d) \<in> set stats" "sd_visits d \<noteq> 0"
      by (auto simp: pending_def dest: map_of_SomeD)
    then have "(?k, d) \<in> set (ord stats)" using assms(7)[of stats] by (metis set_mset_mset)
    from upsert_deltas_unknown[OF this d(2) assms(6), of db1] run None show ?thesis
      by (simp add: StoreSink_Consume_def)
  qed
qed

theorem store_sink_unknown_class_fails_witness:
  "fst (StoreSink_Consume (Some postgres_repo) id [demo_fetch (ClassifyStatus 999)] demo_db) \<noteq> None"
  using store_sink_unknown_class_fails[of "[demo_fetch (ClassifyStatus 999)]" "demo_fetch (ClassifyStatus 999)" id demo_db]
  by (simp add: small_batch_def demo_fetch_def new_Event_def known_class_def ClassifyStatus_def)

text \<open>C18. The gauge of running jobs of the Prometheus sink is the number of jobs that have started and not
  ended in the events consumed so far, counting a job once however often it starts or ends.\<close>

theorem running_gauge_counts_running_jobs:
  "PrometheusSink_Consume batch NewPrometheusSink = (None, p) \<Longrightarrow>
     jobsRunning p = int (card (running_after batch {}))"
proof -
  assume "PrometheusSink_Consume batch NewPrometheusSink = (None, p)"
  then have p: "p = fold consumeEvent batch NewPrometheusSink" by (simp add: PrometheusSink_Consume_def)
  have "prom_inv NewPrometheusSink" "running NewPrometheusSink = []"
    by (simp_all add: prom_inv_def NewPrometheusSink_def)
  with fold_consumeEvent_running[of NewPrometheusSink batch]
  have "prom_inv p" "set (running p) = running_after batch {}" by (simp_all add: p)
  then show ?thesis by (metis distinct_card prom_inv_def)
qed

theorem running_gauge_counts_running_jobs_witness:
  "jobsRunning (snd (PrometheusSink_Consume [new_Event ''x'' 1 StageJobStart, new_Event ''x'' 2 StageJobStart] NewPrometheusSink)) = 1"
  using running_gauge_counts_running_jobs[of "[new_Event ''x'' 1 StageJobStart, new_Event ''x'' 2 StageJobStart]"]
  by (simp add: PrometheusSink_Consume_def new_Event_def)

section \<open>The HTTP API\<close>

text \<open>C19. When a request is answered with 202, the answer carries the identifier of a job that was not
  in the store before, that is now there as queued with its parameters, and whose item is the last of
  the queue; nothing else of the store or the queue has changed, and the queue is within its
  capacity.\<close>

theorem accepted_job_is_queued:
  assumes "(Returns resp, s') \<in> set (ServeHTTP srv env r s)" "rs_Status resp = 202"
    and "rs_Status (env_noRoute env) \<noteq> 202"
  shows "\<exists>jobID params. rs_Payload resp = StringMap [(''job_id'', jobID)] \<and> URLs params \<noteq> []
    \<and> js_jobs (api_jobs s) jobID = None
    \<and> GetJob jobID (api_jobs s') = Inr (new_job jobID (env_now env) params)
    \<and> (\<forall>i. i \<noteq> jobID \<longrightarrow> GetJob i (api_jobs s') = GetJob i (api_jobs s))
    \<and> (\<forall>i. ListPages i (api_jobs s') = ListPages i (api_jobs s))
    \<and> q_ch (api_queue s') = q_ch (api_queue s) @ [new_item jobID (env_now env) params]
    \<and> length (q_ch (api_queue s')) \<le> q_cap (api_queue s')"
proof -
  obtain e s1 where e: "effect_on (env_now env) e s s1" "s' = observed env r resp s1" "serves env resp e"
    using ServeHTTP_effect[OF assms(1,3)] by (metis outcome.inject)
  then obtain jobID params where "e = Accepted jobID params" "rs_Payload resp = StringMap [(''job_id'', jobID)]"
    using assms(2) by (cases e) (auto simp: serves_def split: if_splits)
  then show ?thesis using e(1,2)
    by (intro exI[of _ jobID] exI[of _ params]) (auto simp: effect_on_def accepted_def GetJob_def ListPages_def)
qed

theorem accepted_job_is_queued_witness:
  "\<exists>jobID params. js_jobs (api_jobs demo_api) jobID = None
     \<and> GetJob jobID (api_jobs demo_accepted) = Inr (new_job jobID 7 params)
     \<and> q_ch (api_queue demo_accepted) = q_ch (api_queue demo_api) @ [new_item jobID 7 params]"
proof -
  have run: "ServeHTTP demo_server demo_env demo_request demo_api = [(Returns demo_response, demo_accepted)]"
    by (rule demo_submission)
  have "\<exists>jobID params. rs_Payload demo_response = StringMap [(''job_id'', jobID)] \<and> URLs params \<noteq> []
    \<and> js_jobs (api_jobs demo_api) jobID = None
    \<and> GetJob jobID (api_jobs demo_accepted) = Inr (new_job jobID (env_now demo_env) params)
    \<and> (\<forall>i. i \<noteq> jobID \<longrightarrow> GetJob i (api_jobs demo_accepted) = GetJob i (api_jobs demo_api))
    \<and> (\<forall>i. ListPages i (api_jobs demo_accepted) = ListPages i (api_jobs demo_api))
    \<and> q_ch (api_queue demo_accepted) = q_ch (api_queue demo_api) @ [new_item jobID (env_now demo_env) params]
    \<and> length (q_ch (api_queue demo_accepted)) \<le> q_cap (api_queue demo_accepted)"
  proof (rule accepted_job_is_queued)
    show "(Returns demo_response, demo_accepted) \<in> set (ServeHTTP demo_server demo_env demo_request demo_api)"
      by (simp add: run)
    show "rs_Status demo_response = 202" by (simp add: demo_response_def)
    show "rs_Status (env_noRoute demo_env) \<noteq> 202" by (simp add: demo_env_def)
  qed
  then show ?thesis by (simp add: demo_env_def) blast
qed



text \<open>C21. With authentication enabled, a request that carries the configured key neither in its header
  nor in its query is refused on every route, and the job store, the queue and the progress tables
  are as before.\<close>

theorem unauthorized_request_changes_nothing:
  assumes "auth_Enabled (cfg_Auth (s_cfg srv))"
    and "rq_Header r ''X-API-Key'' \<noteq> APIKey (cfg_Auth (s_cfg srv))"
    and "rq_Header r ''X-API-Key'' = '''' \<longrightarrow> Values_Get (url_Query (rq_URL r)) ''api_key'' \<noteq> APIKey (cfg_Auth (s_cfg srv))"
    and "(out, s') \<in> set (ServeHTTP srv env r s)"
  shows "\<exists>resp. out = Returns resp \<and> rs_Status resp = (if env_timedOut env then 503 else 403)
    \<and> api_jobs s' = api_jobs s \<and> api_queue s' = api_queue s \<and> api_repo s' = api_repo s"
proof -
  have "\<not> has_key srv r" using assms(2,3) by (simp add: has_key_def)
  from ServeHTTP_unauthorized[OF assms(1) this assms(4)] show ?thesis by auto
qed

theorem unauthorized_request_changes_nothing_witness:
  "\<exists>resp. rs_Status resp = 403 \<and> (\<exists>s'. (Returns resp, s') \<in> set (ServeHTTP demo_server demo_env
     (demo_request\<lparr>rq_Header := (\<lambda>_. ''wrong'')\<rparr>) demo_api) \<and> api_queue s' = api_queue demo_api)"
proof -
  let ?r = "demo_request\<lparr>rq_Header := (\<lambda>_. ''wrong'')\<rparr>"
  have "ServeHTTP demo_server demo_env ?r demo_api \<noteq> []"
    by (rule ServeHTTP_nonempty) (simp add: demo_api_def NewQueue_def)
  then obtain out s' where o: "(out, s') \<in> set (ServeHTTP demo_server demo_env ?r demo_api)"
    by (cases "ServeHTTP demo_server demo_env ?r demo_api") (auto intro: that)
  from unauthorized_request_changes_nothing[OF _ _ _ o] have
    "\<exists>resp. out = Returns resp \<and> rs_Status resp = 403 \<and> api_queue s' = api_queue demo_api"
    by (auto simp: demo_server_def demo_config_def demo_env_def)
  with o show ?thesis by blast
qed

text \<open>C22. Every outcome of a request is a response, also when a handler panics; it carries the request's
  identifier, and the request is logged once, with that identifier and the status sent, and counted
  once under that status. There is an outcome unless the request waits for a place in a full queue
  with its deadline not reached.\<close>

theorem request_is_answered:
  assumes "rs_Status (env_noRoute env) \<noteq> 202"
    and "env_queueDone env \<noteq> None \<or> q_closed (api_queue s) \<or> length (q_ch (api_queue s)) < q_cap (api_queue s)"
  shows "ServeHTTP srv env r s \<noteq> [] \<and> list_all (\<lambda>(out, s'). \<exists>resp line. out = Returns resp
        \<and> (''X-Request-ID'', env_requestID env) \<in> set (rs_Header resp)
        \<and> api_log s' = api_log s @ [line] \<and> acc_RequestID line = env_requestID env
        \<and> acc_Status line = rs_Status resp \<and> acc_Method line = rq_Method r
        \<and> httpRequestsTotal (api_metrics s') = (httpRequestsTotal (api_metrics s))
            ((rq_Method r, strconv_Itoa (rs_Status resp)) :=
               httpRequestsTotal (api_metrics s) (rq_Method r, strconv_Itoa (rs_Status resp)) + 1))
      (ServeHTTP srv env r s)"
proof -
  have "\<exists>resp s1. out = Returns resp \<and> (''X-Request-ID'', env_requestID env) \<in> set (rs_Header resp)
      \<and> s' = observed env r resp s1 \<and> api_metrics s1 = api_metrics s \<and> api_log s1 = api_log s"
    if "(out, s') \<in> set (ServeHTTP srv env r s)" for out s'
    using that assms(1) by (rule ServeHTTP_effect) (blast dest: effect_on_frame)
  with ServeHTTP_nonempty[OF assms(2)] show ?thesis
    by (fastforce simp: list_all_iff observed_def ObserveHTTPRequest_def Let_def)
qed

theorem request_is_answered_witness:
  "ServeHTTP demo_server demo_env demo_request (demo_api\<lparr>api_queue := (NewQueue 1)\<lparr>q_closed := True\<rparr>\<rparr>) \<noteq> []"
proof -
  have "rs_Status (env_noRoute demo_env) \<noteq> 202" by (simp add: demo_env_def)
  from request_is_answered[OF this, of "demo_api\<lparr>api_queue := (NewQueue 1)\<lparr>q_closed := True\<rparr>\<rparr>" demo_server demo_request]
  show ?thesis by simp
qed

text \<open>C23. The listing of job runs served from the database. A request whose limit is no positive number,
  whose offset is no number from 0 on or whose status has no known name is answered with 400 and reads
  nothing. Any other request is answered with 200 and the window it asks for: of the runs with the
  requested status (all of them without one), newest first, as many as its limit says (50 without one, at
  most 500) from its offset on; only a database fault turns that into 500. The tables are not changed.\<close>

theorem listed_runs_window:
  assumes "(Returns resp, s') \<in> set (progress_ListJobs srv r s)" "s_repo srv = Some postgres_repo"
  shows "(rs_Status resp = 400 \<and> s' = s \<and> (\<nexists>status limit offset. window_request srv r status limit offset)
      \<or> rs_Status resp = 500 \<and> db_faults (api_repo s) \<noteq> []
      \<or> rs_Status resp = 200 \<and> (\<exists>status limit offset. window_request srv r status limit offset
        \<and> rs_Payload resp = RunsBody (map (toJobDTO srv) (take (nat limit) (drop (nat offset)
            (sort_key (\<lambda>run. - run_StartedAt run)
              (filter (\<lambda>run. status = None \<or> status = Some (run_Status run)) (job_runs (api_repo s)))))))))
    \<and> job_runs (api_repo s') = job_runs (api_repo s) \<and> site_stats (api_repo s') = site_stats (api_repo s)"
proof (cases "\<exists>status limit offset. window_request srv r status limit offset")
  case False
  with progress_ListJobs_malformed[OF False assms(2), of s] assms(1) show ?thesis by auto
next
  case True
  then obtain status limit offset where w: "window_request srv r status limit offset" by blast
  obtain res db where call: "repo_list_jobs status limit offset (api_repo s) = (res, db)" by fastforce
  note run = progress_ListJobs_window[OF w assms(2), of s]
  show ?thesis
  proof (cases res)
    case (Inl e)
    with run call assms(1) have "rs_Status resp = 500" "s' = s\<lparr>api_repo := db\<rparr>" by (auto simp: postgres_repo_def)
    with repo_list_jobs_fault[of status limit offset "api_repo s" e db] call Inl show ?thesis by simp
  next
    case (Inr jobs)
    with run call assms(1) have "rs_Status resp = 200" "s' = s\<lparr>api_repo := db\<rparr>" "rs_Payload resp = RunsBody (toJobDTOs srv jobs)"
      by (auto simp: postgres_repo_def writeJSON_def)
    with repo_list_jobs_rows[of status limit offset "api_repo s" jobs db] call Inr w show ?thesis
      by (auto simp: toJobDTOs_def limit_offset_def)
  qed
qed

theorem listed_runs_window_witness:
  "\<exists>resp s'. (Returns resp, s') \<in> set (progress_ListJobs demo_server demo_listing demo_listed)
     \<and> rs_Status resp = 200 \<and> rs_Payload resp = RunsBody [toJobDTO demo_server (demo_run ''a'' 5 RunSuccess)]"
proof -
  have q: "window_request demo_server demo_listing status limit offset \<longleftrightarrow> status = Some RunSuccess \<and> limit = 1 \<and> offset = 1"
    for status limit offset
  proof -
    have "Values_Get (url_Query (rq_URL demo_listing)) ''limit'' = ''1''"
      "Values_Get (url_Query (rq_URL demo_listing)) ''offset'' = ''1''"
      "strings_TrimSpace (Values_Get (url_Query (rq_URL demo_listing)) ''status'') = ''Success''"
      "strconv_Atoi ''1'' = Inr 1"
      by code_simp+
    moreover have "strings_ToLower (s_tab demo_server) ''Success'' = ''success''"
      by (simp add: strings_ToLower_ascii is_ascii_def) code_simp
    ultimately show ?thesis by (auto simp: window_request_def status_names_def Let_def)
  qed
  obtain resp s' where r: "(Returns resp, s') \<in> set (progress_ListJobs demo_server demo_listing demo_listed)"
    using progress_ListJobs_window[OF q[THEN iffD2], of "Some RunSuccess" 1 1 postgres_repo demo_listed]
    by (auto simp: demo_server_def split: sum.splits prod.splits)
  have runs: "sort_key (\<lambda>run. - run_StartedAt run) (filter (\<lambda>run. RunSuccess = run_Status run) (job_runs (api_repo demo_listed)))
      = [demo_run ''c'' 9 RunSuccess, demo_run ''a'' 5 RunSuccess]"
    by (simp add: demo_listed_def demo_run_def)
  have repo: "s_repo demo_server = Some postgres_repo" "db_faults (api_repo demo_listed) = []"
    by (simp_all add: demo_server_def demo_listed_def demo_db_def)
  from listed_runs_window[OF r repo(1)] have "rs_Status resp = 200"
    "rs_Payload resp = RunsBody (map (toJobDTO demo_server) (take 1 (drop 1 (sort_key (\<lambda>run. - run_StartedAt run)
       (filter (\<lambda>run. RunSuccess = run_Status run) (job_runs (api_repo demo_listed)))))))"
    unfolding q repo(2) by auto
  with r show ?thesis unfolding runs by (intro exI[of _ resp] exI[of _ s']) simp
qed

text \<open>C24. From submission to result: after any requests to a service with an empty queue, one of them
  accepted with a job identifier, a worker that loops over the same queue and job store with a context
  that does not end has, after as many rounds as jobs are queued, emptied the queue; the status endpoint
  then reports the job as terminal, with counters that add up to at most the number of submitted URLs,
  and a job of which no page succeeded carries an error text.\<close>

theorem submitted_job_gets_final_status:
  assumes "q_ch (api_queue s0) = []" "serving srv s0 s" "(Returns resp, s1) \<in> set (ServeHTTP srv env r s)"
    and "rs_Status resp = 202" "rs_Status (env_noRoute env) \<noteq> 202" "serving srv s1 s2"
    and "\<forall>item \<in> set (q_ch (api_queue s2)). int (length (URLs (item_Params item))) < 2 ^ 63"
    and "mem_jobs w = api_jobs s2" "mem_queue w = api_queue s2" "\<forall>t. o_ctxErr out ctx t = None"
    and "length (q_ch (api_queue s2)) \<le> n" "w' = snd (run_state (Run (mem_worker out c h) n ctx) w)"
  shows "q_ch (mem_queue w') = [] \<and> (\<exists>jobID job. \<exists>item \<in> set (q_ch (api_queue s2)).
    rs_Payload resp = StringMap [(''job_id'', jobID)] \<and> item_JobID item = jobID \<and> isTerminal (job_Status job)
    \<and> PagesSucceeded (job_Counters job) + PagesFailed (job_Counters job) \<le> int (length (URLs (item_Params item)))
    \<and> (PagesSucceeded (job_Counters job) = 0 \<longrightarrow> job_ErrorText job \<noteq> '''')
    \<and> getJobStatus (q\<lparr>rq_JobID := jobID\<rparr>) (s2\<lparr>api_jobs := mem_jobs w'\<rparr>)
        = [(Returns (writeJSON 200 (JobBody job)), s2\<lparr>api_jobs := mem_jobs w'\<rparr>)])"
proof -
  have "queue_backed s0" using assms(1) by (simp add: queue_backed_def)
  then have s1: "queue_backed s1" using serving_queue[OF serving.request[OF assms(2,3,5)]] by blast
  with serving_queue[OF assms(6)] have backed: "queue_backed s2" and pre: "prefix (q_ch (api_queue s1)) (q_ch (api_queue s2))"
    by simp_all
  have "list_all (runnable w) (q_ch (mem_queue w))" "distinct (map item_JobID (q_ch (mem_queue w)))"
    using backed assms(7-9) by (auto simp: queue_backed_def runnable_def statuses_def list_all_iff)
  from Run_drains[OF this assms(10) _ assms(12)] assms(9,11)
  have run: "q_ch (mem_queue w') = []" "list_all (settled w') (q_ch (api_queue s2))" by simp_all
  obtain e t1 where e: "effect_on (env_now env) e s t1" "s1 = observed env r resp t1" "serves env resp e"
    using ServeHTTP_effect[OF assms(3,5)] by (metis outcome.inject)
  then obtain jobID params where "e = Accepted jobID params" and pl: "rs_Payload resp = StringMap [(''job_id'', jobID)]"
    using assms(4) by (cases e) (auto simp: serves_def split: if_splits)
  with e(1,2) have "new_item jobID (env_now env) params \<in> set (q_ch (api_queue s1))"
    by (auto simp: effect_on_def accepted_def)
  then obtain item where item: "item \<in> set (q_ch (api_queue s2))" "item_JobID item = jobID"
    using pre by (metis new_item_def QueueItem.select_convs(1) set_mono_prefix subsetD)
  with run(2) have "settled w' item" by (simp add: list_all_iff)
  then obtain job where j: "js_jobs (mem_jobs w') jobID = Some job" "isTerminal (job_Status job)"
    "PagesSucceeded (job_Counters job) = 0 \<longrightarrow> job_ErrorText job \<noteq> ''''"
    "PagesSucceeded (job_Counters job) + PagesFailed (job_Counters job) \<le> int (length (URLs (item_Params item)))"
    using item(2) by (auto simp: settled_def statuses_def finalStatus_def)
  then have "getJobStatus (q\<lparr>rq_JobID := jobID\<rparr>) (s2\<lparr>api_jobs := mem_jobs w'\<rparr>)
      = [(Returns (writeJSON 200 (JobBody job)), s2\<lparr>api_jobs := mem_jobs w'\<rparr>)]"
    by (simp add: getJobStatus_def GetJob_def)
  with run(1) pl item j(2-4) show ?thesis by blast
qed

theorem submitted_job_gets_final_status_witness:
  "\<exists>jobID job (s2 :: DB ApiState). isTerminal (job_Status job)
     \<and> getJobStatus (demo_request\<lparr>rq_JobID := jobID\<rparr>) s2 = [(Returns (writeJSON 200 (JobBody job)), s2)]"
proof -
  let ?w = "zero_World\<lparr>mem_jobs := api_jobs demo_accepted, mem_queue := api_queue demo_accepted\<rparr>"
  let ?w' = "snd (run_state (Run (mem_worker demo_out demo_cfg (NewHeuristic 0)) 1 AppContext) ?w)"
  have a: "q_ch (api_queue demo_api) = []" "serving demo_server demo_api demo_api"
    "(Returns demo_response, demo_accepted) \<in> set (ServeHTTP demo_server demo_env demo_request demo_api)"
    "rs_Status demo_response = 202" "rs_Status (env_noRoute demo_env) \<noteq> 202" "serving demo_server demo_accepted demo_accepted"
    by (simp add: demo_api_def NewQueue_def, rule serving.idle, simp add: demo_submission, simp add: demo_response_def,
        simp add: demo_env_def, rule serving.idle)
  have b: "\<forall>item \<in> set (q_ch (api_queue demo_accepted)). int (length (URLs (item_Params item))) < 2 ^ 63"
    "mem_jobs ?w = api_jobs demo_accepted" "mem_queue ?w = api_queue demo_accepted"
    "\<forall>t. o_ctxErr demo_out AppContext t = None" "length (q_ch (api_queue demo_accepted)) \<le> 1"
    by (simp_all add: demo_accepted_def new_item_def demo_submitted_def demo_out_def)
  from submitted_job_gets_final_status[OF a b refl, where q = demo_request and c = demo_cfg and h = "NewHeuristic 0"]
  obtain jobID job where "isTerminal (job_Status job)"
    "getJobStatus (demo_request\<lparr>rq_JobID := jobID\<rparr>) (demo_accepted\<lparr>api_jobs := mem_jobs ?w'\<rparr>)
      = [(Returns (writeJSON 200 (JobBody job)), demo_accepted\<lparr>api_jobs := mem_jobs ?w'\<rparr>)]"
    by blast
  then show ?thesis by blast
qed

section \<open>Configuration\<close>



text \<open>C26. The DSN built from the single database settings is a URL that parses back to them: scheme,
  user and password with any bytes, host and port (an IPv6 address in brackets), database name with
  any bytes, and the SSL mode when one is set.\<close>

theorem resolved_dsn_names_its_settings:
  assumes "resolveDSN c = Inr c'" "blank (DSN c)" "\<not> blank (db_Host c)"
    and "host_literal h" "db_Host c = h \<or> db_Host c = ''['' @ h @ '']''" "0 \<le> db_Port c"
  shows "\<exists>u. url_Parse (DSN c') = Some u \<and> Scheme u = ''postgres'' \<and> User u = Some (db_User c, Some (db_Password c))
    \<and> Host u = net_JoinHostPort h (strconv_Itoa (if db_Port c = 0 then 5432 else db_Port c))
    \<and> Path u = CHR ''/'' # db_Name c
    \<and> Values_Get (url_Query u) ''sslmode'' = (if blank (SSLMode c) then '''' else SSLMode c)"
proof (intro exI[of _ "dsn_url c"] conjI)
  show "url_Parse (DSN c') = Some (dsn_url c)"
    using resolveDSN_ok[OF assms(1-3)] dsn_roundtrip_url(1)[OF assms(4-6)] by simp
  show "Host (dsn_url c) = net_JoinHostPort h (strconv_Itoa (if db_Port c = 0 then 5432 else db_Port c))"
    by (rule dsn_roundtrip_url(2)[OF assms(4-6)])
  show "Values_Get (url_Query (dsn_url c)) ''sslmode'' = (if blank (SSLMode c) then '''' else SSLMode c)"
    by (rule sslmode_query)
qed (simp_all add: dsn_url_def Let_def)

theorem resolved_dsn_names_its_settings_witness:
  "\<exists>u c'. resolveDSN (cfg_Database demo_config) = Inr c' \<and> url_Parse (DSN c') = Some u \<and> User u = Some (''u'', Some ''p@'')"
proof -
  let ?c = "cfg_Database demo_config"
  have blanks: "\<not> blank (db_Host ?c)" "\<not> blank (db_User ?c)" "\<not> blank (db_Password ?c)" "\<not> blank (db_Name ?c)" "blank (DSN ?c)"
    by code_simp+
  then obtain c' where r: "resolveDSN ?c = Inr c'"
    by (simp add: resolveDSN_def missing_settings_def Let_def)
  have "\<exists>u. url_Parse (DSN c') = Some u \<and> Scheme u = ''postgres'' \<and> User u = Some (db_User ?c, Some (db_Password ?c))
    \<and> Host u = net_JoinHostPort ''db'' (strconv_Itoa (if db_Port ?c = 0 then 5432 else db_Port ?c))
    \<and> Path u = CHR ''/'' # db_Name ?c
    \<and> Values_Get (url_Query u) ''sslmode'' = (if blank (SSLMode ?c) then '''' else SSLMode ?c)"
    using r blanks(5,1)
    by (rule resolved_dsn_names_its_settings) (simp_all add: demo_config_def host_literal_def is_alnum_def)
  with r show ?thesis by (auto simp: demo_config_def)
qed

text \<open>C27. A deployment that sets nothing of the database cannot be loaded: the default port alone counts
  as a database setting, and the others are reported as missing.\<close>

theorem load_without_database_settings_fails:
  assumes "Unmarshal v setDefaults '''' = Inr (config_of (map_of (overrides @ setDefaults)) jobs)"
    and "\<forall>k. strings_HasPrefix k ''database.'' \<longrightarrow> map_of overrides k = None"
  shows "Load v '''' '''' = Inl (ErrorString ''database config incomplete: set database.host, database.user, database.password, database.name when database.dsn is omitted'')"
proof -
  have "resolveDSN (database_of (map_of (overrides @ setDefaults))) = Inl (ErrorString ''database config incomplete: set database.host, database.user, database.password, database.name when database.dsn is omitted'')"
    unfolding database_defaults[OF assms(2)] by (rule resolve_port_only) simp_all
  then show ?thesis using assms(1) by (simp add: Load_def override_port_def config_of_def)
qed

theorem load_without_database_settings_fails_witness:
  "\<exists>e. Load \<lparr>ReadInConfig = (\<lambda>_. None), Unmarshal = (\<lambda>defaults _. Inr (config_of (map_of defaults) Map.empty))\<rparr> '''' '''' = Inl e"
  using load_without_database_settings_fails[where overrides = "[]" and jobs = Map.empty
      and v = "\<lparr>ReadInConfig = (\<lambda>_. None), Unmarshal = (\<lambda>defaults _. Inr (config_of (map_of defaults) Map.empty))\<rparr>"]
  by simp

section \<open>Fetchers and adapters\<close>

text \<open>C28. A request for robots.txt is tried at most four times, again only after a transient failure; the
  answer is that of the last try, or the allow-all answer when all four failed transiently, and only
  then the probe is marked as indeterminate and the timeout is counted.\<close>

theorem robots_retry_history:
  assumes "roundTripWithRetry netTimeout (recorded_wait wait) (recorded base) req sm (s, []) = (r, sm', s', tries)"
  shows "tries \<noteq> [] \<and> length tries \<le> 4
    \<and> (\<forall>x \<in> set (butlast tries). \<exists>e. x = Inl e \<and> isTransientTLSError netTimeout e)
    \<and> (case last tries of
         Inr resp \<Rightarrow> r = Inr resp \<and> sm' = sm
       | Inl e \<Rightarrow>
           if \<not> isTransientTLSError netTimeout e then r = Inl (Wrapped ''robots roundtrip non-transient'' e) \<and> sm' = sm
           else if length tries = 4
           then r = Inr syntheticRobotsAllowAllResponse \<and> sm' = markIndeterminate ''TLS handshake timeout'' sm
           else (\<exists>e'. r = Inl (Wrapped ''robots roundtrip backoff sleep'' e')) \<and> sm' = sm)"
proof -
  have n: "length robotsRetryBackoff = 3" by (simp add: robotsRetryBackoff_def)
  from robots_tries_history[OF assms[unfolded roundTripWithRetry_def]] have "tries_post netTimeout 3 sm r sm' tries"
    unfolding n by simp
  then show ?thesis unfolding tries_post_def robotsFallbackReasonTLSHandshake_def by (simp split: sum.splits if_splits)
qed

theorem robots_retry_history_witness:
  "\<exists>r sm' s' tries. roundTripWithRetry (\<lambda>_. True) (recorded_wait (\<lambda>d s. (None, s))) (recorded (\<lambda>q s. (Inl (ErrorString ''x''), s)))
     \<lparr>hreq_URL = None\<rparr> (newRobotsProbeState, zero_Metrics) ((), []) = (r, sm', s', tries) \<and> length tries \<le> 4"
proof -
  obtain r sm' s' tries where t: "roundTripWithRetry (\<lambda>_. True) (recorded_wait (\<lambda>d s. (None, s)))
      (recorded (\<lambda>q s. (Inl (ErrorString ''x''), s))) \<lparr>hreq_URL = None\<rparr> (newRobotsProbeState, zero_Metrics) ((), [])
      = (r, sm', s', tries)" by (metis prod.exhaust)
  from robots_retry_history[OF t] have "length tries \<le> 4" by blast
  with t show ?thesis by blast
qed

text \<open>C29. Once a robots.txt request was answered with 200, every later request for the same URL, after any
  other requests through the same cache, is answered from the cache with the same status and body,
  without a round trip of the network.\<close>

theorem robots_answers_are_cached:
  assumes "RobotsCache_RoundTrip base req (cache, s) = (Inr resp, cache', s')" "isRobotsTxtRequest (Some req)"
    "hreq_URL req = Some u" "hres_StatusCode resp = 200" "hreq_URL req' = Some u"
    and "round_trips base reqs (cache', t) = (cache'', t')"
  shows "\<exists>resp'. RobotsCache_RoundTrip base req' (cache'', t') = (Inr resp', cache'', t')
    \<and> hres_StatusCode resp' = 200 \<and> hres_Body resp' = hres_Body resp"
  using assms by (rule cache_hit)

theorem robots_answers_are_cached_witness:
  "\<exists>cache' n resp'. RobotsCache_RoundTrip (\<lambda>q n. (Inr syntheticRobotsAllowAllResponse, n + 1))
       \<lparr>hreq_URL = Some (empty_url\<lparr>Path := ''/robots.txt''\<rparr>)\<rparr> (cache', n :: nat) = (Inr resp', cache', n)"
proof -
  let ?base = "\<lambda>q n :: nat. (Inr syntheticRobotsAllowAllResponse, n + 1) :: HttpResponse result \<times> nat"
  let ?req = "\<lparr>hreq_URL = Some (empty_url\<lparr>Path := ''/robots.txt''\<rparr>)\<rparr>"
  have rob: "isRobotsTxtRequest (Some ?req)" by (simp add: isRobotsTxtRequest_def strings_EqualFold_def)
  then obtain cache' where c: "RobotsCache_RoundTrip ?base ?req (Map.empty, 0) = (Inr syntheticRobotsAllowAllResponse, cache', 1)"
    by (simp add: RobotsCache_RoundTrip_def syntheticRobotsAllowAllResponse_def)
  obtain cache'' n where t: "round_trips ?base [\<lparr>hreq_URL = Some empty_url\<rparr>] (cache', 1) = (cache'', n)" by fastforce
  have "hreq_URL ?req = Some (empty_url\<lparr>Path := ''/robots.txt''\<rparr>)" "hres_StatusCode syntheticRobotsAllowAllResponse = 200"
    by (simp_all add: syntheticRobotsAllowAllResponse_def)
  from robots_answers_are_cached[OF c rob this this(1) t] show ?thesis by blast
qed

text \<open>C30. A successful probe keeps the identity of its request, is not marked as rendered by a browser, and
  carries a robots status only when robots.txt was to be respected: by the request when it says so,
  by the configuration otherwise.\<close>

theorem probe_response_identity:
  assumes "colly_Fetch c cfg ctxDone request m cs = (Inr resp, m', cs')"
  shows "ctxDone = None \<and> resp_JobID resp = req_JobID request \<and> resp_JobStartedAt resp = req_JobStartedAt request
    \<and> \<not> resp_UsedHeadless resp
    \<and> (resp_RobotsStatus resp \<noteq> RobotsStatusUnknown \<longrightarrow>
        (if req_RespectRobotsProvided request then req_RespectRobots request else cc_RespectRobots cfg))"
  using colly_Fetch_ok[OF assms] by (simp add: respectRobots_def)

theorem probe_response_identity_witness:
  "\<exists>resp m' cs'. colly_Fetch demo_colly \<lparr>cc_UserAgent = ''bot'', cc_RespectRobots = True, cc_Timeout = 0\<rparr> None
     (fetch_request demo_item ''http://a.b/'' False) zero_Metrics (Map.empty, ()) = (Inr resp, m', cs') \<and> resp_JobID resp = ''j1''"
proof -
  let ?req = "fetch_request demo_item ''http://a.b/'' False"
  let ?cfg = "\<lparr>cc_UserAgent = ''bot'', cc_RespectRobots = True, cc_Timeout = 0\<rparr>"
  obtain resp m' cs' where f: "colly_Fetch demo_colly ?cfg None ?req zero_Metrics (Map.empty, ()) = (Inr resp, m', cs')"
    by (simp add: colly_Fetch_def demo_colly_def runCollector_def)
  from probe_response_identity[OF f] have "resp_JobID resp = req_JobID ?req" by blast
  then have "resp_JobID resp = ''j1''" by (simp add: fetch_request_def demo_item_def)
  with f show ?thesis by blast
qed

text \<open>C31. In any interleaving of headless fetches the number of slots taken is the number of fetches in
  progress and never exceeds the configured parallelism; a single fetch, successful or not, leaves the
  slots as it found them.\<close>

theorem headless_slots_bounded:
  assumes "NewChromedp cfg = Inr f0" "0 < hf_MaxParallel cfg" "slots f0 n f"
  shows "int n \<le> hf_MaxParallel cfg \<and> hf_limiter f = Some (nat (hf_MaxParallel cfg), n)
    \<and> (\<forall>(r, f') \<in> set (headless_Fetch br ctxErr request f). f' = f)"
proof -
  have "hf_limiter f0 = Some (nat (hf_MaxParallel cfg), 0)"
    using assms(1,2) by (auto simp: NewChromedp_def Let_def split: if_splits)
  from slots_count[OF assms(3) this] have s: "hf_limiter f = Some (nat (hf_MaxParallel cfg), n)" "n \<le> nat (hf_MaxParallel cfg)" by auto
  have "int n \<le> hf_MaxParallel cfg" using s(2) assms(2) by linarith
  moreover have "\<forall>x \<in> set (headless_Fetch br ctxErr request f). case x of (r, f') \<Rightarrow> f' = f"
    using headless_Fetch_slots by blast
  ultimately show ?thesis using s(1) by blast
qed

theorem headless_slots_bounded_witness:
  "\<exists>f0 f. NewChromedp \<lparr>hf_MaxParallel = 1, hf_UserAgent = '''', hf_NavigationTimeout = 0\<rparr> = Inr f0 \<and> slots f0 1 f
     \<and> hf_limiter f = Some (1, 1)"
proof -
  let ?cfg = "\<lparr>hf_MaxParallel = 1, hf_UserAgent = '''', hf_NavigationTimeout = 0\<rparr>"
  obtain f0 where f0: "NewChromedp ?cfg = Inr f0" by (simp add: NewChromedp_def)
  then have "(Inr (), f0\<lparr>hf_limiter := Some (1, 1)\<rparr>) \<in> set (acquire None f0)"
    by (auto simp: NewChromedp_def acquire_def)
  from slots_take[OF slots_start this] have s: "slots f0 1 (f0\<lparr>hf_limiter := Some (1, 1)\<rparr>)" by simp
  from headless_slots_bounded[OF f0 _ s] have "hf_limiter (f0\<lparr>hf_limiter := Some (1, 1)\<rparr>) = Some (nat 1, 1)" by simp
  with f0 s show ?thesis by auto
qed

text \<open>C32. A retrieval store that could be constructed sends only statements whose table names are
  identifiers, at most two per record: the job run, when it has a progress table, before the row,
  which is never sent without it.\<close>

theorem retrieval_statements:
  assumes "NewRetrievalStore parseConfig connect cfg = Inr st"
    and "retrieval_StoreRetrieval (logged_exec exec) (Some st) record (d, []) = (r, d', sent)"
  shows "validTableName (rs_table st) \<and> (rs_progressTable st = '''' \<or> validTableName (rs_progressTable st))
    \<and> sent \<in> {[], [job_statement st record], [row_statement st record], [job_statement st record, row_statement st record]}
    \<and> (r = Inr () \<longrightarrow> rr_ID record \<noteq> ''''
        \<and> sent = (if rs_progressTable st = '''' then [] else [job_statement st record]) @ [row_statement st record])
    \<and> (rs_progressTable st \<noteq> '''' \<longrightarrow> sent \<noteq> [row_statement st record])"
  using NewRetrievalStore_ok[OF assms(1)] StoreRetrieval_statements[OF assms(2)] unfolding store_names_ok_def by blast

theorem retrieval_statements_witness:
  "\<exists>st. NewRetrievalStore (\<lambda>_. Inr \<lparr>pool_MaxConns = 1, pool_MinConns = 0, pool_MaxConnLifetime = 0\<rparr>) (\<lambda>_. None)
       \<lparr>rsc_DSN = ''d'', rsc_Table = '''', rsc_ProgressTable = ''job_runs'', rsc_MaxConns = 0, rsc_MinConns = 0,
        rsc_MaxConnLifetime = 0\<rparr> = Inr st \<and> validTableName (rs_table st)"
proof -
  let ?cfg = "\<lparr>rsc_DSN = ''d'', rsc_Table = '''', rsc_ProgressTable = ''job_runs'', rsc_MaxConns = 0, rsc_MinConns = 0,
    rsc_MaxConnLifetime = 0\<rparr>"
  let ?parse = "\<lambda>_ :: bytes. Inr \<lparr>pool_MaxConns = 1, pool_MinConns = 0, pool_MaxConnLifetime = 0\<rparr> :: pool_config result"
  let ?rec = "retrieval_record (page_record ''p'' ''j'' 1 1 ''h'' ''u'' zero_FetchResponse) ''t'' 0"
  have v: "validTableName ''retrievals''" "validTableName ''job_runs''" by code_simp+
  then obtain st where st: "NewRetrievalStore ?parse (\<lambda>_. None) ?cfg = Inr st"
    by (simp add: NewRetrievalStore_def check_tables_def)
  obtain r d' sent where "retrieval_StoreRetrieval (logged_exec (\<lambda>_ _ d. (None, d))) (Some st) ?rec ((), []) = (r, d', sent)"
    by (metis prod.exhaust)
  from retrieval_statements[OF st this] st show ?thesis by blast
qed


section \<open>The application\<close>

text \<open>C33. An application built from a loaded configuration is wired as configured, and no default of a
  component replaces a setting: an empty queue with the configured depth, as many workers as
  configured, at least one, with the HTTP timeout in nanoseconds as page and job limits, a probe
  that respects robots.txt unless told otherwise, and, when there is a progress hub, its buffer and
  batch bounds. The durations are in range of 64 bits by hypothesis.\<close>

theorem built_app_is_as_configured:
  assumes "Load v env path = Inr cfg" and "Build cl os mk w cfg fs = (Inr app, fs')"
    and "http_TimeoutSeconds (cfg_HTTP cfg) < 9223372036" "MaxWaitMs (Batch (cfg_Progress cfg)) < 9223372036854"
    and "SinkTimeoutMs (cfg_Progress cfg) < 9223372036854"
  shows "app_queue app = NewQueue (nat (GlobalQueueDepth (cfg_Crawler cfg))) \<and> 0 < GlobalQueueDepth (cfg_Crawler cfg)
    \<and> app_dispatch app = NewPool (app_queue app) (nat (Concurrency (cfg_Crawler cfg))) \<and> 0 < Concurrency (cfg_Crawler cfg)
    \<and> RequestTimeout (wi_worker (app_wiring app)) = http_TimeoutSeconds (cfg_HTTP cfg) * Second
    \<and> JobTimeout (wi_worker (app_wiring app)) = http_TimeoutSeconds (cfg_HTTP cfg) * Second
    \<and> Topic (wi_worker (app_wiring app)) = TopicName (cfg_PubSub cfg)
    \<and> BlobPrefix (wi_worker (app_wiring app)) = Prefix (cfg_Storage cfg)
    \<and> cc_RespectRobots (wi_probe (app_wiring app)) = (\<not> IgnoreRobots (cfg_Crawler cfg))
    \<and> (case app_progressHub app of None \<Rightarrow> \<not> pr_Enabled (cfg_Progress cfg) \<or> \<not> app_progressRepo app \<and> \<not> LogEnabled (cfg_Progress cfg)
       | Some h \<Rightarrow> BufferSize (hub_cfg h) = pr_BufferSize (cfg_Progress cfg)
           \<and> MaxBatchEvents (hub_cfg h) = MaxEvents (Batch (cfg_Progress cfg))
           \<and> MaxBatchWait (hub_cfg h) = MaxWaitMs (Batch (cfg_Progress cfg)) * Millisecond
           \<and> SinkTimeout (hub_cfg h) = SinkTimeoutMs (cfg_Progress cfg) * Millisecond \<and> hub_sinks h \<noteq> [])"
proof -
  note valid = Load_ok(1)[OF assms(1), unfolded Validate_def check_ok Validate_storage_ok Validate_progress_ok not_le]
  from assms(2) obtain retrieval hasRepo where b: "app_progressRepo app = hasRepo"
    "app_progressHub app = setupProgress mk hasRepo cfg w" "app_queue app = NewQueue (nat (GlobalQueueDepth (cfg_Crawler cfg)))"
    "app_wiring app = setupDispatcher cfg" "app_dispatch app = NewPool (app_queue app) (nat (Concurrency (cfg_Crawler cfg)))"
    by (rule Build_ok)
  have t: "0 < http_TimeoutSeconds (cfg_HTTP cfg)" "0 < GlobalQueueDepth (cfg_Crawler cfg)" "0 < Concurrency (cfg_Crawler cfg)"
    using valid by blast+
  have i: "i64 (http_TimeoutSeconds (cfg_HTTP cfg) * Second) = http_TimeoutSeconds (cfg_HTTP cfg) * Second"
    by (rule seconds_i64[OF t(1) assms(3)])
  have "0 < RequestTimeout (worker_config cfg)" "0 < JobTimeout (worker_config cfg)"
    using t(1) by (simp_all add: worker_config_def JobBudget_def i)
  note cfg_pos = New_config_positive[OF this]
  have hub: "case app_progressHub app of None \<Rightarrow> \<not> pr_Enabled (cfg_Progress cfg) \<or> \<not> app_progressRepo app \<and> \<not> LogEnabled (cfg_Progress cfg)
    | Some h \<Rightarrow> hub_cfg h = hub_config cfg \<and> hub_sinks h \<noteq> []
        \<and> hub_config cfg = \<lparr>BufferSize = pr_BufferSize (cfg_Progress cfg), MaxBatchEvents = MaxEvents (Batch (cfg_Progress cfg)),
            MaxBatchWait = MaxWaitMs (Batch (cfg_Progress cfg)) * Millisecond, SinkTimeout = SinkTimeoutMs (cfg_Progress cfg) * Millisecond\<rparr>"
  proof (cases "pr_Enabled (cfg_Progress cfg)")
    case True
    then have pos: "0 < pr_BufferSize (cfg_Progress cfg)" "0 < MaxEvents (Batch (cfg_Progress cfg))"
      "0 < MaxWaitMs (Batch (cfg_Progress cfg))" "0 < SinkTimeoutMs (cfg_Progress cfg)"
      using valid by blast+
    have hc: "hub_config cfg = \<lparr>BufferSize = pr_BufferSize (cfg_Progress cfg), MaxBatchEvents = MaxEvents (Batch (cfg_Progress cfg)),
        MaxBatchWait = MaxWaitMs (Batch (cfg_Progress cfg)) * Millisecond, SinkTimeout = SinkTimeoutMs (cfg_Progress cfg) * Millisecond\<rparr>"
      by (simp only: hub_config_def Let_def milliseconds_i64[OF pos(3) assms(4)] milliseconds_i64[OF pos(4) assms(5)])
    then have "default_config (hub_config cfg) = hub_config cfg" using pos by (intro default_config_id) simp_all
    with hc show ?thesis unfolding b by (simp add: setupProgress_def NewHub_def Let_def)
  qed (simp add: b setupProgress_def)
  show ?thesis
    using hub t b(3,5) cfg_pos i unfolding b(4)
    by (simp add: setupDispatcher_def worker_config_def JobBudget_def split: option.splits)
qed


theorem built_app_is_as_configured_witness:
  "\<exists>cfg app fs'. Load demo_viper '''' '''' = Inr cfg
     \<and> Build demo_clients demo_os (\<lambda>_. demo_sink) () cfg [] = (Inr (app :: (unit, unit, unit) App), fs')
     \<and> app_dispatch app = NewPool (NewQueue 64) 4"
proof -
  obtain cfg where l: "Load demo_viper '''' '''' = Inr cfg" and
    c: "cfg = demo_config\<lparr>cfg_Database := (cfg_Database demo_config)\<lparr>DSN := url_String (dsn_url (cfg_Database demo_config))\<rparr>\<rparr>"
    by (rule demo_loads)
  have v: "validTableName ''r''" "validTableName ''p''" by code_simp+
  have "setupDatabase demo_clients cfg \<noteq> Inl e" for e
    using v by (simp add: c setupDatabase_def NewRetrievalStore_def check_tables_def NewProgressStore_def demo_clients_def
        demo_config_def Let_def)
  then obtain d where d: "setupDatabase demo_clients cfg = Inr d" by (cases "setupDatabase demo_clients cfg") auto
  have "setupStorage demo_clients demo_os cfg [] = (Inr (MemoryBlob NewBlobStore), [])" "setupPublisher demo_clients cfg = Inr MemoryPublisher"
    by (simp_all add: c setupStorage_def setupPublisher_def demo_config_def)
  then obtain app fs' where b: "Build demo_clients demo_os (\<lambda>_. demo_sink) () cfg [] = (Inr (app :: (unit, unit, unit) App), fs')"
    using d demo_observability(2)[of cfg] by (cases d) (auto simp: Build_def demo_observability(1) Let_def)
  have s: "http_TimeoutSeconds (cfg_HTTP cfg) < 9223372036" "MaxWaitMs (Batch (cfg_Progress cfg)) < 9223372036854"
    "SinkTimeoutMs (cfg_Progress cfg) < 9223372036854" "GlobalQueueDepth (cfg_Crawler cfg) = 64" "Concurrency (cfg_Crawler cfg) = 4"
    by (simp_all add: c demo_config_def)
  from built_app_is_as_configured[OF l b s(1-3)] have "app_dispatch app = NewPool (NewQueue 64) 4" by (simp add: s(4,5))
  with l b show ?thesis by blast
qed




text \<open>C40. A built application has both telemetry providers, so that its shutdown calls no nil provider, and
  closes both; the telemetry is initialised once: every later call of \<^verbatim>\<open>InitTelemetry\<close>, such as the
  one of \<^verbatim>\<open>api.NewServer\<close>, with whatever configuration, changes nothing and returns the providers of the
  application.\<close>

theorem telemetry_is_initialised_once:
  assumes "Build cl os mk w cfg fs = (Inr app, fs')" "s = snd (InitTelemetry (cl_otel cl) cfg zero_telemetry)"
  shows "app_tracer app \<noteq> None \<and> app_meter app \<noteq> None \<and> {ShutdownTracer, ShutdownMetrics} \<subseteq> set (app_Close app)
    \<and> InitTelemetry ot cfg' (init_calls calls s) = ((app_tracer app, app_meter app, None), s)"
proof -
  note p = Build_providers[OF assms(1)]
  have o: "initOnce s" using assms(2) by (simp add: InitTelemetry_first)
  have "app_tracer app = traceProv s" "app_meter app = meterProv s" "initErr s = None"
    using Build_vars[OF assms(1)] assms(2) by simp_all
  moreover have "{ShutdownTracer, ShutdownMetrics} \<subseteq> set (app_Close app)"
    using p by (simp add: app_Close_def closeObservability_def)
  ultimately show ?thesis using p o by (simp add: init_calls_once InitTelemetry_again)
qed

theorem telemetry_is_initialised_once_witness:
  "\<exists>app fs'. Build demo_clients demo_os (\<lambda>_. demo_sink) () (demo_config\<lparr>cfg_Database := (cfg_Database demo_config)\<lparr>DSN := ''''\<rparr>\<rparr>) []
       = (Inr (app :: (unit, unit, unit) App), fs') \<and> app_tracer app \<noteq> None"
proof -
  let ?cfg = "demo_config\<lparr>cfg_Database := (cfg_Database demo_config)\<lparr>DSN := ''''\<rparr>\<rparr>"
  obtain app fs' where b: "Build demo_clients demo_os (\<lambda>_. demo_sink) () ?cfg [] = (Inr (app :: (unit, unit, unit) App), fs')"
    by (simp add: Build_def logging_New_def InitTelemetry_def init_body_def setupTracing_def setupMetrics_def zero_telemetry_def
        setupStorage_def setupDatabase_def setupPublisher_def demo_clients_def demo_config_def Let_def)
  from telemetry_is_initialised_once[OF b refl] have "app_tracer app \<noteq> None" by blast
  with b show ?thesis by blast
qed

section \<open>Records of a job\<close>

text \<open>C35. The events of a job that a worker brought to its final status, interleaved with the events of
  other jobs and cut into batches in any way and consumed by the store sink over a database without
  faults, leave a job run that a query finds under the job's UUID: finished at the time of the job's
  last event, successful exactly when the final status in the job store is succeeded. Neither the
  batching, the other jobs nor refused site statistics matter.\<close>

theorem job_run_is_recorded:
  assumes "NewID W \<noteq> None" "0 \<le> MaxRetries (w_cfg W)" "int (length (URLs (item_Params item))) < 2 ^ 63"
    and "parseJobUUID W (item_JobID item) = (i, True)" "Emit W \<noteq> None" "i \<noteq> uuid_Nil" "length i = 16"
    and "run_state (processJob (traced W) ctx item) (w, []) = ((), w', t)"
    and "picked status_call t = [x, (j, st, e, c, y)]"
    and "filter (\<lambda>e. evt_JobID e = i) (concat batches) = picked event_call t" "db_faults db = []"
  shows "\<exists>run. repo_get_job i (sink_batches ord batches db) = (Inr run, sink_batches ord batches db)
    \<and> run_ID run = i \<and> run_Status run = (if st = JobStatusSucceeded then RunSuccess else RunError)
    \<and> run_FinishedAt run = Some (evt_TS (last (picked event_call t)))"
proof -
  have "job_post W ctx item t"
    using spec_run[OF any.processJob_spec[OF assms(1-3), of ctx] erases_processJob, of w] assms(8) by auto
  from recorded_run[OF this assms(4-7,9-11)] show ?thesis .
qed

theorem job_run_is_recorded_witness:
  "\<exists>w' t run. run_state (processJob (traced demo_worker) AppContext demo_item) (demo_world, []) = ((), w', t)
     \<and> repo_get_job (replicate 16 (CHR ''u'')) (sink_batches id [picked event_call t] demo_db)
         = (Inr run, sink_batches id [picked event_call t] demo_db) \<and> run_FinishedAt run \<noteq> None"
proof -
  let ?u = "replicate 16 (CHR ''u'')"
  have "js_jobs (mem_jobs demo_world) (item_JobID demo_item) \<noteq> None" "int (length (URLs (item_Params demo_item))) < 2 ^ 63"
    by (simp_all add: demo_world_def demo_item_def demo_job_def CreateJob_def NewJobStore_def demo_params_def)
  then obtain w' t j s e c y x where r: "run_state (processJob (traced demo_worker) AppContext demo_item) (demo_world, []) = ((), w', t)"
    and p: "picked status_call t = [x, (j, s, e, c, y)]"
    unfolding demo_worker_def by (rule mem_updates[where ctx = AppContext])
  have a: "NewID demo_worker \<noteq> None" "0 \<le> MaxRetries (w_cfg demo_worker)" "int (length (URLs (item_Params demo_item))) < 2 ^ 63"
    "parseJobUUID demo_worker (item_JobID demo_item) = (?u, True)" "Emit demo_worker \<noteq> None" "?u \<noteq> uuid_Nil"
    by (simp_all add: demo_worker_def mem_worker_def New_config_def demo_cfg_def Let_def demo_item_def demo_params_def
        parseJobUUID_def demo_out_def uuid_Nil_def)
  have post: "job_post demo_worker AppContext demo_item t"
    using spec_run[OF any.processJob_spec[OF a(1-3), of AppContext] erases_processJob, of demo_world] r by auto
  have "length ?u = 16" by simp
  from job_run_is_recorded[OF a(1-6) this r p, of "[picked event_call t]" demo_db id]
    job_events_own[OF post a(4-6) this p] r show ?thesis by (auto simp: demo_db_def)
qed

text \<open>C36. The promotion decision is the documented one: a response with status 200 is promoted when its
  body is empty, when it is shorter than the threshold and at least a quarter of its bytes are in
  script elements, as a byte-by-byte scan counts them, or when it contains a marker of a client-side
  application.\<close>

theorem promotion_decision:
  "ShouldPromote h resp \<longleftrightarrow> resp_StatusCode resp = 200 \<and>
     (resp_Body resp = []
      \<or> int (length (resp_Body resp)) < BodyLengthThreshold h \<and> length (resp_Body resp) \<le> 4 * script_bytes InText (resp_Body resp)
      \<or> (\<exists>marker \<in> set spaMarkers. sublist marker (resp_Body resp)))"
  by (auto simp: ShouldPromote_def scriptDensityHigh_reference bytes_Contains_iff list_ex_iff Let_def)

text \<open>C37. After any sequence of operations on a new job store, where jobs are created as the service
  creates them, every job found is stored under its own identifier, has a start time when it is
  running and a finish time when its status is terminal, and the pages listed for a job are exactly
  those recorded for it, in order.\<close>

theorem job_store_well_formed:
  assumes "list_all store_op_ok ops" "s = fold store_step ops NewJobStore"
  shows "(\<forall>job. GetJob i s = Inr job \<longrightarrow> job_ID job = i \<and> (isTerminal (job_Status job) \<longrightarrow> job_Finished job \<noteq> None)
       \<and> (job_Status job = JobStatusRunning \<longrightarrow> job_Started job \<noteq> None))
    \<and> ListPages i s = Inr (concat (map (recorded_for i) ops))"
proof -
  have "jobstore_inv s" using jobstore_inv_run[OF jobstore_inv_new assms(1)] assms(2) by simp
  moreover have "pages_list s i = concat (map (recorded_for i) ops)"
    using store_run_pages[of ops NewJobStore i] assms(2) by (simp add: pages_list_def NewJobStore_def)
  ultimately show ?thesis
    by (auto simp: jobstore_inv_def job_ok_def GetJob_def mem.list_law split: option.splits)
qed

theorem job_store_well_formed_witness:
  "ListPages ''j1'' (fold store_step [OpCreate demo_job, OpUpdate 5 ''j1'' JobStatusSucceeded '''' zero_counters] NewJobStore) = Inr []"
  using job_store_well_formed[of "[OpCreate demo_job, OpUpdate 5 ''j1'' JobStatusSucceeded '''' zero_counters]" _ "''j1''", OF _ refl]
  by (simp add: demo_job_def job_ok_def)



text \<open>C39. The rate limiter keeps the domains apart: after any sequence of waits the bucket of a domain is
  a fresh one to which the waits on URLs of that domain were applied, in order, and a domain without
  waits has none.\<close>

theorem limiter_isolates_domains:
  "limiters (waits mk wait us (NewLimiter rps burst) m) d =
     (let own = map fst (filter (\<lambda>(ctx, u). limiter_domain u = d) us);
          fresh = mk (if rps \<le> 0 then RateInf else RateLimit rps) (if burst \<le> 0 then 1 else burst)
      in if own = [] then None else Some (fold (\<lambda>ctx b. snd (wait ctx b)) own fresh))"
  using waits_bucket[of mk wait us "NewLimiter rps burst" m d] by (simp add: NewLimiter_def bucket_after_def Let_def)

end
